theory Spec2Isabelle
  imports
    Main
    "HOL-Library.Sublist"
    "HOL-Library.Char_ord"
    "HOL-Library.List_Lexorder"
    "HOL-Library.AList"
begin

section \<open>Values of the program\<close>

text \<open>
  The shepherd handles untyped JSON documents (\<^verbatim>\<open>dict[str, Any]\<close>): plans, tasks, agent
  results. A JSON object is an association list in insertion order, as a Python dict is;
  a non-integer number is kept as its source text. A string is a list of
  characters (\<^typ>\<open>string\<close>), each one a code point; the 8-bit characters of HOL are the
  code points below U+0100, and the lexicographic order on them is Python's order on \<^verbatim>\<open>str\<close>.
\<close>

datatype json =
    JNull
  | JBool bool
  | JInt int
  | JFloat string
  | JStr string
  | JList "json list"
  | JObj "(string \<times> json) list"

type_synonym dict = "(string \<times> json) list"

text \<open>Exceptions of the repository, and the Python exceptions no handler of it catches.\<close>

datatype error =
    StopExecution string
  | StopExecution_unexpected_status json
  | StateError
  | ReadOnlyStateError
  | StateValidationError
  | MissingStateError
  | PlannerError string
  | PolicyViolation string
  | MCPProcessError
  | MCPProtocolError
  | TypeError
  | AttributeError
  | KeyError
  | OSError
  | ValueError
  | UnicodeEncodeError
  | RuntimeError

text \<open>
  \<open>StopExecution_unexpected_status s\<close> is \<^verbatim>\<open>StopExecution(f"Unexpected Codex status: {status}")\<close>.
  The messages of the state errors are formatted from file paths and indices; only their
  class is kept.
\<close>

definition thenE :: "error + 'a \<Rightarrow> ('a \<Rightarrow> error + 'b) \<Rightarrow> error + 'b" where
  "thenE r f = (case r of Inl e \<Rightarrow> Inl e | Inr x \<Rightarrow> f x)"

fun checks :: "(error + unit) list \<Rightarrow> error + unit" where
  "checks [] = Inr ()"
| "checks (c # cs) = (case c of Inl e \<Rightarrow> Inl e | Inr u \<Rightarrow> checks cs)"

subsection \<open>Python dictionaries and dynamic typing\<close>

definition dict_has :: "dict \<Rightarrow> string \<Rightarrow> bool" where
  "dict_has d k = (map_of d k \<noteq> None)"

definition dict_get_default :: "dict \<Rightarrow> string \<Rightarrow> json \<Rightarrow> json" where
  "dict_get_default d k dflt = (case map_of d k of None \<Rightarrow> dflt | Some v \<Rightarrow> v)"

definition dict_get :: "dict \<Rightarrow> string \<Rightarrow> json" where
  "dict_get d k = dict_get_default d k JNull"

definition dict_set :: "dict \<Rightarrow> string \<Rightarrow> json \<Rightarrow> dict" where
  "dict_set d k v = AList.update k v d"

text \<open>\<^verbatim>\<open>x.get(k)\<close> on a value that may not be a dict, \<^verbatim>\<open>x[k]\<close>, \<^verbatim>\<open>for y in x\<close>,
  \<^verbatim>\<open>len(x)\<close> and hashing, with the exception Python raises.\<close>

definition py_get_default :: "json \<Rightarrow> string \<Rightarrow> json \<Rightarrow> error + json" where
  "py_get_default x k dflt = (case x of JObj d \<Rightarrow> Inr (dict_get_default d k dflt) | _ \<Rightarrow> Inl AttributeError)"

definition py_get :: "json \<Rightarrow> string \<Rightarrow> error + json" where
  "py_get x k = py_get_default x k JNull"

definition py_index :: "json \<Rightarrow> string \<Rightarrow> error + json" where
  "py_index x k = (case x of
      JObj d \<Rightarrow> (case map_of d k of None \<Rightarrow> Inl KeyError | Some v \<Rightarrow> Inr v)
    | _ \<Rightarrow> Inl TypeError)"

definition py_iter :: "json \<Rightarrow> error + json list" where
  "py_iter x = (case x of
      JList xs \<Rightarrow> Inr xs
    | JStr s \<Rightarrow> Inr (map (\<lambda>c. JStr [c]) s)
    | JObj d \<Rightarrow> Inr (map (\<lambda>kv. JStr (fst kv)) d)
    | _ \<Rightarrow> Inl TypeError)"

definition py_len :: "json \<Rightarrow> error + nat" where
  "py_len x = (case x of
      JList xs \<Rightarrow> Inr (length xs)
    | JStr s \<Rightarrow> Inr (length s)
    | JObj d \<Rightarrow> Inr (length d)
    | _ \<Rightarrow> Inl TypeError)"

definition hashable :: "json \<Rightarrow> bool" where
  "hashable x = (case x of JList xs \<Rightarrow> False | JObj d \<Rightarrow> False | _ \<Rightarrow> True)"

subsection \<open>Strings\<close>

text \<open>
  \<^verbatim>\<open>str.strip\<close> removes the characters of which \<^verbatim>\<open>str.isspace\<close> holds. Among the code
  points below U+0100 these are the ASCII white space, the four separators U+001C to
  U+001F, U+0085 (next line) and U+00A0 (no-break space).
\<close>

definition is_space :: "char \<Rightarrow> bool" where
  "is_space c = (c \<in> set [CHR 0x09, CHR 0x0A, CHR 0x0B, CHR 0x0C, CHR 0x0D,
                          CHR 0x1C, CHR 0x1D, CHR 0x1E, CHR 0x1F, CHR 0x20,
                          CHR 0x85, CHR 0xA0])"

definition lstrip :: "string \<Rightarrow> string" where
  "lstrip s = dropWhile is_space s"

definition rstrip :: "string \<Rightarrow> string" where
  "rstrip s = rev (dropWhile is_space (rev s))"

definition strip :: "string \<Rightarrow> string" where
  "strip s = lstrip (rstrip s)"

definition endswith :: "string \<Rightarrow> string \<Rightarrow> bool" where
  "endswith s t = suffix t s"

fun join :: "string \<Rightarrow> string list \<Rightarrow> string" where
  "join sep [] = []"
| "join sep [x] = x"
| "join sep (x # y # ys) = x @ sep @ join sep (y # ys)"

fun decimal :: "nat \<Rightarrow> string" where
  "decimal n = (if n < 10 then [char_of (48 + n)]
                else decimal (n div 10) @ [char_of (48 + n mod 10)])"

declare decimal.simps [simp del]

subsection \<open>Paths\<close>

text \<open>
  A \<^verbatim>\<open>pathlib\<close> path of the POSIX flavour: its root (empty for a relative path) and its
  components.
\<close>

datatype path = Path (root: string) (parts: "string list")

fun split_on :: "char \<Rightarrow> string \<Rightarrow> string list" where
  "split_on c [] = [[]]"
| "split_on c (x # xs) =
     (if x = c then [] # split_on c xs
      else (case split_on c xs of [] \<Rightarrow> [[x]] | y # ys \<Rightarrow> (x # y) # ys))"

definition Path_of :: "string \<Rightarrow> path" where
  "Path_of s =
     (let lead = length (takeWhile (\<lambda>c. c = CHR ''/'') s)
      in Path (if lead = 0 then [] else if lead = 2 then ''//'' else ''/'')
              (filter (\<lambda>x. x \<noteq> [] \<and> x \<noteq> ''.'') (split_on CHR ''/'' s)))"

definition is_absolute :: "path \<Rightarrow> bool" where
  "is_absolute p = (root p \<noteq> [])"

definition joinpath :: "path \<Rightarrow> path \<Rightarrow> path" where
  "joinpath a b = (if is_absolute b then b else Path (root a) (parts a @ parts b))"

definition parent :: "path \<Rightarrow> path" where
  "parent p = Path (root p) (butlast (parts p))"

text \<open>\<^verbatim>\<open>_is_within\<close>: \<^verbatim>\<open>path.relative_to(directory)\<close> does not raise \<^verbatim>\<open>ValueError\<close>.\<close>

definition is_within :: "path \<Rightarrow> path \<Rightarrow> bool" where
  "is_within p directory = (root p = root directory \<and> prefix (parts directory) (parts p))"

section \<open>The world of a run\<close>

text \<open>
  The text of a file. \<open>Json_Dump j\<close> is the text \<^verbatim>\<open>json.dumps(j, indent=2) + "\n"\<close>, which
  \<^verbatim>\<open>json.loads\<close> reads back as \<open>j\<close>; \<open>Progress_Dump os ts\<close> is
  \<^verbatim>\<open>json.dumps({"objectives": dict(os), "tasks": dict(ts)}, indent=2) + "\n"\<close> for the
  key-value pairs \<open>os\<close> and \<open>ts\<close> in insertion order; \<open>Text s\<close> is any other text, \<open>s\<close> itself.
  Equal contents are equal byte for byte.
\<close>

datatype content =
    Text string
  | Json_Dump json
  | Progress_Dump "(json \<times> json) list" "(json \<times> json) list"

text \<open>
  Library functions the repository calls and whose result no definition here fixes:
  \<^verbatim>\<open>Path.resolve\<close> (it depends on the working directory and on symbolic links),
  \<^verbatim>\<open>json.loads\<close> on a text that is not a \<open>Json_Dump\<close>, the characters of a dump, and
  \<^verbatim>\<open>str\<close> of a value that is not a string.

  \<^verbatim>\<open>Path.resolve\<close> does not always return. It raises \<^verbatim>\<open>ValueError\<close> on a path with a null
  character, \<^verbatim>\<open>UnicodeEncodeError\<close> on one that the file system encoding cannot encode,
  \<^verbatim>\<open>RuntimeError\<close> on a loop of symbolic links, and \<^verbatim>\<open>OSError\<close> when a relative path
  has no working directory to start from. No handler of the repository catches them.
\<close>

datatype resolve_error = Null_character | Not_encodable | Symlink_loop | No_working_directory

fun resolve_exception :: "resolve_error \<Rightarrow> error" where
  "resolve_exception Null_character = ValueError"
| "resolve_exception Not_encodable = UnicodeEncodeError"
| "resolve_exception Symlink_loop = RuntimeError"
| "resolve_exception No_working_directory = OSError"

record env =
  resolve :: "path \<Rightarrow> resolve_error + path"
  json_loads :: "content \<Rightarrow> json option"
  dump_text :: "content \<Rightarrow> string"
  py_repr :: "json \<Rightarrow> string"

definition Path_resolve :: "env \<Rightarrow> path \<Rightarrow> error + path" where
  "Path_resolve E p = (case resolve E p of Inl e \<Rightarrow> Inl (resolve_exception e) | Inr q \<Rightarrow> Inr q)"

definition loads :: "env \<Rightarrow> content \<Rightarrow> json option" where
  "loads E c = (case c of Json_Dump j \<Rightarrow> Some j | _ \<Rightarrow> json_loads E c)"

definition text_of :: "env \<Rightarrow> content \<Rightarrow> string" where
  "text_of E c = (case c of Text s \<Rightarrow> s | _ \<Rightarrow> dump_text E c)"

definition py_str :: "env \<Rightarrow> json \<Rightarrow> string" where
  "py_str E x = (case x of JStr s \<Rightarrow> s | _ \<Rightarrow> py_repr E x)"

record RetryTracker =
  max_retries_per_task :: int
  max_consecutive_failures :: int
  attempts :: "string \<rightharpoonup> int"
  consecutive_failures :: int

text \<open>
  The mutable state: the directory entries at the paths the program uses, each a file
  with its text or a directory, and the watchdog's counters. Symbolic links between state
  files are not modelled, and the operating system refuses an operation only for the kind
  of an entry (a directory where a file is needed, or a file where a directory is). The
  files hold UTF-8 text, so that reading one does not fail on its bytes.
\<close>

datatype entry = File content | Dir

record world =
  fs :: "path \<rightharpoonup> entry"
  retry_tracker :: RetryTracker

type_synonym 'a io = "world \<Rightarrow> (error + 'a) \<times> world"

definition io_return :: "'a \<Rightarrow> 'a io" where
  "io_return x = (\<lambda>w. (Inr x, w))"

definition io_raise :: "error \<Rightarrow> 'a io" where
  "io_raise e = (\<lambda>w. (Inl e, w))"

definition io_lift :: "error + 'a \<Rightarrow> 'a io" where
  "io_lift r = (\<lambda>w. (r, w))"

definition io_bind :: "'a io \<Rightarrow> ('a \<Rightarrow> 'b io) \<Rightarrow> 'b io" where
  "io_bind m f = (\<lambda>w. case m w of (Inl e, w') \<Rightarrow> (Inl e, w') | (Inr x, w') \<Rightarrow> f x w')"

definition io_then :: "unit io \<Rightarrow> 'b io \<Rightarrow> 'b io" where
  "io_then m k = io_bind m (\<lambda>u. k)"

definition path_exists :: "world \<Rightarrow> path \<Rightarrow> bool" where
  "path_exists w p = (fs w p \<noteq> None)"

section \<open>state.py\<close>

definition AI_DIRNAME :: string where "AI_DIRNAME = ''ai''"
definition DESIGN_DIRNAME :: string where "DESIGN_DIRNAME = ''design''"
definition CONFIG_FILENAME :: string where "CONFIG_FILENAME = ''config.json''"
definition GOALS_FILENAME :: string where "GOALS_FILENAME = ''GOALS.md''"
definition SOURCES_FILENAME :: string where "SOURCES_FILENAME = ''SOURCES.yaml''"
definition PLAN_FILENAME :: string where "PLAN_FILENAME = ''PLAN.yaml''"
definition ACTIVE_TASK_FILENAME :: string where "ACTIVE_TASK_FILENAME = ''ACTIVE_TASK.yaml''"
definition SUMMARY_FILENAME :: string where "SUMMARY_FILENAME = ''SUMMARY.md''"
definition LAST_RESULT_FILENAME :: string where "LAST_RESULT_FILENAME = ''LAST_RESULT.json''"
definition PROGRESS_FILENAME :: string where "PROGRESS_FILENAME = ''PROGRESS.yaml''"

definition DEFAULT_SUMMARY :: string where "DEFAULT_SUMMARY = []"
definition DEFAULT_PROGRESS :: string where "DEFAULT_PROGRESS = ''objectives: {}'' @ [CHR 0x0A]"

definition OBJECTIVE_STATUSES :: "string list" where
  "OBJECTIVE_STATUSES = [''pending'', ''in_progress'', ''complete'']"
definition TASK_STATUSES :: "string list" where
  "TASK_STATUSES = [''pending'', ''active'', ''done'', ''failed'', ''blocked'']"
definition CODEX_RESULT_STATUSES :: "string list" where
  "CODEX_RESULT_STATUSES = [''success'', ''failed'', ''blocked'']"

record Config =
  mcp_command :: string
  startup_timeout_seconds :: int
  task_timeout_seconds :: int
  max_retries_per_task :: int
  max_consecutive_failures :: int
  one_task_at_a_time :: bool
  design_dir :: string
  state_dir :: string
  strict_schema_validation :: bool
  json_subset_only :: bool
  log_level :: string
  log_file :: string

text \<open>
  The attributes \<^verbatim>\<open>StateStore.__init__\<close> sets. The paths of the state files are derived
  from \<open>ai_dir\<close>; the three sets of resolved paths are computed once, at construction.
\<close>

record StateStore =
  project_root :: path
  ai_dir :: path
  design_dir :: path
  config_path :: path
  strict_schema_validation :: bool
  json_subset_only :: bool
  read_only_paths :: "path list"
  writable_paths :: "path list"
  design_resolved :: path

definition goals_path :: "StateStore \<Rightarrow> path" where
  "goals_path S = joinpath (ai_dir S) (Path_of GOALS_FILENAME)"
definition sources_path :: "StateStore \<Rightarrow> path" where
  "sources_path S = joinpath (ai_dir S) (Path_of SOURCES_FILENAME)"
definition plan_path :: "StateStore \<Rightarrow> path" where
  "plan_path S = joinpath (ai_dir S) (Path_of PLAN_FILENAME)"
definition active_task_path :: "StateStore \<Rightarrow> path" where
  "active_task_path S = joinpath (ai_dir S) (Path_of ACTIVE_TASK_FILENAME)"
definition summary_path :: "StateStore \<Rightarrow> path" where
  "summary_path S = joinpath (ai_dir S) (Path_of SUMMARY_FILENAME)"
definition last_result_path :: "StateStore \<Rightarrow> path" where
  "last_result_path S = joinpath (ai_dir S) (Path_of LAST_RESULT_FILENAME)"
definition progress_path :: "StateStore \<Rightarrow> path" where
  "progress_path S = joinpath (ai_dir S) (Path_of PROGRESS_FILENAME)"

definition StateStore_init ::
  "env \<Rightarrow> world \<Rightarrow> path \<Rightarrow> string \<Rightarrow> string \<Rightarrow> path option \<Rightarrow> bool \<Rightarrow> bool \<Rightarrow> error + StateStore" where
  "StateStore_init E w project_root_arg state_dir_arg design_dir_arg config_path_arg strict subset_only =
     thenE (Path_resolve E project_root_arg) (\<lambda>root.
      if \<not> path_exists w root then Inl MissingStateError
      else
        let ai = joinpath root (Path_of state_dir_arg);
            design = joinpath root (Path_of design_dir_arg);
            config = (case config_path_arg of
                        None \<Rightarrow> joinpath (joinpath root (Path_of AI_DIRNAME)) (Path_of CONFIG_FILENAME)
                      | Some p \<Rightarrow> p);
            S0 = \<lparr>project_root = root, ai_dir = ai, design_dir = design, config_path = config,
                  strict_schema_validation = strict, json_subset_only = subset_only,
                  read_only_paths = [], writable_paths = [], design_resolved = design\<rparr>
        in thenE (Path_resolve E config) (\<lambda>config_r.
           thenE (Path_resolve E (goals_path S0)) (\<lambda>goals_r.
           thenE (Path_resolve E (sources_path S0)) (\<lambda>sources_r.
           thenE (Path_resolve E (plan_path S0)) (\<lambda>plan_r.
           thenE (Path_resolve E (active_task_path S0)) (\<lambda>active_r.
           thenE (Path_resolve E (summary_path S0)) (\<lambda>summary_r.
           thenE (Path_resolve E (last_result_path S0)) (\<lambda>last_r.
           thenE (Path_resolve E (progress_path S0)) (\<lambda>progress_r.
           thenE (Path_resolve E design) (\<lambda>design_r.
             Inr (S0\<lparr>read_only_paths := [config_r, goals_r, sources_r],
                      writable_paths := [plan_r, active_r, summary_r, last_r, progress_r],
                      design_resolved := design_r\<rparr>)))))))))))"

definition is_read_only_path :: "env \<Rightarrow> StateStore \<Rightarrow> path \<Rightarrow> error + bool" where
  "is_read_only_path E S p =
     thenE (Path_resolve E p) (\<lambda>resolved.
      if resolved \<in> set (read_only_paths S) then Inr True
      else Inr (is_within resolved (design_resolved S)))"

definition is_writable_path :: "env \<Rightarrow> StateStore \<Rightarrow> path \<Rightarrow> error + bool" where
  "is_writable_path E S p =
     thenE (Path_resolve E p) (\<lambda>resolved. Inr (resolved \<in> set (writable_paths S)))"

subsection \<open>Schema validation\<close>

definition require_mapping :: "json \<Rightarrow> error + unit" where
  "require_mapping v = (case v of JObj d \<Rightarrow> Inr () | _ \<Rightarrow> Inl StateValidationError)"

definition require_list :: "json \<Rightarrow> error + unit" where
  "require_list v = (case v of JList xs \<Rightarrow> Inr () | _ \<Rightarrow> Inl StateValidationError)"

definition require_keys :: "dict \<Rightarrow> string list \<Rightarrow> error + unit" where
  "require_keys mapping required =
     (let missing = filter (\<lambda>k. \<not> dict_has mapping k) required
      in if missing \<noteq> [] then Inl StateValidationError else Inr ())"

definition reject_extra_keys :: "dict \<Rightarrow> string list \<Rightarrow> error + unit" where
  "reject_extra_keys mapping allowed =
     (let extra = filter (\<lambda>k. k \<notin> set allowed) (map fst mapping)
      in if extra \<noteq> [] then Inl StateValidationError else Inr ())"

definition require_int :: "json \<Rightarrow> error + unit" where
  "require_int v = (case v of JInt i \<Rightarrow> Inr () | _ \<Rightarrow> Inl StateValidationError)"

definition require_string :: "json \<Rightarrow> error + unit" where
  "require_string v = (case v of JStr s \<Rightarrow> Inr () | _ \<Rightarrow> Inl StateValidationError)"

definition require_string_list :: "json \<Rightarrow> error + unit" where
  "require_string_list v =
     checks [require_list v,
             (case v of JList xs \<Rightarrow> checks (map require_string xs) | _ \<Rightarrow> Inr ())]"

definition require_enum :: "json \<Rightarrow> string list \<Rightarrow> error + unit" where
  "require_enum v allowed =
     checks [require_string v,
             (case v of JStr s \<Rightarrow> if s \<notin> set allowed then Inl StateValidationError else Inr ()
                      | _ \<Rightarrow> Inr ())]"

text \<open>
  In the validators below \<^verbatim>\<open>mapping[key]\<close> is read with \<open>dict_get\<close>: it comes after
  \<open>require_keys\<close>, or under a test that the key is present, so the key exists.
\<close>

definition validate_objective :: "json \<Rightarrow> error + unit" where
  "validate_objective obj =
     (case obj of
        JObj m \<Rightarrow>
          checks [require_keys m [''id'', ''source'', ''status''],
                  reject_extra_keys m [''id'', ''source'', ''status''],
                  require_string (dict_get m ''id''),
                  require_string (dict_get m ''source''),
                  require_enum (dict_get m ''status'') OBJECTIVE_STATUSES]
      | _ \<Rightarrow> require_mapping obj)"

definition optional_string_lists :: "dict \<Rightarrow> (error + unit) list" where
  "optional_string_lists task =
     [if dict_has task ''depends_on'' then require_string_list (dict_get task ''depends_on'') else Inr (),
      if dict_has task ''scope'' then require_string_list (dict_get task ''scope'') else Inr (),
      if dict_has task ''success_criteria'' then require_string_list (dict_get task ''success_criteria'')
      else Inr ()]"

definition validate_task :: "json \<Rightarrow> error + unit" where
  "validate_task task =
     (case task of
        JObj m \<Rightarrow>
          (let required = [''id'', ''objective'', ''derived_from'', ''status''];
               optional = [''depends_on'', ''scope'', ''success_criteria''];
               allowed = required @ optional
           in checks ([require_keys m required,
                       reject_extra_keys m allowed,
                       require_string (dict_get m ''id''),
                       require_string (dict_get m ''objective''),
                       require_string (dict_get m ''derived_from''),
                       require_enum (dict_get m ''status'') TASK_STATUSES]
                      @ optional_string_lists m))
      | _ \<Rightarrow> require_mapping task)"

definition validate_plan :: "json \<Rightarrow> error + unit" where
  "validate_plan plan =
     (case plan of
        JObj m \<Rightarrow>
          checks [require_keys m [''version'', ''objectives'', ''tasks''],
                  reject_extra_keys m [''version'', ''objectives'', ''tasks''],
                  require_int (dict_get m ''version''),
                  require_list (dict_get m ''objectives''),
                  (case dict_get m ''objectives'' of
                     JList objectives \<Rightarrow> checks (map validate_objective objectives)
                   | _ \<Rightarrow> Inr ()),
                  require_list (dict_get m ''tasks''),
                  (case dict_get m ''tasks'' of
                     JList tasks \<Rightarrow> checks (map validate_task tasks)
                   | _ \<Rightarrow> Inr ())]
      | _ \<Rightarrow> require_mapping plan)"

definition validate_active_task :: "json \<Rightarrow> error + unit" where
  "validate_active_task task =
     (case task of
        JObj m \<Rightarrow>
          (let required = [''id'', ''objective'', ''derived_from'', ''status'', ''timeout_seconds''];
               optional = [''depends_on'', ''scope'', ''success_criteria''];
               allowed = required @ optional
           in checks ([require_keys m required,
                       reject_extra_keys m allowed,
                       require_string (dict_get m ''id''),
                       require_string (dict_get m ''objective''),
                       require_string (dict_get m ''derived_from''),
                       require_enum (dict_get m ''status'') TASK_STATUSES,
                       require_int (dict_get m ''timeout_seconds'')]
                      @ optional_string_lists m))
      | _ \<Rightarrow> require_mapping task)"

definition validate_codex_result :: "json \<Rightarrow> error + unit" where
  "validate_codex_result result =
     (case result of
        JObj m \<Rightarrow>
          checks [require_keys m [''status'', ''files_changed'', ''tests_run'', ''notes''],
                  reject_extra_keys m [''status'', ''files_changed'', ''tests_run'', ''notes''],
                  require_enum (dict_get m ''status'') CODEX_RESULT_STATUSES,
                  require_string_list (dict_get m ''files_changed''),
                  require_string_list (dict_get m ''tests_run''),
                  require_string (dict_get m ''notes'')]
      | _ \<Rightarrow> require_mapping result)"

subsection \<open>Reading and writing files\<close>

definition read_text :: "path \<Rightarrow> content io" where
  "read_text p = (\<lambda>w. case fs w p of
                        None \<Rightarrow> (Inl MissingStateError, w)
                      | Some Dir \<Rightarrow> (Inl OSError, w)
                      | Some (File c) \<Rightarrow> (Inr c, w))"

definition read_json_object :: "env \<Rightarrow> path \<Rightarrow> dict io" where
  "read_json_object E p =
     io_bind (read_text p) (\<lambda>text.
       case loads E text of
         None \<Rightarrow> io_raise StateValidationError
       | Some data \<Rightarrow> (case data of JObj d \<Rightarrow> io_return d | _ \<Rightarrow> io_raise StateValidationError))"

definition ensure_writable_path :: "env \<Rightarrow> StateStore \<Rightarrow> path \<Rightarrow> error + unit" where
  "ensure_writable_path E S p =
     thenE (Path_resolve E p) (\<lambda>resolved.
      if resolved \<in> set (read_only_paths S) then Inl ReadOnlyStateError
      else if is_within resolved (design_resolved S) then Inl ReadOnlyStateError
      else if resolved \<notin> set (writable_paths S) then Inl StateError
      else Inr ())"

definition ensure_parent_dir :: "path \<Rightarrow> unit io" where
  "ensure_parent_dir p = (\<lambda>w. if \<not> path_exists w (parent p) then (Inl MissingStateError, w)
                              else (Inr (), w))"

text \<open>
  \<^verbatim>\<open>_atomic_write_bytes\<close> writes a temporary file beside the target and renames it over
  the target; the temporary file is gone when it returns, also when it raises. Its effect
  is the new entry. \<^verbatim>\<open>mkstemp\<close> fails where the parent is not a directory, and
  \<^verbatim>\<open>os.replace\<close> where the target is one.
\<close>

definition atomic_write_bytes :: "path \<Rightarrow> content \<Rightarrow> unit io" where
  "atomic_write_bytes p payload =
     (\<lambda>w. if fs w (parent p) \<noteq> Some Dir then (Inl OSError, w)
          else if fs w p = Some Dir then (Inl OSError, w)
          else (Inr (), w\<lparr>fs := (fs w)(p \<mapsto> File payload)\<rparr>))"

text \<open>The argument of \<^verbatim>\<open>_atomic_write_text\<close> is a \<^verbatim>\<open>str\<close> at each of its calls.\<close>

definition atomic_write_text :: "env \<Rightarrow> StateStore \<Rightarrow> path \<Rightarrow> content \<Rightarrow> unit io" where
  "atomic_write_text E S p text =
     io_then (io_lift (ensure_writable_path E S p))
    (io_then (ensure_parent_dir p)
             (atomic_write_bytes p text))"

text \<open>Every JSON value here has string keys, so \<^verbatim>\<open>json.dumps\<close> does not raise.\<close>

definition atomic_write_json :: "env \<Rightarrow> StateStore \<Rightarrow> path \<Rightarrow> json \<Rightarrow> unit io" where
  "atomic_write_json E S p data =
     (case data of
        JObj d \<Rightarrow>
          io_then (io_lift (ensure_writable_path E S p))
         (io_then (ensure_parent_dir p)
                  (atomic_write_bytes p (Json_Dump data)))
      | _ \<Rightarrow> io_raise TypeError)"

subsection \<open>The methods of the state store\<close>

definition load_goals :: "StateStore \<Rightarrow> content io" where
  "load_goals S = read_text (goals_path S)"

definition load_sources :: "env \<Rightarrow> StateStore \<Rightarrow> dict io" where
  "load_sources E S = read_json_object E (sources_path S)"

definition load_plan :: "env \<Rightarrow> StateStore \<Rightarrow> dict io" where
  "load_plan E S =
     io_bind (read_json_object E (plan_path S)) (\<lambda>plan.
       io_then (if StateStore.strict_schema_validation S then io_lift (validate_plan (JObj plan))
                else io_return ())
               (io_return plan))"

definition load_active_task :: "env \<Rightarrow> StateStore \<Rightarrow> dict io" where
  "load_active_task E S =
     io_bind (read_json_object E (active_task_path S)) (\<lambda>task.
       io_then (if StateStore.strict_schema_validation S then io_lift (validate_active_task (JObj task))
                else io_return ())
               (io_return task))"

definition load_summary :: "StateStore \<Rightarrow> content io" where
  "load_summary S = (\<lambda>w. if \<not> path_exists w (summary_path S) then (Inr (Text DEFAULT_SUMMARY), w)
                         else read_text (summary_path S) w)"

definition load_last_result :: "env \<Rightarrow> StateStore \<Rightarrow> dict option io" where
  "load_last_result E S =
     (\<lambda>w. if \<not> path_exists w (last_result_path S) then (Inr None, w)
          else io_bind (read_json_object E (last_result_path S)) (\<lambda>result.
                 io_then (if StateStore.strict_schema_validation S
                          then io_lift (validate_codex_result (JObj result))
                          else io_return ())
                         (io_return (Some result))) w)"

definition load_progress :: "StateStore \<Rightarrow> content io" where
  "load_progress S = (\<lambda>w. if \<not> path_exists w (progress_path S) then (Inr (Text DEFAULT_PROGRESS), w)
                          else read_text (progress_path S) w)"

definition write_plan :: "env \<Rightarrow> StateStore \<Rightarrow> json \<Rightarrow> unit io" where
  "write_plan E S plan =
     io_then (if StateStore.strict_schema_validation S then io_lift (validate_plan plan)
              else io_return ())
             (atomic_write_json E S (plan_path S) plan)"

definition write_active_task :: "env \<Rightarrow> StateStore \<Rightarrow> json \<Rightarrow> unit io" where
  "write_active_task E S task =
     io_then (if StateStore.strict_schema_validation S then io_lift (validate_active_task task)
              else io_return ())
             (atomic_write_json E S (active_task_path S) task)"

definition write_summary :: "env \<Rightarrow> StateStore \<Rightarrow> content \<Rightarrow> unit io" where
  "write_summary E S text = atomic_write_text E S (summary_path S) text"

definition write_last_result :: "env \<Rightarrow> StateStore \<Rightarrow> json \<Rightarrow> unit io" where
  "write_last_result E S result =
     io_then (if StateStore.strict_schema_validation S then io_lift (validate_codex_result result)
              else io_return ())
             (atomic_write_json E S (last_result_path S) result)"

definition write_progress :: "env \<Rightarrow> StateStore \<Rightarrow> content \<Rightarrow> unit io" where
  "write_progress E S text = atomic_write_text E S (progress_path S) text"

definition clear_active_task :: "env \<Rightarrow> StateStore \<Rightarrow> unit io" where
  "clear_active_task E S =
     (\<lambda>w. if path_exists w (active_task_path S)
          then io_then (io_lift (ensure_writable_path E S (active_task_path S)))
                       (\<lambda>w'. if fs w' (active_task_path S) = Some Dir then (Inl OSError, w')
                             else (Inr (), w'\<lparr>fs := (fs w')(active_task_path S := None)\<rparr>)) w
          else (Inr (), w))"

section \<open>policies.py\<close>

definition resolve_path :: "env \<Rightarrow> path \<Rightarrow> string \<Rightarrow> error + path" where
  "resolve_path E project_root_arg path_str =
     (let candidate = Path_of path_str;
          candidate = (if \<not> is_absolute candidate then joinpath project_root_arg candidate
                       else candidate)
      in Path_resolve E candidate)"

text \<open>The loop over \<^verbatim>\<open>files_changed\<close>, with the list \<^verbatim>\<open>forbidden\<close> it appends to.\<close>

fun collect_forbidden ::
  "env \<Rightarrow> path \<Rightarrow> path \<Rightarrow> path \<Rightarrow> json list \<Rightarrow> string list \<Rightarrow> error + string list" where
  "collect_forbidden E project_rt design_rt state_rt [] forbidden = Inr forbidden"
| "collect_forbidden E project_rt design_rt state_rt (entry # rest) forbidden =
     (case entry of
        JStr s \<Rightarrow>
          thenE (resolve_path E project_rt s) (\<lambda>resolved.
           if is_within resolved design_rt \<or> is_within resolved state_rt
           then collect_forbidden E project_rt design_rt state_rt rest (forbidden @ [s])
           else if \<not> is_within resolved project_rt
           then collect_forbidden E project_rt design_rt state_rt rest (forbidden @ [s])
           else collect_forbidden E project_rt design_rt state_rt rest forbidden)
      | _ \<Rightarrow> Inl (PolicyViolation ''files_changed entries must be strings.''))"

definition assert_no_forbidden_changes ::
  "env \<Rightarrow> json list \<Rightarrow> path \<Rightarrow> path \<Rightarrow> path \<Rightarrow> error + unit" where
  "assert_no_forbidden_changes E files_changed project_root_arg design_dir_arg state_dir_arg =
     thenE (Path_resolve E design_dir_arg) (\<lambda>design_rt.
     thenE (Path_resolve E state_dir_arg) (\<lambda>state_rt.
     thenE (Path_resolve E project_root_arg) (\<lambda>project_rt.
     thenE (collect_forbidden E project_rt design_rt state_rt files_changed [])
       (\<lambda>forbidden.
          if forbidden \<noteq> []
          then Inl (PolicyViolation (''Forbidden files modified: '' @ join '', '' (sort forbidden)))
          else Inr ()))))"

section \<open>watchdog.py\<close>

definition record_success :: "RetryTracker \<Rightarrow> string \<Rightarrow> RetryTracker" where
  "record_success t task_id = t\<lparr>consecutive_failures := 0, attempts := (attempts t)(task_id := None)\<rparr>"

definition record_failure :: "RetryTracker \<Rightarrow> string \<Rightarrow> RetryTracker" where
  "record_failure t task_id =
     t\<lparr>consecutive_failures := consecutive_failures t + 1,
       attempts := (attempts t)(task_id \<mapsto> (case attempts t task_id of None \<Rightarrow> 0 | Some n \<Rightarrow> n) + 1)\<rparr>"

definition can_retry :: "RetryTracker \<Rightarrow> string \<Rightarrow> bool" where
  "can_retry t task_id =
     ((case attempts t task_id of None \<Rightarrow> 0 | Some n \<Rightarrow> n) \<le> RetryTracker.max_retries_per_task t)"

definition too_many_consecutive_failures :: "RetryTracker \<Rightarrow> bool" where
  "too_many_consecutive_failures t =
     (consecutive_failures t \<ge> RetryTracker.max_consecutive_failures t)"

section \<open>planner.py\<close>

text \<open>\<^verbatim>\<open>_task_map\<close>: the loop, with the map built so far.\<close>

fun task_map_loop :: "json list \<Rightarrow> dict \<Rightarrow> error + dict" where
  "task_map_loop [] tm = Inr tm"
| "task_map_loop (task # rest) tm =
     thenE (py_get task ''id'') (\<lambda>task_id.
       case task_id of
         JStr s \<Rightarrow>
           if s = [] then Inl (PlannerError ''Task id must be a non-empty string.'')
           else if dict_has tm s then Inl (PlannerError (''Duplicate task id: '' @ s))
           else task_map_loop rest (dict_set tm s task)
       | _ \<Rightarrow> Inl (PlannerError ''Task id must be a non-empty string.''))"

definition task_map :: "json list \<Rightarrow> error + dict" where
  "task_map tasks = task_map_loop tasks []"

fun dependencies_loop :: "json list \<Rightarrow> dict \<Rightarrow> error + bool" where
  "dependencies_loop [] tm = Inr True"
| "dependencies_loop (dep # rest) tm =
     (case dep of
        JStr s \<Rightarrow>
          if \<not> dict_has tm s then Inl (PlannerError (''Dependency not found: '' @ s))
          else thenE (py_get (dict_get tm s) ''status'') (\<lambda>status.
                 if status \<noteq> JStr ''done'' then Inr False
                 else dependencies_loop rest tm)
      | _ \<Rightarrow> Inl (PlannerError ''depends_on entries must be strings.''))"

definition dependencies_satisfied :: "json \<Rightarrow> dict \<Rightarrow> error + bool" where
  "dependencies_satisfied depends_on tm =
     (case depends_on of
        JList deps \<Rightarrow> dependencies_loop deps tm
      | _ \<Rightarrow> Inl (PlannerError ''depends_on must be a list.''))"

text \<open>The \<^verbatim>\<open>for task in tasks\<close> loop of \<^verbatim>\<open>select_next_task\<close>.\<close>

fun select_loop :: "json list \<Rightarrow> dict \<Rightarrow> error + json option" where
  "select_loop [] tm = Inr None"
| "select_loop (task # rest) tm =
     thenE (py_get task ''status'') (\<lambda>status.
       if status = JStr ''active''
       then Inl (PlannerError ''Plan contains an active task without execution context.'')
       else if status \<noteq> JStr ''pending'' then select_loop rest tm
       else thenE (py_get_default task ''depends_on'' (JList [])) (\<lambda>depends_on.
              thenE (dependencies_satisfied depends_on tm) (\<lambda>satisfied.
                if \<not> satisfied then select_loop rest tm
                else Inr (Some task))))"

definition select_next_task :: "dict \<Rightarrow> error + json option" where
  "select_next_task plan =
     thenE (py_iter (dict_get_default plan ''tasks'' (JList []))) (\<lambda>tasks.
       thenE (task_map tasks) (\<lambda>tm. select_loop tasks tm))"

text \<open>
  \<^verbatim>\<open>_find_task\<close> returns a reference to a task of the plan, which its callers then
  assign to: here, the position of the task in the list under \<^verbatim>\<open>"tasks"\<close>.
\<close>

fun find_task_loop :: "json list \<Rightarrow> string \<Rightarrow> nat \<Rightarrow> error + nat" where
  "find_task_loop [] task_id i = Inl (PlannerError (''Task not found: '' @ task_id))"
| "find_task_loop (task # rest) task_id i =
     thenE (py_get task ''id'') (\<lambda>v.
       if v = JStr task_id then Inr i else find_task_loop rest task_id (Suc i))"

definition find_task :: "dict \<Rightarrow> string \<Rightarrow> error + nat" where
  "find_task plan task_id =
     thenE (py_iter (dict_get_default plan ''tasks'' (JList []))) (\<lambda>tasks.
       find_task_loop tasks task_id 0)"

text \<open>\<^verbatim>\<open>task["status"] = status\<close> for the task at position \<open>i\<close>: a found task is a dict in a list.\<close>

definition task_at :: "dict \<Rightarrow> nat \<Rightarrow> dict" where
  "task_at plan i =
     (case dict_get plan ''tasks'' of
        JList tasks \<Rightarrow> (case tasks ! i of JObj t \<Rightarrow> t | _ \<Rightarrow> [])
      | _ \<Rightarrow> [])"

definition assign_status :: "dict \<Rightarrow> nat \<Rightarrow> string \<Rightarrow> dict" where
  "assign_status plan i status =
     (case dict_get plan ''tasks'' of
        JList tasks \<Rightarrow>
          dict_set plan ''tasks'' (JList (tasks[i := JObj (dict_set (task_at plan i) ''status'' (JStr status))]))
      | _ \<Rightarrow> plan)"

text \<open>The status \<^verbatim>\<open>_refresh_objective_statuses\<close> gives an objective with these related tasks.\<close>

definition rollup :: "json list \<Rightarrow> string" where
  "rollup statuses =
     (if set statuses \<subseteq> {JStr ''done''} then ''complete''
      else if set statuses \<inter> {JStr ''active'', JStr ''done'', JStr ''failed'', JStr ''blocked''} \<noteq> {}
      then ''in_progress''
      else ''pending'')"

definition related_tasks :: "json list \<Rightarrow> string \<Rightarrow> json list" where
  "related_tasks tasks obj_id = filter (\<lambda>task. py_get task ''objective'' = Inr (JStr obj_id)) tasks"

definition refresh_objective :: "json list \<Rightarrow> json \<Rightarrow> error + json" where
  "refresh_objective tasks obj =
     thenE (py_get obj ''id'') (\<lambda>obj_id.
       case obj_id of
         JStr s \<Rightarrow>
           (let related = related_tasks tasks s in
            if related = [] then Inr obj
            else
              let statuses = map (\<lambda>task. case task of JObj t \<Rightarrow> dict_get t ''status'' | _ \<Rightarrow> JNull) related
              in if \<not> list_all hashable statuses then Inl TypeError
                 else (case obj of
                         JObj d \<Rightarrow> Inr (JObj (dict_set d ''status'' (JStr (rollup statuses))))
                       | _ \<Rightarrow> Inr obj))
       | _ \<Rightarrow> Inr obj)"

fun refresh_loop :: "json list \<Rightarrow> json list \<Rightarrow> error + json list" where
  "refresh_loop tasks [] = Inr []"
| "refresh_loop tasks (obj # rest) =
     thenE (refresh_objective tasks obj) (\<lambda>obj'.
       thenE (refresh_loop tasks rest) (\<lambda>rest'. Inr (obj' # rest')))"

text \<open>
  The objectives assigned to are the elements of the list under \<^verbatim>\<open>"objectives"\<close>; when
  that value is a string or a dict, its elements are strings and \<^verbatim>\<open>obj.get\<close> raises.
\<close>

definition refresh_objective_statuses :: "dict \<Rightarrow> error + dict" where
  "refresh_objective_statuses plan =
     thenE (py_iter (dict_get_default plan ''tasks'' (JList []))) (\<lambda>tasks.
     thenE (checks (map (\<lambda>task. thenE (py_get task ''objective'') (\<lambda>v. Inr ())) tasks)) (\<lambda>u.
     thenE (py_iter (dict_get_default plan ''objectives'' (JList []))) (\<lambda>objectives.
     thenE (refresh_loop tasks objectives) (\<lambda>objectives'.
       if objectives = [] then Inr plan
       else Inr (dict_set plan ''objectives'' (JList objectives'))))))"

definition activate_task :: "dict \<Rightarrow> string \<Rightarrow> int \<Rightarrow> error + dict \<times> dict" where
  "activate_task plan task_id timeout_seconds =
     thenE (find_task plan task_id) (\<lambda>i.
       let plan1 = assign_status plan i ''active'' in
       thenE (refresh_objective_statuses plan1) (\<lambda>plan2.
         let active_task = dict_set (task_at plan2 i) ''timeout_seconds'' (JInt timeout_seconds)
         in Inr (active_task, plan2)))"

definition finalize_task :: "dict \<Rightarrow> string \<Rightarrow> string \<Rightarrow> error + dict" where
  "finalize_task plan task_id status =
     thenE (find_task plan task_id) (\<lambda>i.
       refresh_objective_statuses (assign_status plan i status))"

definition reset_task_for_retry :: "dict \<Rightarrow> string \<Rightarrow> error + dict" where
  "reset_task_for_retry plan task_id =
     thenE (find_task plan task_id) (\<lambda>i.
       refresh_objective_statuses (assign_status plan i ''pending''))"

subsection \<open>The planner's methods that use the store\<close>

definition ensure_plan :: "env \<Rightarrow> StateStore \<Rightarrow> dict io" where
  "ensure_plan E S =
     (\<lambda>w. if \<not> path_exists w (plan_path S)
          then (let plan = [(''version'', JInt 1), (''objectives'', JList []), (''tasks'', JList [])]
                in io_then (write_plan E S (JObj plan)) (io_return plan) w)
          else load_plan E S w)"

text \<open>The dict comprehensions of \<^verbatim>\<open>write_progress\<close>: the (key, value) pairs in order.\<close>

fun status_pairs :: "json list \<Rightarrow> error + (json \<times> json) list" where
  "status_pairs [] = Inr []"
| "status_pairs (x # xs) =
     thenE (py_index x ''id'') (\<lambda>k.
     thenE (py_index x ''status'') (\<lambda>v.
       if \<not> hashable k then Inl TypeError
       else thenE (status_pairs xs) (\<lambda>rest. Inr ((k, v) # rest))))"

definition planner_write_progress :: "env \<Rightarrow> StateStore \<Rightarrow> dict \<Rightarrow> unit io" where
  "planner_write_progress E S plan =
     io_bind (io_lift (thenE (py_iter (dict_get_default plan ''objectives'' (JList []))) status_pairs))
       (\<lambda>objectives.
     io_bind (io_lift (thenE (py_iter (dict_get_default plan ''tasks'' (JList []))) status_pairs))
       (\<lambda>tasks.
     write_progress E S (Progress_Dump objectives tasks)))"

definition SUMMARY_HEADER :: string where
  "SUMMARY_HEADER = ''# Execution Summary'' @ [CHR 0x0A, CHR 0x0A]
                    @ ''(No execution has occurred yet.)'' @ [CHR 0x0A, CHR 0x0A]"

definition append_summary :: "env \<Rightarrow> StateStore \<Rightarrow> string \<Rightarrow> unit io" where
  "append_summary E S entry0 =
     (let entry = (if \<not> endswith entry0 [CHR 0x0A] then entry0 @ [CHR 0x0A] else entry0) in
      (\<lambda>w. if \<not> path_exists w (summary_path S)
           then write_summary E S (Text (SUMMARY_HEADER @ entry)) w
           else io_bind (load_summary S) (\<lambda>existing.
                  if strip (text_of E existing) = []
                  then write_summary E S (Text (SUMMARY_HEADER @ entry))
                  else write_summary E S
                         (Text (rstrip (text_of E existing) @ [CHR 0x0A, CHR 0x0A] @ entry))) w))"

section \<open>mcp_client.py\<close>

text \<open>
  What the agent subprocess does is outside the program: a run of the loop is given the
  outcome of each call of \<^verbatim>\<open>run_task\<close>, in order. \<open>Agent_result payload stderr\<close> is a line
  that parsed as a JSON object; the other outcomes are the exceptions of the client.
  Two of them are not exceptions of its own: \<open>Agent_value_error\<close> is the \<^verbatim>\<open>ValueError\<close> of
  \<^verbatim>\<open>shlex.split\<close> or \<^verbatim>\<open>Popen\<close> in \<^verbatim>\<open>_start_process\<close> (a quotation left open, a null
  character), \<open>Agent_os_error\<close> the \<^verbatim>\<open>OSError\<close> of a write to a process that has gone.
\<close>

datatype agent_reply =
    Agent_timeout
  | Agent_process_error
  | Agent_protocol_error
  | Agent_value_error
  | Agent_os_error
  | Agent_result dict string

text \<open>
  \<^verbatim>\<open>MCPClient(command, ...).run_task(payload)\<close>. The constructor refuses a blank command
  and \<^verbatim>\<open>_ensure_started\<close> a negative startup timeout; \<^verbatim>\<open>MCPTimeoutError\<close> is passed on as
  \<open>None\<close>, for the loop to turn into \<^verbatim>\<open>StopExecution\<close>.
\<close>

definition run_task :: "Config \<Rightarrow> agent_reply \<Rightarrow> error + (dict \<times> string) option" where
  "run_task config reply =
     (if strip (mcp_command config) = [] then Inl MCPProcessError
      else case reply of
             Agent_process_error \<Rightarrow> Inl MCPProcessError
           | Agent_value_error \<Rightarrow> Inl ValueError
           | Agent_os_error \<Rightarrow>
               if startup_timeout_seconds config < 0 then Inl MCPProcessError else Inl OSError
           | Agent_timeout \<Rightarrow>
               if startup_timeout_seconds config < 0 then Inl MCPProcessError else Inr None
           | Agent_protocol_error \<Rightarrow>
               if startup_timeout_seconds config < 0 then Inl MCPProcessError else Inl MCPProtocolError
           | Agent_result payload stderr \<Rightarrow>
               if startup_timeout_seconds config < 0 then Inl MCPProcessError
               else Inr (Some (payload, stderr)))"

section \<open>daemon.py\<close>

definition summary_entry :: "env \<Rightarrow> string \<Rightarrow> string \<Rightarrow> dict \<Rightarrow> error + string" where
  "summary_entry E task_id status payload =
     thenE (py_len (dict_get_default payload ''files_changed'' (JList []))) (\<lambda>n_files.
     thenE (py_len (dict_get_default payload ''tests_run'' (JList []))) (\<lambda>n_tests.
       Inr (join [CHR 0x0A]
              [''Task '' @ task_id @ '': '' @ status,
               ''Files changed: '' @ decimal n_files,
               ''Tests run: '' @ decimal n_tests,
               ''Notes: '' @ py_str E (dict_get_default payload ''notes'' (JStr []))])))"

definition daemon_append_summary :: "env \<Rightarrow> StateStore \<Rightarrow> string \<Rightarrow> string \<Rightarrow> dict \<Rightarrow> unit io" where
  "daemon_append_summary E S task_id status payload =
     io_bind (io_lift (summary_entry E task_id status payload)) (append_summary E S)"

text \<open>The retry tracker \<^verbatim>\<open>main\<close> builds from the configuration (lines 43 to 53).\<close>

definition main_retry_tracker :: "Config \<Rightarrow> RetryTracker" where
  "main_retry_tracker config =
     (let max_retries = min (Config.max_retries_per_task config) 1
      in \<lparr>RetryTracker.max_retries_per_task = max_retries,
          RetryTracker.max_consecutive_failures = Config.max_consecutive_failures config,
          attempts = Map.empty,
          consecutive_failures = 0\<rparr>)"

definition update_tracker :: "(RetryTracker \<Rightarrow> RetryTracker) \<Rightarrow> unit io" where
  "update_tracker f = (\<lambda>w. (Inr (), w\<lparr>retry_tracker := f (retry_tracker w)\<rparr>))"

text \<open>
  One pass through the body of \<^verbatim>\<open>while True\<close> in \<^verbatim>\<open>_run_loop\<close>, in three parts.
  Lines 76 to 88: up to the write of the Active Task file; \<open>None\<close> is the \<^verbatim>\<open>return\<close>
  when no task is pending. The task's id is a string once \<open>select_next_task\<close> has returned it.
\<close>

definition task_id_of :: "json \<Rightarrow> string" where
  "task_id_of task = (case task of
                        JObj t \<Rightarrow> (case dict_get t ''id'' of JStr s \<Rightarrow> s | _ \<Rightarrow> [])
                      | _ \<Rightarrow> [])"

definition begin_iteration :: "env \<Rightarrow> StateStore \<Rightarrow> Config \<Rightarrow> (dict \<times> string \<times> dict) option io" where
  "begin_iteration E S config =
     (\<lambda>w. if path_exists w (active_task_path S)
          then (Inl (StopExecution ''ACTIVE_TASK.yaml exists; manual intervention required.''), w)
          else
            io_bind (ensure_plan E S) (\<lambda>plan.
            io_bind (io_lift (select_next_task plan)) (\<lambda>selected.
              case selected of
                None \<Rightarrow> io_return None
              | Some task \<Rightarrow>
                  io_bind (io_lift (activate_task plan (task_id_of task) (task_timeout_seconds config)))
                    (\<lambda>(active_task, plan').
                  io_then (write_plan E S (JObj plan'))
                 (io_then (planner_write_progress E S plan')
                 (io_then (write_active_task E S (JObj active_task))
                          (io_return (Some (plan', task_id_of task, active_task)))))))) w)"

text \<open>
  Lines 107 to 112: the policy check on the changes the agent reports. The project root is
  the argument \<^verbatim>\<open>project_root\<close> of \<^verbatim>\<open>_run_loop\<close>, not the attribute of the store.
\<close>

definition policy_check :: "env \<Rightarrow> StateStore \<Rightarrow> path \<Rightarrow> dict \<Rightarrow> error + unit" where
  "policy_check E S project_root_arg payload =
     thenE (py_iter (dict_get_default payload ''files_changed'' (JList [])))
       (\<lambda>files_changed. assert_no_forbidden_changes E files_changed
                           project_root_arg (StateStore.design_dir S) (ai_dir S))"

text \<open>Lines 90 to 112: the call of the agent, up to the policy check.\<close>

definition receive_result ::
  "env \<Rightarrow> StateStore \<Rightarrow> Config \<Rightarrow> path \<Rightarrow> agent_reply \<Rightarrow> dict io" where
  "receive_result E S config project_root_arg reply =
     io_bind (io_lift (run_task config reply)) (\<lambda>result.
       case result of
         None \<Rightarrow> io_raise (StopExecution ''Timed out waiting for MCP response.'')
       | Some (payload, stderr) \<Rightarrow>
           io_then (clear_active_task E S)
          (io_then (write_last_result E S (JObj payload))
          (io_then (io_lift (policy_check E S project_root_arg payload))
                   (io_return payload))))"

text \<open>Lines 114 to 146: the branch on the status. It returns for \<^verbatim>\<open>continue\<close>.\<close>

definition handle_status :: "env \<Rightarrow> StateStore \<Rightarrow> dict \<Rightarrow> string \<Rightarrow> dict \<Rightarrow> unit io" where
  "handle_status E S plan task_id payload =
     (let status = dict_get payload ''status'' in
      if status = JStr ''success'' then
        io_bind (io_lift (finalize_task plan task_id ''done'')) (\<lambda>plan'.
        io_then (update_tracker (\<lambda>t. record_success t task_id))
       (io_then (daemon_append_summary E S task_id ''success'' payload)
       (io_then (write_plan E S (JObj plan'))
                (planner_write_progress E S plan'))))
      else if status = JStr ''blocked'' then
        io_bind (io_lift (finalize_task plan task_id ''blocked'')) (\<lambda>plan'.
        io_then (write_plan E S (JObj plan'))
       (io_then (planner_write_progress E S plan')
       (io_then (daemon_append_summary E S task_id ''blocked'' payload)
                (io_raise (StopExecution ''Codex reported blocked.'')))))
      else if status = JStr ''failed'' then
        io_then (update_tracker (\<lambda>t. record_failure t task_id))
          (\<lambda>w. if too_many_consecutive_failures (retry_tracker w)
               then (Inl (StopExecution ''Max consecutive failures reached.''), w)
               else if can_retry (retry_tracker w) task_id
               then io_bind (io_lift (reset_task_for_retry plan task_id)) (\<lambda>plan'.
                    io_then (write_plan E S (JObj plan'))
                   (io_then (planner_write_progress E S plan')
                            (daemon_append_summary E S task_id ''failed'' payload))) w
               else io_bind (io_lift (finalize_task plan task_id ''failed'')) (\<lambda>plan'.
                    io_then (write_plan E S (JObj plan'))
                   (io_then (planner_write_progress E S plan')
                   (io_then (daemon_append_summary E S task_id ''failed'' payload)
                            (io_raise (StopExecution ''Task failed more than once.''))))) w)
      else io_raise (StopExecution_unexpected_status status))"

text \<open>
  \<^verbatim>\<open>_run_loop\<close>, with the agent's replies for the iterations to come. The result is how
  the loop ended, \<open>Inr ()\<close> for its \<^verbatim>\<open>return\<close>, and the world it left; \<open>None\<close> when the
  replies given run out before the loop ends.
\<close>

fun run_loop ::
  "env \<Rightarrow> StateStore \<Rightarrow> Config \<Rightarrow> path \<Rightarrow> agent_reply list \<Rightarrow> world \<Rightarrow>
   ((error + unit) \<times> world) option" where
  "run_loop E S config project_root_arg replies w =
     (case begin_iteration E S config w of
        (Inl e, w1) \<Rightarrow> Some (Inl e, w1)
      | (Inr None, w1) \<Rightarrow> Some (Inr (), w1)
      | (Inr (Some (plan, task_id, active_task)), w1) \<Rightarrow>
          (case replies of
             [] \<Rightarrow> None
           | reply # rest \<Rightarrow>
               (case io_bind (receive_result E S config project_root_arg reply)
                             (handle_status E S plan task_id) w1 of
                  (Inl e, w2) \<Rightarrow> Some (Inl e, w2)
                | (Inr u, w2) \<Rightarrow> run_loop E S config project_root_arg rest w2)))"

declare run_loop.simps [simp del]

section \<open>The data model of the specification\<close>

text \<open>
  The shapes of section 3 of the specification, with the rules of its section 4.2:
  required keys, no unexpected keys, the type of each field, the closed sets of statuses,
  lists of strings.
\<close>

definition is_string :: "json \<Rightarrow> bool" where
  "is_string v = (case v of JStr s \<Rightarrow> True | _ \<Rightarrow> False)"

definition is_int :: "json \<Rightarrow> bool" where
  "is_int v = (case v of JInt i \<Rightarrow> True | _ \<Rightarrow> False)"

definition is_string_list :: "json \<Rightarrow> bool" where
  "is_string_list v = (case v of JList xs \<Rightarrow> list_all is_string xs | _ \<Rightarrow> False)"

definition is_one_of :: "string list \<Rightarrow> json \<Rightarrow> bool" where
  "is_one_of allowed v = (case v of JStr s \<Rightarrow> s \<in> set allowed | _ \<Rightarrow> False)"

definition has_keys :: "dict \<Rightarrow> string list \<Rightarrow> string list \<Rightarrow> bool" where
  "has_keys d required optional =
     (set required \<subseteq> set (map fst d) \<and> set (map fst d) \<subseteq> set required \<union> set optional)"

definition optional_ok :: "dict \<Rightarrow> string \<Rightarrow> (json \<Rightarrow> bool) \<Rightarrow> bool" where
  "optional_ok d k P = (case map_of d k of None \<Rightarrow> True | Some v \<Rightarrow> P v)"

definition schema_objective :: "json \<Rightarrow> bool" where
  "schema_objective v =
     (case v of
        JObj d \<Rightarrow> has_keys d [''id'', ''source'', ''status''] []
                  \<and> is_string (dict_get d ''id'') \<and> is_string (dict_get d ''source'')
                  \<and> is_one_of [''pending'', ''in_progress'', ''complete''] (dict_get d ''status'')
      | _ \<Rightarrow> False)"

definition schema_task_fields :: "dict \<Rightarrow> bool" where
  "schema_task_fields d =
     (is_string (dict_get d ''id'') \<and> is_string (dict_get d ''objective'')
      \<and> is_string (dict_get d ''derived_from'')
      \<and> is_one_of [''pending'', ''active'', ''done'', ''failed'', ''blocked''] (dict_get d ''status'')
      \<and> optional_ok d ''depends_on'' is_string_list
      \<and> optional_ok d ''scope'' is_string_list
      \<and> optional_ok d ''success_criteria'' is_string_list)"

definition schema_task :: "json \<Rightarrow> bool" where
  "schema_task v =
     (case v of
        JObj d \<Rightarrow> has_keys d [''id'', ''objective'', ''derived_from'', ''status'']
                             [''depends_on'', ''scope'', ''success_criteria'']
                  \<and> schema_task_fields d
      | _ \<Rightarrow> False)"

definition schema_active_task :: "json \<Rightarrow> bool" where
  "schema_active_task v =
     (case v of
        JObj d \<Rightarrow> has_keys d [''id'', ''objective'', ''derived_from'', ''status'', ''timeout_seconds'']
                             [''depends_on'', ''scope'', ''success_criteria'']
                  \<and> schema_task_fields d \<and> is_int (dict_get d ''timeout_seconds'')
      | _ \<Rightarrow> False)"

definition schema_plan :: "json \<Rightarrow> bool" where
  "schema_plan v =
     (case v of
        JObj d \<Rightarrow> has_keys d [''version'', ''objectives'', ''tasks''] []
                  \<and> is_int (dict_get d ''version'')
                  \<and> (case dict_get d ''objectives'' of JList os \<Rightarrow> list_all schema_objective os | _ \<Rightarrow> False)
                  \<and> (case dict_get d ''tasks'' of JList ts \<Rightarrow> list_all schema_task ts | _ \<Rightarrow> False)
      | _ \<Rightarrow> False)"

definition schema_agent_result :: "json \<Rightarrow> bool" where
  "schema_agent_result v =
     (case v of
        JObj d \<Rightarrow> has_keys d [''status'', ''files_changed'', ''tests_run'', ''notes''] []
                  \<and> is_one_of [''success'', ''failed'', ''blocked''] (dict_get d ''status'')
                  \<and> is_string_list (dict_get d ''files_changed'')
                  \<and> is_string_list (dict_get d ''tests_run'')
                  \<and> is_string (dict_get d ''notes'')
      | _ \<Rightarrow> False)"

section \<open>Reading a plan\<close>

definition json_field :: "json \<Rightarrow> string \<Rightarrow> json" where
  "json_field x k = (case x of JObj d \<Rightarrow> dict_get d k | _ \<Rightarrow> JNull)"

definition plan_tasks :: "dict \<Rightarrow> json list" where
  "plan_tasks plan = (case dict_get plan ''tasks'' of JList ts \<Rightarrow> ts | _ \<Rightarrow> [])"

definition plan_objectives :: "dict \<Rightarrow> json list" where
  "plan_objectives plan = (case dict_get plan ''objectives'' of JList os \<Rightarrow> os | _ \<Rightarrow> [])"

text \<open>The status of the task with this id, in a plan and in the plan that PLAN.yaml holds.\<close>

definition status_in_plan :: "dict \<Rightarrow> string \<Rightarrow> json option" where
  "status_in_plan plan task_id =
     map_option (\<lambda>t. json_field t ''status'')
       (find (\<lambda>t. json_field t ''id'' = JStr task_id) (plan_tasks plan))"

definition persisted_plan :: "StateStore \<Rightarrow> world \<Rightarrow> dict option" where
  "persisted_plan S w =
     (case fs w (plan_path S) of
        Some (File (Json_Dump (JObj plan))) \<Rightarrow> Some plan
      | _ \<Rightarrow> None)"

definition persisted_status :: "StateStore \<Rightarrow> world \<Rightarrow> string \<Rightarrow> json option" where
  "persisted_status S w task_id =
     (case persisted_plan S w of None \<Rightarrow> None | Some plan \<Rightarrow> status_in_plan plan task_id)"

text \<open>
  The plans the task ids of which are unique and not empty, as \<^verbatim>\<open>_task_map\<close> demands.
\<close>

definition unique_task_ids :: "dict \<Rightarrow> bool" where
  "unique_task_ids plan =
     (distinct (map (\<lambda>t. json_field t ''id'') (plan_tasks plan))
      \<and> JStr [] \<notin> set (map (\<lambda>t. json_field t ''id'') (plan_tasks plan)))"

subsection \<open>Task selection, in the words of the specification\<close>

definition task_deps :: "json \<Rightarrow> json list" where
  "task_deps t = (case json_field t ''depends_on'' of JList ds \<Rightarrow> ds | _ \<Rightarrow> [])"

definition names_task :: "json list \<Rightarrow> json \<Rightarrow> bool" where
  "names_task tasks dep = list_ex (\<lambda>t. json_field t ''id'' = dep) tasks"

definition names_done_task :: "json list \<Rightarrow> json \<Rightarrow> bool" where
  "names_done_task tasks dep =
     list_ex (\<lambda>t. json_field t ''id'' = dep \<and> json_field t ''status'' = JStr ''done'') tasks"

text \<open>The first dependency of a task, in the order of its list, that is not a done task.\<close>

definition first_unmet :: "json list \<Rightarrow> json \<Rightarrow> json option" where
  "first_unmet tasks t = find (\<lambda>dep. \<not> names_done_task tasks dep) (task_deps t)"

definition eligible :: "json list \<Rightarrow> json \<Rightarrow> bool" where
  "eligible tasks t =
     (json_field t ''status'' = JStr ''pending'' \<and> list_all (names_done_task tasks) (task_deps t))"

definition skipped :: "json list \<Rightarrow> json \<Rightarrow> bool" where
  "skipped tasks t =
     (if json_field t ''status'' = JStr ''pending''
      then (case first_unmet tasks t of None \<Rightarrow> False | Some dep \<Rightarrow> names_task tasks dep)
      else json_field t ''status'' \<noteq> JStr ''active'')"

definition dangling :: "json list \<Rightarrow> json \<Rightarrow> string \<Rightarrow> bool" where
  "dangling tasks t s =
     (json_field t ''status'' = JStr ''pending'' \<and> first_unmet tasks t = Some (JStr s)
      \<and> \<not> names_task tasks (JStr s))"

subsection \<open>The rollup of objectives, in the words of the specification\<close>

definition related :: "json list \<Rightarrow> json \<Rightarrow> json list" where
  "related tasks obj = filter (\<lambda>t. json_field t ''objective'' = json_field obj ''id'') tasks"

definition rollup_status :: "json list \<Rightarrow> json" where
  "rollup_status rel =
     (if list_all (\<lambda>t. json_field t ''status'' = JStr ''done'') rel then JStr ''complete''
      else if list_ex (\<lambda>t. json_field t ''status'' \<in>
                 {JStr ''active'', JStr ''done'', JStr ''failed'', JStr ''blocked''}) rel
      then JStr ''in_progress''
      else JStr ''pending'')"

text \<open>
  An objective before and after a mutation, given the tasks after it: the same objective,
  unchanged when no task is related to it, and with the rolled-up status otherwise.
\<close>

definition objective_rolled_up :: "json list \<Rightarrow> json \<Rightarrow> json \<Rightarrow> bool" where
  "objective_rolled_up tasks obj obj' =
     (json_field obj' ''id'' = json_field obj ''id'' \<and>
      (if related tasks obj' = [] then obj' = obj
       else json_field obj' ''status'' = rollup_status (related tasks obj')))"

definition objectives_rolled_up :: "dict \<Rightarrow> dict \<Rightarrow> bool" where
  "objectives_rolled_up before after =
     list_all2 (objective_rolled_up (plan_tasks after)) (plan_objectives before) (plan_objectives after)"

subsection \<open>Shapes used in the proofs\<close>

definition is_dict :: "json \<Rightarrow> bool" where
  "is_dict x = (case x of JObj d \<Rightarrow> True | _ \<Rightarrow> False)"

definition has_string_id :: "json \<Rightarrow> bool" where
  "has_string_id obj = (\<exists>d s. obj = JObj d \<and> dict_get d ''id'' = JStr s)"

text \<open>An operation that leaves the watchdog and every file outside \<open>P\<close> as they are.\<close>

definition frame :: "path set \<Rightarrow> 'a io \<Rightarrow> bool" where
  "frame P m = (\<forall>w. retry_tracker (snd (m w)) = retry_tracker w
                    \<and> (\<forall>q. q \<notin> P \<longrightarrow> fs (snd (m w)) q = fs w q))"

text \<open>
  The errors of the state store, the planner and Python, as opposed to those the loop,
  the policy check and the agent client raise; and what a computation may raise.
\<close>

definition internal_error :: "error \<Rightarrow> bool" where
  "internal_error e =
     (case e of
        StopExecution m \<Rightarrow> False
      | StopExecution_unexpected_status s \<Rightarrow> False
      | PolicyViolation m \<Rightarrow> False
      | MCPProcessError \<Rightarrow> False
      | MCPProtocolError \<Rightarrow> False
      | _ \<Rightarrow> True)"

definition fails_with :: "(error \<Rightarrow> bool) \<Rightarrow> error + 'a \<Rightarrow> bool" where
  "fails_with Q r = (\<forall>e. r = Inl e \<longrightarrow> Q e)"

definition raises :: "(error \<Rightarrow> bool) \<Rightarrow> 'a io \<Rightarrow> bool" where
  "raises Q m = (\<forall>w e w'. m w = (Inl e, w') \<longrightarrow> Q e)"

definition well_keyed :: "json \<Rightarrow> bool" where
  "well_keyed t = (\<exists>d s. t = JObj d \<and> dict_get d ''id'' = JStr s \<and> s \<noteq> [])"

section \<open>A project for the examples\<close>

text \<open>
  An environment without symbolic links, in which the paths of the examples are already
  in canonical form: \<^verbatim>\<open>Path.resolve\<close> returns its argument, except that it raises on a
  path with a null character.
\<close>

definition ex_env :: env where
  "ex_env = \<lparr>resolve = (\<lambda>p. if list_ex (\<lambda>s. CHR 0x00 \<in> set s) (parts p)
                                then Inl Null_character else Inr p),
             json_loads = (\<lambda>c. None), dump_text = (\<lambda>c. []), py_repr = (\<lambda>j. [])\<rparr>"

definition ex_root :: path where
  "ex_root = Path ''/'' [''proj'']"

text \<open>What an entry of \<^verbatim>\<open>files_changed\<close> stands for in the example project.\<close>

definition ex_candidate :: "string \<Rightarrow> path" where
  "ex_candidate s = (if is_absolute (Path_of s) then Path_of s else joinpath ex_root (Path_of s))"

definition ex_store :: StateStore where
  "ex_store =
     \<lparr>project_root = ex_root,
      ai_dir = Path ''/'' [''proj'', ''ai''],
      design_dir = Path ''/'' [''proj'', ''design''],
      config_path = Path ''/'' [''proj'', ''ai'', ''config.json''],
      strict_schema_validation = True,
      json_subset_only = True,
      read_only_paths = [Path ''/'' [''proj'', ''ai'', ''config.json''],
                         Path ''/'' [''proj'', ''ai'', ''GOALS.md''],
                         Path ''/'' [''proj'', ''ai'', ''SOURCES.yaml'']],
      writable_paths = [Path ''/'' [''proj'', ''ai'', ''PLAN.yaml''],
                        Path ''/'' [''proj'', ''ai'', ''ACTIVE_TASK.yaml''],
                        Path ''/'' [''proj'', ''ai'', ''SUMMARY.md''],
                        Path ''/'' [''proj'', ''ai'', ''LAST_RESULT.json''],
                        Path ''/'' [''proj'', ''ai'', ''PROGRESS.yaml'']],
      design_resolved = Path ''/'' [''proj'', ''design'']\<rparr>"

definition ex_config :: "int \<Rightarrow> int \<Rightarrow> Config" where
  "ex_config retries ceiling =
     \<lparr>mcp_command = ''agent'', startup_timeout_seconds = 0, task_timeout_seconds = 60,
      max_retries_per_task = retries, max_consecutive_failures = ceiling,
      one_task_at_a_time = True, design_dir = ''design'', state_dir = ''ai'',
      strict_schema_validation = True, json_subset_only = True,
      log_level = ''info'', log_file = ''shepherd.log''\<rparr>"

definition ex_task :: "string \<Rightarrow> string \<Rightarrow> json list \<Rightarrow> json" where
  "ex_task task_id status deps =
     JObj [(''id'', JStr task_id), (''objective'', JStr ''o1''), (''derived_from'', JStr ''d''),
           (''status'', JStr status), (''depends_on'', JList deps)]"

definition ex_plan :: "string \<Rightarrow> json list \<Rightarrow> dict" where
  "ex_plan objective_status tasks =
     [(''version'', JInt 1),
      (''objectives'', JList [JObj [(''id'', JStr ''o1''), (''source'', JStr ''s''),
                                    (''status'', JStr objective_status)]]),
      (''tasks'', JList tasks)]"

definition ex_world :: "Config \<Rightarrow> dict \<Rightarrow> world" where
  "ex_world config plan =
     \<lparr>fs = map_of [(ex_root, Dir),
                   (Path ''/'' [''proj'', ''ai''], Dir),
                   (Path ''/'' [''proj'', ''design''], Dir),
                   (Path ''/'' [''proj'', ''ai'', ''PLAN.yaml''], File (Json_Dump (JObj plan)))],
      retry_tracker = main_retry_tracker config\<rparr>"

definition ex_payload :: "string \<Rightarrow> string list \<Rightarrow> dict" where
  "ex_payload status changed =
     [(''status'', JStr status), (''files_changed'', JList (map JStr changed)),
      (''tests_run'', JList []), (''notes'', JStr ''n'')]"

definition ex_reply :: "string \<Rightarrow> string list \<Rightarrow> agent_reply" where
  "ex_reply status changed = Agent_result (ex_payload status changed) []"

definition ex_active :: "string \<Rightarrow> dict" where
  "ex_active task_id =
     [(''id'', JStr task_id), (''objective'', JStr ''o1''), (''derived_from'', JStr ''d''),
      (''status'', JStr ''active''), (''depends_on'', JList []), (''timeout_seconds'', JInt 60)]"

text \<open>
  The worlds an example run goes through: after the first part of an iteration, after the
  agent's reply has been received, and after the branch on its status.
\<close>

definition ex_begun :: "Config \<Rightarrow> world \<Rightarrow> world" where
  "ex_begun config w = snd (begin_iteration ex_env ex_store config w)"

definition ex_received :: "Config \<Rightarrow> agent_reply \<Rightarrow> world \<Rightarrow> world" where
  "ex_received config reply w =
     snd (receive_result ex_env ex_store config ex_root reply (ex_begun config w))"

definition ex_handled :: "dict \<Rightarrow> string \<Rightarrow> dict \<Rightarrow> world \<Rightarrow> world" where
  "ex_handled plan task_id payload w = snd (handle_status ex_env ex_store plan task_id payload w)"

text \<open>What a finished run leaves: how the loop ended, and a task's status in PLAN.yaml.\<close>

definition run_outcome :: "((error + unit) \<times> world) option \<Rightarrow> (error + unit) option" where
  "run_outcome run = map_option fst run"

definition final_status ::
  "StateStore \<Rightarrow> string \<Rightarrow> ((error + unit) \<times> world) option \<Rightarrow> json option" where
  "final_status S task_id run =
     (case run of None \<Rightarrow> None | Some (r, w) \<Rightarrow> persisted_status S w task_id)"

section \<open>Proofs\<close>

lemma io_return_apply [simp]: "io_return x w = (Inr x, w)" by (simp add: io_return_def)
lemma io_raise_apply [simp]: "io_raise e w = (Inl e, w)" by (simp add: io_raise_def)
lemma io_lift_apply [simp]: "io_lift r w = (r, w)" by (simp add: io_lift_def)
lemma io_bind_apply: "io_bind m f w = (case m w of (Inl e, w') \<Rightarrow> (Inl e, w') | (Inr x, w') \<Rightarrow> f x w')"
  by (simp add: io_bind_def)
lemma io_then_apply: "io_then m k w = (case m w of (Inl e, w') \<Rightarrow> (Inl e, w') | (Inr x, w') \<Rightarrow> k w')"
  by (simp add: io_then_def io_bind_def)
lemma io_bind_Inl [simp]: "m w = (Inl e, w') \<Longrightarrow> io_bind m f w = (Inl e, w')"
  by (simp add: io_bind_def)
lemma io_bind_Inr [simp]: "m w = (Inr x, w') \<Longrightarrow> io_bind m f w = f x w'"
  by (simp add: io_bind_def)
lemma io_then_Inl [simp]: "m w = (Inl e, w') \<Longrightarrow> io_then m k w = (Inl e, w')"
  by (simp add: io_then_def)
lemma io_then_Inr [simp]: "m w = (Inr x, w') \<Longrightarrow> io_then m k w = k w'"
  by (simp add: io_then_def)
lemma thenE_Inl [simp]: "thenE (Inl e) f = Inl e" by (simp add: thenE_def)
lemma thenE_Inr [simp]: "thenE (Inr x) f = f x" by (simp add: thenE_def)

lemma Path_resolve_Inl:
  "Path_resolve E p = Inl e \<longleftrightarrow> (\<exists>c. resolve E p = Inl c \<and> e = resolve_exception c)"
  by (auto simp: Path_resolve_def split: sum.splits)

lemma Path_resolve_errors:
  "Path_resolve E p = Inl e \<Longrightarrow> e \<in> {ValueError, UnicodeEncodeError, RuntimeError, OSError}"
proof -
  assume "Path_resolve E p = Inl e"
  then obtain c where "e = resolve_exception c" unfolding Path_resolve_Inl by blast
  then show ?thesis by (cases c) simp_all
qed

lemma ensure_writable_path_read_only:
  "is_read_only_path E S p = Inr True \<Longrightarrow> ensure_writable_path E S p = Inl ReadOnlyStateError"
  by (cases "Path_resolve E p")
     (auto simp: is_read_only_path_def ensure_writable_path_def split: if_splits)

lemma ensure_writable_path_unknown:
  "is_read_only_path E S p = Inr False \<Longrightarrow> is_writable_path E S p = Inr False \<Longrightarrow>
   ensure_writable_path E S p = Inl StateError"
  by (cases "Path_resolve E p")
     (auto simp: is_read_only_path_def is_writable_path_def ensure_writable_path_def split: if_splits)

lemma ensure_writable_path_unresolved:
  "Path_resolve E p = Inl e \<Longrightarrow> ensure_writable_path E S p = Inl e"
  by (simp add: ensure_writable_path_def)

lemma thenE_InrD: "thenE r f = Inr y \<Longrightarrow> \<exists>x. r = Inr x \<and> f x = Inr y"
  by (cases r) simp_all

text \<open>
  A store that \<open>StateStore_init\<close> has built: the config, goals and sources files are
  read-only, the five state files writable, and \<open>design_resolved\<close> is the resolution of the
  design directory.
\<close>

lemma StateStore_init_paths:
  assumes "StateStore_init E w project_root_arg state_dir_arg design_dir_arg config_path_arg
             strict subset_only = Inr S"
  shows "is_read_only_path E S (config_path S) = Inr True"
    and "is_read_only_path E S (goals_path S) = Inr True"
    and "is_read_only_path E S (sources_path S) = Inr True"
    and "is_writable_path E S (plan_path S) = Inr True"
    and "is_writable_path E S (active_task_path S) = Inr True"
    and "is_writable_path E S (summary_path S) = Inr True"
    and "is_writable_path E S (last_result_path S) = Inr True"
    and "is_writable_path E S (progress_path S) = Inr True"
    and "Path_resolve E (StateStore.design_dir S) = Inr (design_resolved S)"
  using assms
  unfolding StateStore_init_def Let_def
  by (auto dest!: thenE_InrD split: if_splits
        simp: is_read_only_path_def is_writable_path_def goals_path_def sources_path_def plan_path_def
          active_task_path_def summary_path_def last_result_path_def progress_path_def)

text \<open>
  Claim C6. A write through the store's write primitives to a read-only path (the resolved
  path is the config, goals or sources file, or lies under the design directory) fails
  with \<open>ReadOnlyStateError\<close>, and a write to a path that is neither read-only nor one of
  the known writable paths fails with \<open>StateError\<close>; in both cases the check comes before
  any byte is written, so the world, and with it every file, is what it was. The same
  holds when the path cannot be resolved at all: the exception of \<^verbatim>\<open>Path.resolve\<close> leaves
  the primitive before any byte is written.
\<close>

theorem refused_write_leaves_world:
  "(is_read_only_path E S p = Inr True \<longrightarrow>
      atomic_write_text E S p text w = (Inl ReadOnlyStateError, w) \<and>
      atomic_write_json E S p (JObj d) w = (Inl ReadOnlyStateError, w)) \<and>
   (is_read_only_path E S p = Inr False \<and> is_writable_path E S p = Inr False \<longrightarrow>
      atomic_write_text E S p text w = (Inl StateError, w) \<and>
      atomic_write_json E S p (JObj d) w = (Inl StateError, w)) \<and>
   (Path_resolve E p = Inl e \<longrightarrow>
      atomic_write_text E S p text w = (Inl e, w) \<and>
      atomic_write_json E S p (JObj d) w = (Inl e, w))"
  by (simp add: atomic_write_text_def atomic_write_json_def
        ensure_writable_path_read_only ensure_writable_path_unknown ensure_writable_path_unresolved)

lemma checks_Inr_iff: "checks cs = Inr () \<longleftrightarrow> (\<forall>c \<in> set cs. c = Inr ())"
  by (induction cs) (auto split: sum.splits)

lemma checks_only: "(\<forall>c \<in> set cs. c = Inr () \<or> c = Inl e) \<Longrightarrow> checks cs = Inr () \<or> checks cs = Inl e"
  by (induction cs) (auto split: sum.splits)

lemma checks_eq: "(\<forall>c \<in> set cs. c = Inr () \<or> c = Inl e) \<Longrightarrow>
   checks cs = (if \<forall>c \<in> set cs. c = Inr () then Inr () else Inl e)"
  using checks_only[of cs e] checks_Inr_iff[of cs] by auto

lemma require_string_eq: "require_string v = (if is_string v then Inr () else Inl StateValidationError)"
  by (simp add: require_string_def is_string_def split: json.splits)

lemma require_int_eq: "require_int v = (if is_int v then Inr () else Inl StateValidationError)"
  by (simp add: require_int_def is_int_def split: json.splits)

lemma require_string_list_eq:
  "require_string_list v = (if is_string_list v then Inr () else Inl StateValidationError)"
proof (cases v)
  case (JList xs)
  have "checks (map require_string xs) = (if list_all is_string xs then Inr () else Inl StateValidationError)"
    by (subst checks_eq[where e = StateValidationError])
       (auto simp: require_string_eq list_all_iff)
  then show ?thesis using JList
    by (simp add: require_string_list_def is_string_list_def require_list_def)
qed (simp_all add: require_string_list_def is_string_list_def require_list_def)

lemma require_enum_eq:
  "require_enum v allowed = (if is_one_of allowed v then Inr () else Inl StateValidationError)"
  by (cases v) (simp_all add: require_enum_def is_one_of_def require_string_def)

lemma require_keys_eq:
  "require_keys d required = (if set required \<subseteq> set (map fst d) then Inr () else Inl StateValidationError)"
  by (auto simp: require_keys_def dict_has_def filter_empty_conv map_of_eq_None_iff Let_def)

lemma reject_extra_keys_eq:
  "reject_extra_keys d allowed = (if set (map fst d) \<subseteq> set allowed then Inr () else Inl StateValidationError)"
  by (auto simp: reject_extra_keys_def filter_empty_conv Let_def)

lemmas require_eqs = require_string_eq require_int_eq require_string_list_eq require_enum_eq
  require_keys_eq reject_extra_keys_eq

lemma validate_objective_eq:
  "validate_objective v = (if schema_objective v then Inr () else Inl StateValidationError)"
  by (cases v)
     (auto simp: validate_objective_def schema_objective_def require_mapping_def require_eqs
        has_keys_def OBJECTIVE_STATUSES_def)

lemma optional_string_lists_eq:
  "checks (optional_string_lists d) =
     (if optional_ok d ''depends_on'' is_string_list \<and> optional_ok d ''scope'' is_string_list
         \<and> optional_ok d ''success_criteria'' is_string_list then Inr () else Inl StateValidationError)"
  by (auto simp: optional_string_lists_def optional_ok_def dict_has_def dict_get_def
        dict_get_default_def require_eqs split: option.splits)

lemma checks_append: "checks (xs @ ys) = (case checks xs of Inl e \<Rightarrow> Inl e | Inr u \<Rightarrow> checks ys)"
  by (induction xs) (auto split: sum.splits)

lemma validate_task_eq:
  "validate_task v = (if schema_task v then Inr () else Inl StateValidationError)"
  by (cases v)
     (auto simp: validate_task_def schema_task_def schema_task_fields_def require_mapping_def
        require_eqs has_keys_def TASK_STATUSES_def Let_def checks_append optional_string_lists_eq
        simp del: append.simps split: sum.splits)

lemma validate_active_task_eq:
  "validate_active_task v = (if schema_active_task v then Inr () else Inl StateValidationError)"
  by (cases v)
     (auto simp: validate_active_task_def schema_active_task_def schema_task_fields_def require_mapping_def
        require_eqs has_keys_def TASK_STATUSES_def Let_def checks_append optional_string_lists_eq
        simp del: append.simps split: sum.splits)

lemma validate_codex_result_eq:
  "validate_codex_result v = (if schema_agent_result v then Inr () else Inl StateValidationError)"
  by (cases v)
     (auto simp: validate_codex_result_def schema_agent_result_def require_mapping_def
        require_eqs has_keys_def CODEX_RESULT_STATUSES_def)

lemma checks_map_eq:
  "(\<And>x. f x = (if P x then Inr () else Inl e)) \<Longrightarrow>
   checks (map f xs) = (if list_all P xs then Inr () else Inl e)"
  by (induction xs) auto

lemma validate_plan_eq:
  "validate_plan v = (if schema_plan v then Inr () else Inl StateValidationError)"
proof (cases v)
  case (JObj d)
  show ?thesis
    unfolding JObj validate_plan_def schema_plan_def
    by (auto simp: require_eqs has_keys_def require_list_def
          checks_map_eq[of validate_objective schema_objective, OF validate_objective_eq]
          checks_map_eq[of validate_task schema_task, OF validate_task_eq]
          split: json.splits)
qed (simp_all add: validate_plan_def schema_plan_def require_mapping_def)

text \<open>
  Claim C7. Under strict schema validation, \<open>write_plan\<close>, \<open>write_active_task\<close> and
  \<open>write_last_result\<close> refuse a payload that does not have the shape of the data model
  with \<open>StateValidationError\<close>; validation comes before the atomic write, so the world,
  and with it the target file, is what it was.
\<close>

theorem strict_write_rejects_invalid_payload:
  assumes "StateStore.strict_schema_validation S"
  shows "(\<not> schema_plan payload \<longrightarrow> write_plan E S payload w = (Inl StateValidationError, w)) \<and>
         (\<not> schema_active_task payload \<longrightarrow> write_active_task E S payload w = (Inl StateValidationError, w)) \<and>
         (\<not> schema_agent_result payload \<longrightarrow> write_last_result E S payload w = (Inl StateValidationError, w))"
  using assms
  by (simp add: write_plan_def write_active_task_def write_last_result_def
        validate_plan_eq validate_active_task_eq validate_codex_result_eq)

lemma resolve_path_eq:
  "resolve_path E pr s =
     Path_resolve E (if is_absolute (Path_of s) then Path_of s else joinpath pr (Path_of s))"
  by (simp add: resolve_path_def Let_def)

lemma collect_forbidden_resolved:
  "\<forall>s \<in> set names. resolve_path E pr s = Inr (res s) \<Longrightarrow>
   collect_forbidden E pr dr sr (map JStr names @ rest) acc =
     collect_forbidden E pr dr sr rest
       (acc @ filter (\<lambda>s. is_within (res s) dr \<or> is_within (res s) sr \<or> \<not> is_within (res s) pr) names)"
  by (induction names arbitrary: acc) simp_all

lemma collect_forbidden_non_string:
  "\<forall>s. x \<noteq> JStr s \<Longrightarrow>
   collect_forbidden E pr dr sr (x # rest) acc = Inl (PolicyViolation ''files_changed entries must be strings.'')"
  by (cases x) simp_all

lemma collect_forbidden_unresolved:
  "resolve_path E pr s = Inl e \<Longrightarrow> collect_forbidden E pr dr sr (JStr s # rest) acc = Inl e"
  by simp

text \<open>
  Claim C8, amended. \<open>assert_no_forbidden_changes\<close> first resolves the design directory,
  the state directory and the project root, in this order; an exception of
  \<^verbatim>\<open>Path.resolve\<close> on one of them leaves the function. It then takes the entries in order.
  The resolution of a string entry is that of the entry joined to the resolved project
  root when it is relative, of the entry itself when it is absolute. After a prefix of
  string entries that all resolve: an entry that is not a string raises \<open>PolicyViolation\<close>
  at once; a string entry whose resolution raises makes the function raise that exception
  (\<^verbatim>\<open>ValueError\<close>, \<^verbatim>\<open>UnicodeEncodeError\<close>, \<^verbatim>\<open>RuntimeError\<close> or \<^verbatim>\<open>OSError\<close>), not a
  \<open>PolicyViolation\<close>. When every entry is a string that resolves, an entry is forbidden
  exactly when its resolution lies within the resolved design directory, lies within the
  resolved state directory, or does not lie within the resolved project root; the function
  raises \<open>PolicyViolation\<close> with the forbidden entries sorted and joined by commas when
  there is one, and returns otherwise.
\<close>

theorem assert_no_forbidden_changes_spec:
  "(Path_resolve E design = Inl e \<longrightarrow>
      assert_no_forbidden_changes E files_changed project_dir design sdir = Inl e) \<and>
   (Path_resolve E design = Inr dr \<and> Path_resolve E sdir = Inl e \<longrightarrow>
      assert_no_forbidden_changes E files_changed project_dir design sdir = Inl e) \<and>
   (Path_resolve E design = Inr dr \<and> Path_resolve E sdir = Inr sr \<and>
    Path_resolve E project_dir = Inl e \<longrightarrow>
      assert_no_forbidden_changes E files_changed project_dir design sdir = Inl e) \<and>
   (Path_resolve E design = Inr dr \<and> Path_resolve E sdir = Inr sr \<and>
    Path_resolve E project_dir = Inr pr \<and>
    (\<forall>s \<in> set names. Path_resolve E (if is_absolute (Path_of s) then Path_of s
                                          else joinpath pr (Path_of s)) = Inr (res s)) \<longrightarrow>
      ((\<forall>s. x \<noteq> JStr s) \<longrightarrow>
         assert_no_forbidden_changes E (map JStr names @ x # rest) project_dir design sdir =
           Inl (PolicyViolation ''files_changed entries must be strings.'')) \<and>
      (Path_resolve E (if is_absolute (Path_of bad) then Path_of bad
                       else joinpath pr (Path_of bad)) = Inl e \<longrightarrow>
         assert_no_forbidden_changes E (map JStr names @ JStr bad # rest) project_dir design sdir =
           Inl e \<and>
         e \<in> {ValueError, UnicodeEncodeError, RuntimeError, OSError}) \<and>
      assert_no_forbidden_changes E (map JStr names) project_dir design sdir =
        (let forbidden = filter (\<lambda>s. is_within (res s) dr \<or> is_within (res s) sr
                                     \<or> \<not> is_within (res s) pr) names
         in if forbidden \<noteq> []
            then Inl (PolicyViolation (''Forbidden files modified: '' @ join '', '' (sort forbidden)))
            else Inr ()))"
proof -
  have a: "Path_resolve E design = Inl e \<Longrightarrow>
      assert_no_forbidden_changes E files_changed project_dir design sdir = Inl e"
    by (simp add: assert_no_forbidden_changes_def)
  have b: "Path_resolve E design = Inr dr \<Longrightarrow> Path_resolve E sdir = Inl e \<Longrightarrow>
      assert_no_forbidden_changes E files_changed project_dir design sdir = Inl e"
    by (simp add: assert_no_forbidden_changes_def)
  have c: "Path_resolve E design = Inr dr \<Longrightarrow> Path_resolve E sdir = Inr sr \<Longrightarrow>
      Path_resolve E project_dir = Inl e \<Longrightarrow>
      assert_no_forbidden_changes E files_changed project_dir design sdir = Inl e"
    by (simp add: assert_no_forbidden_changes_def)
  {
    assume dirs: "Path_resolve E design = Inr dr" "Path_resolve E sdir = Inr sr"
      "Path_resolve E project_dir = Inr pr"
      and "\<forall>s \<in> set names. Path_resolve E (if is_absolute (Path_of s) then Path_of s
                                          else joinpath pr (Path_of s)) = Inr (res s)"
    then have res: "\<forall>s \<in> set names. resolve_path E pr s = Inr (res s)"
      by (simp add: resolve_path_eq)
    note cf = collect_forbidden_resolved[OF res, of dr sr _ "[]"]
    have 1: "(\<forall>s. x \<noteq> JStr s) \<Longrightarrow>
         assert_no_forbidden_changes E (map JStr names @ x # rest) project_dir design sdir =
           Inl (PolicyViolation ''files_changed entries must be strings.'')"
      using collect_forbidden_non_string[of x E pr dr sr rest]
      by (simp add: assert_no_forbidden_changes_def dirs cf)
    have 2: "Path_resolve E (if is_absolute (Path_of bad) then Path_of bad
                       else joinpath pr (Path_of bad)) = Inl e \<Longrightarrow>
         assert_no_forbidden_changes E (map JStr names @ JStr bad # rest) project_dir design sdir =
           Inl e \<and>
         e \<in> {ValueError, UnicodeEncodeError, RuntimeError, OSError}"
      using collect_forbidden_unresolved[of E pr bad e dr sr rest] Path_resolve_errors[of E _ e]
      by (simp add: assert_no_forbidden_changes_def dirs cf resolve_path_eq del: collect_forbidden.simps)
    have 3: "assert_no_forbidden_changes E (map JStr names) project_dir design sdir =
        (let forbidden = filter (\<lambda>s. is_within (res s) dr \<or> is_within (res s) sr
                                     \<or> \<not> is_within (res s) pr) names
         in if forbidden \<noteq> []
            then Inl (PolicyViolation (''Forbidden files modified: '' @ join '', '' (sort forbidden)))
            else Inr ())"
      using cf[of "[]"]
      by (simp add: assert_no_forbidden_changes_def dirs Let_def split del: if_split)
    note 1 2 3
  }
  with a b c show ?thesis by blast
qed

lemma no_tasks_in_default: "\<not> sublist ''tasks'' DEFAULT_PROGRESS"
  unfolding DEFAULT_PROGRESS_def by code_simp

text \<open>
  Claim C10. When the progress file is absent, \<open>load_progress\<close> does not fail: it returns
  the literal text \<^verbatim>\<open>objectives: {}\<close> followed by a newline. That text does not contain
  \<^verbatim>\<open>tasks\<close>, whereas after a successful \<open>write_progress\<close> of the planner the file holds
  the dump of an object with the two maps \<^verbatim>\<open>objectives\<close> and \<^verbatim>\<open>tasks\<close>, which is what
  \<open>load_progress\<close> then returns.
\<close>

theorem load_progress_default:
  "(fs w (progress_path S) = None \<longrightarrow>
      load_progress S w = (Inr (Text (''objectives: {}'' @ [CHR 0x0A])), w)) \<and>
   \<not> sublist ''tasks'' (''objectives: {}'' @ [CHR 0x0A]) \<and>
   (planner_write_progress E S plan w = (Inr (), w') \<longrightarrow>
      (\<exists>objectives tasks. load_progress S w' = (Inr (Progress_Dump objectives tasks), w')))"
proof (intro conjI impI)
  show "\<not> sublist ''tasks'' (''objectives: {}'' @ [CHR 0x0A])" by code_simp
next
  assume "fs w (progress_path S) = None"
  then show "load_progress S w = (Inr (Text (''objectives: {}'' @ [CHR 0x0A])), w)"
    by (simp add: load_progress_def path_exists_def DEFAULT_PROGRESS_def)
next
  assume a: "planner_write_progress E S plan w = (Inr (), w')"
  then obtain os ts where "write_progress E S (Progress_Dump os ts) w = (Inr (), w')"
    by (auto simp: planner_write_progress_def io_bind_apply split: sum.splits)
  then have "fs w' (progress_path S) = Some (File (Progress_Dump os ts))"
    by (auto simp: write_progress_def atomic_write_text_def atomic_write_bytes_def io_then_apply
          ensure_parent_dir_def split: sum.splits if_splits)
  then show "\<exists>objectives tasks. load_progress S w' = (Inr (Progress_Dump objectives tasks), w')"
    by (auto simp: load_progress_def path_exists_def read_text_def)
qed

lemma dict_get_default_present: "map_of d k = Some v \<Longrightarrow> dict_get_default d k dflt = v"
  by (simp add: dict_get_default_def)

lemma dict_get_present: "map_of d k = Some v \<Longrightarrow> dict_get d k = v"
  by (simp add: dict_get_def dict_get_default_def)

lemma dict_has_iff: "dict_has d k \<longleftrightarrow> k \<in> fst ` set d"
  by (simp add: dict_has_def map_of_eq_None_iff)

lemma map_of_dict_set: "map_of (dict_set d k v) = (map_of d)(k \<mapsto> v)"
  by (simp add: dict_set_def update_conv')

lemma dict_get_dict_set: "dict_get (dict_set d k v) k' = (if k' = k then v else dict_get d k')"
  by (simp add: dict_get_def dict_get_default_def map_of_dict_set)

lemma dict_get_default_dict_set:
  "dict_get_default (dict_set d k v) k' dflt = (if k' = k then v else dict_get_default d k' dflt)"
  by (simp add: dict_get_default_def map_of_dict_set)

lemma dict_has_dict_set: "dict_has (dict_set d k v) k' \<longleftrightarrow> k' = k \<or> dict_has d k'"
  by (simp add: dict_has_def map_of_dict_set)

lemma well_keyed_id: "well_keyed t \<Longrightarrow> json_field t ''id'' = JStr (task_id_of t) \<and> task_id_of t \<noteq> []"
  by (auto simp: well_keyed_def json_field_def task_id_of_def)

lemma find_None_ids: "s \<notin> set (map task_id_of tasks) \<Longrightarrow> find (\<lambda>t. task_id_of t = s) tasks = None"
  by (induction tasks) auto

lemma task_map_loop_Inr:
  "task_map_loop tasks acc = Inr tm \<Longrightarrow>
     list_all well_keyed tasks \<and> distinct (map task_id_of tasks)
     \<and> (\<forall>t \<in> set tasks. map_of acc (task_id_of t) = None)
     \<and> (\<forall>x. map_of tm x = (case find (\<lambda>t. task_id_of t = x) tasks of
                                Some t \<Rightarrow> Some t | None \<Rightarrow> map_of acc x))"
proof (induction tasks arbitrary: acc)
  case Nil
  then show ?case by simp
next
  case (Cons t tasks)
  from Cons.prems obtain d s where t: "t = JObj d" "dict_get d ''id'' = JStr s" "s \<noteq> []"
      "\<not> dict_has acc s" and rest: "task_map_loop tasks (dict_set acc s t) = Inr tm"
    by (auto simp: py_get_def py_get_default_def dict_get_def thenE_def
             split: json.splits if_splits sum.splits)
  have id: "task_id_of t = s" using t by (simp add: task_id_of_def)
  have wk: "well_keyed t" using t by (auto simp: well_keyed_def)
  from Cons.IH[OF rest] have ih: "list_all well_keyed tasks" "distinct (map task_id_of tasks)"
     "\<forall>u \<in> set tasks. map_of (dict_set acc s t) (task_id_of u) = None"
     "\<forall>x. map_of tm x = (case find (\<lambda>t. task_id_of t = x) tasks of
                                Some t \<Rightarrow> Some t | None \<Rightarrow> map_of (dict_set acc s t) x)"
    by auto
  have notin: "s \<notin> set (map task_id_of tasks)"
    using ih(3) by (auto simp: map_of_dict_set split: if_splits)
  have accnone: "\<forall>u \<in> set (t # tasks). map_of acc (task_id_of u) = None"
    using ih(3) t(4) id by (auto simp: map_of_dict_set dict_has_def split: if_splits)
  have look: "\<forall>x. map_of tm x = (case find (\<lambda>t. task_id_of t = x) (t # tasks) of
                                Some t \<Rightarrow> Some t | None \<Rightarrow> map_of acc x)"
  proof
    fix x
    show "map_of tm x = (case find (\<lambda>t. task_id_of t = x) (t # tasks) of
                                Some t \<Rightarrow> Some t | None \<Rightarrow> map_of acc x)"
    proof (cases "x = s")
      case True
      then show ?thesis using ih(4) find_None_ids[OF notin] id by (simp add: map_of_dict_set)
    next
      case False
      then show ?thesis using ih(4) id by (simp add: map_of_dict_set split: option.splits)
    qed
  qed
  have "distinct (map task_id_of (t # tasks))" using ih(2) notin id by simp
  moreover have "list_all well_keyed (t # tasks)" using wk ih(1) by simp
  ultimately show ?case using accnone look by blast
qed

lemma task_map_loop_ok:
  "list_all well_keyed tasks \<Longrightarrow> distinct (map task_id_of tasks) \<Longrightarrow>
   \<forall>t \<in> set tasks. map_of acc (task_id_of t) = None \<Longrightarrow>
   \<exists>tm. task_map_loop tasks acc = Inr tm"
proof (induction tasks arbitrary: acc)
  case Nil
  then show ?case by simp
next
  case (Cons t tasks)
  from Cons.prems(1) obtain d s where t: "t = JObj d" "dict_get d ''id'' = JStr s" "s \<noteq> []"
    by (auto simp: well_keyed_def)
  have id: "task_id_of t = s" using t by (simp add: task_id_of_def)
  have notin: "s \<notin> task_id_of ` set tasks" using Cons.prems(2) id by auto
  have "\<forall>u \<in> set tasks. map_of (dict_set acc s t) (task_id_of u) = None"
  proof
    fix u assume u: "u \<in> set tasks"
    then have "task_id_of u \<noteq> s" using notin by auto
    then show "map_of (dict_set acc s t) (task_id_of u) = None"
      using Cons.prems(3) u by (simp add: map_of_dict_set)
  qed
  from Cons.IH[OF _ _ this] Cons.prems obtain tm where "task_map_loop tasks (dict_set acc s t) = Inr tm"
    by auto
  then show ?case using t Cons.prems id
    by (auto simp: py_get_def py_get_default_def dict_get_def dict_has_def)
qed

lemma find_cong_ids:
  "list_all well_keyed tasks \<Longrightarrow>
   find (\<lambda>t. task_id_of t = s) tasks = find (\<lambda>t. json_field t ''id'' = JStr s) tasks"
  by (induction tasks) (auto dest: well_keyed_id)

lemma task_map_lookup:
  assumes "task_map tasks = Inr tm"
  shows "map_of tm s = find (\<lambda>t. json_field t ''id'' = JStr s) tasks"
  using task_map_loop_Inr[OF assms[unfolded task_map_def]] find_cong_ids[of tasks s]
  by (auto split: option.splits)


lemma find_unique:
  assumes "list_all well_keyed tasks" "distinct (map task_id_of tasks)"
    and "find (\<lambda>t. json_field t ''id'' = JStr s) tasks = Some t"
    and "u \<in> set tasks" "json_field u ''id'' = JStr s"
  shows "u = t"
proof -
  have t: "t \<in> set tasks" "json_field t ''id'' = JStr s"
    using assms(3) by (auto simp: find_Some_iff)
  have "task_id_of u = task_id_of t"
    using assms(1,4,5) t well_keyed_id[of u] well_keyed_id[of t] by (auto simp: list_all_iff)
  then show ?thesis using assms(2,4) t(1) by (meson distinct_map inj_onD)
qed

lemma names_task_iff: "names_task tasks dep \<longleftrightarrow> find (\<lambda>t. json_field t ''id'' = dep) tasks \<noteq> None"
  by (auto simp: names_task_def list_ex_iff find_None_iff)

lemma names_done_task_iff:
  assumes "list_all well_keyed tasks" "distinct (map task_id_of tasks)"
    and "find (\<lambda>t. json_field t ''id'' = JStr s) tasks = Some t"
  shows "names_done_task tasks (JStr s) \<longleftrightarrow> json_field t ''status'' = JStr ''done''"
proof
  assume "names_done_task tasks (JStr s)"
  then obtain u where "u \<in> set tasks" "json_field u ''id'' = JStr s" "json_field u ''status'' = JStr ''done''"
    by (auto simp: names_done_task_def list_ex_iff)
  then show "json_field t ''status'' = JStr ''done''" using find_unique[OF assms] by auto
next
  assume "json_field t ''status'' = JStr ''done''"
  then show "names_done_task tasks (JStr s)"
    using assms(3) by (auto simp: names_done_task_def list_ex_iff find_Some_iff)
qed

lemma names_done_imp_names: "names_done_task tasks dep \<Longrightarrow> names_task tasks dep"
  by (auto simp: names_done_task_def names_task_def list_ex_iff)

lemma dependencies_loop_eq:
  assumes tm: "task_map tasks = Inr tm"
  shows "list_all is_string deps \<Longrightarrow>
    dependencies_loop deps tm =
      (case find (\<lambda>dep. \<not> names_done_task tasks dep) deps of
         None \<Rightarrow> Inr True
       | Some dep \<Rightarrow> if names_task tasks dep then Inr False
                     else Inl (PlannerError (''Dependency not found: '' @ (case dep of JStr s \<Rightarrow> s | _ \<Rightarrow> []))))"
proof (induction deps)
  case Nil
  then show ?case by simp
next
  case (Cons dep deps)
  from Cons.prems obtain s where s: "dep = JStr s" by (auto simp: is_string_def split: json.splits)
  from task_map_loop_Inr[OF tm[unfolded task_map_def]]
  have wk: "list_all well_keyed tasks" and d: "distinct (map task_id_of tasks)" by auto
  show ?case
  proof (cases "find (\<lambda>t. json_field t ''id'' = JStr s) tasks")
    case None
    then have "\<not> names_task tasks dep" "\<not> names_done_task tasks dep" "\<not> dict_has tm s"
      using s names_done_imp_names[of tasks dep] task_map_lookup[OF tm, of s]
      by (auto simp: names_task_iff dict_has_def)
    then show ?thesis using s by simp
  next
    case (Some t)
    then have has: "dict_has tm s" "dict_get tm s = t" "names_task tasks dep"
      using s task_map_lookup[OF tm, of s]
      by (auto simp: names_task_iff dict_has_def dict_get_def dict_get_default_def)
    have "t \<in> set tasks" using Some by (auto simp: find_Some_iff)
    then obtain d' where t: "t = JObj d'" using wk by (auto simp: list_all_iff well_keyed_def)
    have st: "py_get t ''status'' = Inr (json_field t ''status'')"
      using t by (simp add: py_get_def py_get_default_def json_field_def dict_get_def)
    have nd: "names_done_task tasks dep \<longleftrightarrow> json_field t ''status'' = JStr ''done''"
      using names_done_task_iff[OF wk d Some] s by simp
    show ?thesis using has st nd s Cons by simp
  qed
qed

lemma schema_task_get:
  assumes "schema_task t"
  shows "py_get t ''status'' = Inr (json_field t ''status'')"
    and "\<exists>deps. py_get_default t ''depends_on'' (JList []) = Inr (JList deps)
               \<and> task_deps t = deps \<and> list_all is_string deps"
proof -
  from assms obtain d where t: "t = JObj d" and f: "schema_task_fields d"
    by (auto simp: schema_task_def split: json.splits)
  show "py_get t ''status'' = Inr (json_field t ''status'')"
    using t by (simp add: py_get_def py_get_default_def json_field_def dict_get_def)
  have opt: "optional_ok d ''depends_on'' is_string_list"
    using f by (simp add: schema_task_fields_def)
  show "\<exists>deps. py_get_default t ''depends_on'' (JList []) = Inr (JList deps)
               \<and> task_deps t = deps \<and> list_all is_string deps"
  proof (cases "map_of d ''depends_on''")
    case None
    then show ?thesis using t
      by (simp add: py_get_default_def task_deps_def json_field_def dict_get_def dict_get_default_def)
  next
    case (Some v)
    then have "is_string_list v" using opt by (simp add: optional_ok_def)
    then obtain deps where "v = JList deps" "list_all is_string deps"
      by (cases v) (simp_all add: is_string_list_def)
    then show ?thesis using t Some
      by (simp add: py_get_default_def task_deps_def json_field_def dict_get_def dict_get_default_def)
  qed
qed

lemma select_loop_step:
  assumes tm: "task_map tasks = Inr tm" and t: "schema_task t"
  shows "select_loop (t # rest) tm =
     (if json_field t ''status'' = JStr ''active''
      then Inl (PlannerError ''Plan contains an active task without execution context.'')
      else if json_field t ''status'' \<noteq> JStr ''pending'' then select_loop rest tm
      else (case first_unmet tasks t of
              None \<Rightarrow> Inr (Some t)
            | Some dep \<Rightarrow> if names_task tasks dep then select_loop rest tm
                          else Inl (PlannerError (''Dependency not found: '' @ (case dep of JStr s \<Rightarrow> s | _ \<Rightarrow> [])))))"
proof -
  from schema_task_get[OF t] obtain deps where
    g: "py_get t ''status'' = Inr (json_field t ''status'')"
       "py_get_default t ''depends_on'' (JList []) = Inr (JList deps)"
       "task_deps t = deps" "list_all is_string deps" by auto
  show ?thesis
    using g dependencies_loop_eq[OF tm g(4)]
    by (auto simp: dependencies_satisfied_def first_unmet_def split: option.splits)
qed

lemma select_loop_skipped:
  assumes tm: "task_map tasks = Inr tm"
  shows "list_all schema_task pre \<Longrightarrow> list_all (skipped tasks) pre \<Longrightarrow>
         select_loop (pre @ rest) tm = select_loop rest tm"
proof (induction pre)
  case Nil
  then show ?case by simp
next
  case (Cons t pre)
  then have "schema_task t" "skipped tasks t" by auto
  then have "select_loop (t # pre @ rest) tm = select_loop (pre @ rest) tm"
    using select_loop_step[OF tm, of t "pre @ rest"]
    by (auto simp: skipped_def split: option.splits if_splits)
  then show ?case using Cons by simp
qed

lemma first_unmet_None: "first_unmet tasks t = None \<longleftrightarrow> list_all (names_done_task tasks) (task_deps t)"
  by (auto simp: first_unmet_def find_None_iff list_all_iff)

lemma schema_plan_tasks:
  assumes "schema_plan (JObj plan)"
  shows "py_iter (dict_get_default plan ''tasks'' (JList [])) = Inr (plan_tasks plan)"
    and "list_all schema_task (plan_tasks plan)"
    and "dict_get plan ''tasks'' = JList (plan_tasks plan)"
proof -
  from assms obtain ts where ts: "dict_get plan ''tasks'' = JList ts" "list_all schema_task ts"
    and k: "has_keys plan [''version'', ''objectives'', ''tasks''] []"
    by (auto simp: schema_plan_def split: json.splits)
  from k have "map_of plan ''tasks'' \<noteq> None"
    by (auto simp: has_keys_def map_of_eq_None_iff)
  then have "dict_get_default plan ''tasks'' (JList []) = dict_get plan ''tasks''"
    by (auto simp: dict_get_def dict_get_default_def)
  then show "py_iter (dict_get_default plan ''tasks'' (JList [])) = Inr (plan_tasks plan)"
    using ts by (simp add: py_iter_def plan_tasks_def)
  show "list_all schema_task (plan_tasks plan)" using ts by (simp add: plan_tasks_def)
  show "dict_get plan ''tasks'' = JList (plan_tasks plan)" using ts by (simp add: plan_tasks_def)
qed

lemma schema_task_well_keyed:
  "schema_task t \<Longrightarrow> json_field t ''id'' \<noteq> JStr [] \<Longrightarrow> well_keyed t"
  by (auto simp: schema_task_def schema_task_fields_def well_keyed_def json_field_def is_string_def
      split: json.splits)

lemma unique_task_ids_task_map:
  assumes "schema_plan (JObj plan)" "unique_task_ids plan"
  shows "\<exists>tm. task_map (plan_tasks plan) = Inr tm"
proof -
  let ?ts = "plan_tasks plan"
  have wk: "list_all well_keyed ?ts"
    unfolding list_all_iff
  proof
    fix x assume x: "x \<in> set ?ts"
    then have "schema_task x" using schema_plan_tasks(2)[OF assms(1)] by (simp add: list_all_iff)
    moreover have "json_field x ''id'' \<noteq> JStr []"
      using assms(2) x by (force simp: unique_task_ids_def)
    ultimately show "well_keyed x" by (rule schema_task_well_keyed)
  qed
  have eq: "map (\<lambda>t. json_field t ''id'') ?ts = map (\<lambda>t. JStr (task_id_of t)) ?ts"
    using wk by (auto simp: list_all_iff dest: well_keyed_id)
  have "distinct (map (\<lambda>t. json_field t ''id'') ?ts)"
    using assms(2) by (simp add: unique_task_ids_def)
  then have "distinct (map (\<lambda>t. JStr (task_id_of t)) ?ts)"
    unfolding eq .
  then have "distinct (map task_id_of ?ts)"
    by (simp add: distinct_map inj_on_def)
  then show ?thesis using task_map_loop_ok[OF wk, of "[]"] by (simp add: task_map_def)
qed

text \<open>
  Claim C5, amended. On a plan of the data model with unique, non-empty task ids,
  \<open>select_next_task\<close> scans the tasks in document order. A task is passed over when its
  status is neither pending nor active, or when it is pending and its first dependency
  that is not a done task names an existing task. When every task before \<open>t\<close> is passed
  over: if \<open>t\<close> is pending and all its dependencies name done tasks, \<open>t\<close> is returned; if
  \<open>t\<close> is active, \<open>PlannerError\<close> is raised; if \<open>t\<close> is pending and its first dependency that
  is not a done task names no task at all, \<open>PlannerError\<close> is raised. When every task is
  passed over, the result is \<open>None\<close>.
\<close>

theorem select_next_task_order:
  assumes "schema_plan (JObj plan)" and "unique_task_ids plan"
  shows "(\<forall>pre t post. plan_tasks plan = pre @ t # post \<and> list_all (skipped (plan_tasks plan)) pre \<longrightarrow>
            (eligible (plan_tasks plan) t \<longrightarrow> select_next_task plan = Inr (Some t)) \<and>
            (json_field t ''status'' = JStr ''active'' \<longrightarrow>
               select_next_task plan =
                 Inl (PlannerError ''Plan contains an active task without execution context.'')) \<and>
            (\<forall>s. dangling (plan_tasks plan) t s \<longrightarrow>
               select_next_task plan = Inl (PlannerError (''Dependency not found: '' @ s)))) \<and>
         (list_all (skipped (plan_tasks plan)) (plan_tasks plan) \<longrightarrow> select_next_task plan = Inr None)"
proof -
  let ?ts = "plan_tasks plan"
  from unique_task_ids_task_map[OF assms] obtain tm where tm: "task_map ?ts = Inr tm" by auto
  have sel: "select_next_task plan = select_loop ?ts tm"
    using schema_plan_tasks(1)[OF assms(1)] tm by (simp add: select_next_task_def)
  have st: "list_all schema_task ?ts" by (rule schema_plan_tasks(2)[OF assms(1)])
  have all: "list_all (skipped ?ts) ?ts \<longrightarrow> select_next_task plan = Inr None"
    using select_loop_skipped[OF tm st, of "[]"] sel by simp
  have one: "select_next_task plan = select_loop (t # post) tm \<and> schema_task t"
    if "?ts = pre @ t # post" "list_all (skipped ?ts) pre" for pre t post
    using select_loop_skipped[OF tm, of pre "t # post"] st that sel by simp
  show ?thesis
  proof (intro conjI allI impI)
    show "list_all (skipped ?ts) ?ts \<Longrightarrow> select_next_task plan = Inr None" using all by simp
  next
    fix pre t post
    assume a: "?ts = pre @ t # post \<and> list_all (skipped ?ts) pre" and e: "eligible ?ts t"
    from one[of pre t post] a have "select_next_task plan = select_loop (t # post) tm" "schema_task t" by auto
    then show "select_next_task plan = Inr (Some t)"
      using select_loop_step[OF tm, of t post] e first_unmet_None[of ?ts t]
      by (simp add: eligible_def)
  next
    fix pre t post
    assume a: "?ts = pre @ t # post \<and> list_all (skipped ?ts) pre"
      and e: "json_field t ''status'' = JStr ''active''"
    from one[of pre t post] a have "select_next_task plan = select_loop (t # post) tm" "schema_task t" by auto
    then show "select_next_task plan = Inl (PlannerError ''Plan contains an active task without execution context.'')"
      using select_loop_step[OF tm, of t post] e by simp
  next
    fix pre t post s
    assume a: "?ts = pre @ t # post \<and> list_all (skipped ?ts) pre" and e: "dangling ?ts t s"
    from one[of pre t post] a have "select_next_task plan = select_loop (t # post) tm" "schema_task t" by auto
    then show "select_next_task plan = Inl (PlannerError (''Dependency not found: '' @ s))"
      using select_loop_step[OF tm, of t post] e by (simp add: dangling_def)
  qed
qed

lemma find_task_loop_Inr:
  "find_task_loop tasks task_id k = Inr i \<Longrightarrow>
     k \<le> i \<and> i - k < length tasks \<and> (\<exists>d. tasks ! (i - k) = JObj d \<and> dict_get d ''id'' = JStr task_id)
     \<and> (\<forall>j < i - k. json_field (tasks ! j) ''id'' \<noteq> JStr task_id)"
proof (induction tasks arbitrary: k)
  case Nil
  then show ?case by simp
next
  case (Cons t tasks)
  from Cons.prems obtain d where t: "t = JObj d"
    by (cases t) (auto simp: py_get_def py_get_default_def)
  show ?case
  proof (cases "dict_get d ''id'' = JStr task_id")
    case True
    then show ?thesis using Cons.prems t
      by (auto simp: py_get_def py_get_default_def dict_get_def)
  next
    case False
    then have r: "find_task_loop tasks task_id (Suc k) = Inr i"
      using Cons.prems t by (auto simp: py_get_def py_get_default_def dict_get_def)
    from Cons.IH[OF r] have ih: "Suc k \<le> i" "i - Suc k < length tasks"
      "\<exists>d. tasks ! (i - Suc k) = JObj d \<and> dict_get d ''id'' = JStr task_id"
      "\<forall>j < i - Suc k. json_field (tasks ! j) ''id'' \<noteq> JStr task_id" by auto
    have e: "i - k = Suc (i - Suc k)" using ih(1) by simp
    have "\<forall>j < i - k. json_field ((t # tasks) ! j) ''id'' \<noteq> JStr task_id"
    proof (intro allI impI)
      fix j assume "j < i - k"
      then show "json_field ((t # tasks) ! j) ''id'' \<noteq> JStr task_id"
        using ih(4) False t e by (cases j) (auto simp: json_field_def)
    qed
    then show ?thesis using ih e by auto
  qed
qed

lemma py_iter_dicts:
  assumes "py_iter x = Inr xs" "y \<in> set xs" "y = JObj d"
  shows "x = JList xs"
  using assms by (cases x) (auto simp: py_iter_def)

lemma find_task_Inr:
  assumes "find_task plan task_id = Inr i"
  shows "\<exists>tasks d. dict_get plan ''tasks'' = JList tasks \<and> plan_tasks plan = tasks
           \<and> dict_get_default plan ''tasks'' (JList []) = JList tasks
           \<and> i < length tasks \<and> tasks ! i = JObj d \<and> dict_get d ''id'' = JStr task_id
           \<and> (\<forall>j < i. json_field (tasks ! j) ''id'' \<noteq> JStr task_id)"
proof -
  from assms obtain tasks where it: "py_iter (dict_get_default plan ''tasks'' (JList [])) = Inr tasks"
    and f: "find_task_loop tasks task_id 0 = Inr i"
    by (auto simp: find_task_def thenE_def split: sum.splits)
  from find_task_loop_Inr[OF f] obtain d where i: "i < length tasks" "tasks ! i = JObj d"
     "dict_get d ''id'' = JStr task_id" "\<forall>j < i. json_field (tasks ! j) ''id'' \<noteq> JStr task_id" by auto
  have "tasks ! i \<in> set tasks" using i(1) by simp
  from py_iter_dicts[OF it this i(2)] have l: "dict_get_default plan ''tasks'' (JList []) = JList tasks" .
  have "tasks \<noteq> []" using i(1) by auto
  then have "dict_get plan ''tasks'' = JList tasks" using l
    by (auto simp: dict_get_def dict_get_default_def split: option.splits)
  then show ?thesis using i l by (auto simp: plan_tasks_def)
qed

lemma assign_status_tasks:
  assumes "find_task plan task_id = Inr i"
  shows "plan_tasks (assign_status plan i st) =
           (plan_tasks plan)[i := JObj (dict_set (task_at plan i) ''status'' (JStr st))]"
    and "dict_get_default (assign_status plan i st) ''tasks'' (JList []) =
           JList ((plan_tasks plan)[i := JObj (dict_set (task_at plan i) ''status'' (JStr st))])"
    and "dict_get_default (assign_status plan i st) ''objectives'' dflt = dict_get_default plan ''objectives'' dflt"
    and "plan_objectives (assign_status plan i st) = plan_objectives plan"
    and "plan_tasks plan ! i = JObj (task_at plan i)"
    and "i < length (plan_tasks plan)"
    and "dict_get (task_at plan i) ''id'' = JStr task_id"
proof -
  from find_task_Inr[OF assms] obtain tasks d where
    f: "dict_get plan ''tasks'' = JList tasks" "plan_tasks plan = tasks"
       "i < length tasks" "tasks ! i = JObj d" "dict_get d ''id'' = JStr task_id" by auto
  have ta: "task_at plan i = d" using f by (simp add: task_at_def)
  have as: "assign_status plan i st =
              dict_set plan ''tasks'' (JList (tasks[i := JObj (dict_set d ''status'' (JStr st))]))"
    using f ta by (simp add: assign_status_def)
  show "plan_tasks (assign_status plan i st) =
           (plan_tasks plan)[i := JObj (dict_set (task_at plan i) ''status'' (JStr st))]"
    unfolding as using f ta by (simp add: plan_tasks_def dict_get_dict_set)
  show "dict_get_default (assign_status plan i st) ''tasks'' (JList []) =
           JList ((plan_tasks plan)[i := JObj (dict_set (task_at plan i) ''status'' (JStr st))])"
    unfolding as using f ta by (simp add: dict_get_default_dict_set)
  show "dict_get_default (assign_status plan i st) ''objectives'' dflt = dict_get_default plan ''objectives'' dflt"
    unfolding as by (simp add: dict_get_default_dict_set)
  show "plan_objectives (assign_status plan i st) = plan_objectives plan"
    unfolding as by (simp add: plan_objectives_def dict_get_dict_set)
  show "plan_tasks plan ! i = JObj (task_at plan i)" using f ta by simp
  show "i < length (plan_tasks plan)" using f by simp
  show "dict_get (task_at plan i) ''id'' = JStr task_id" using f ta by simp
qed


lemma is_dict_py_get: "is_dict t \<Longrightarrow> py_get t k = Inr (json_field t k)"
  by (cases t) (simp_all add: is_dict_def py_get_def py_get_default_def json_field_def dict_get_def)

lemma related_tasks_eq:
  "list_all is_dict tasks \<Longrightarrow>
   related_tasks tasks s = filter (\<lambda>t. json_field t ''objective'' = JStr s) tasks"
  unfolding related_tasks_def
  by (rule filter_cong) (auto simp: list_all_iff is_dict_py_get)

lemma rollup_eq:
  "JStr (rollup (map (\<lambda>t. json_field t ''status'') rel)) = rollup_status rel"
proof -
  let ?f = "\<lambda>t. json_field t ''status''"
  let ?A = "{JStr ''active'', JStr ''done'', JStr ''failed'', JStr ''blocked''}"
  have a: "set (map ?f rel) \<subseteq> {JStr ''done''} \<longleftrightarrow> list_all (\<lambda>t. ?f t = JStr ''done'') rel"
    by (auto simp: list_all_iff)
  have b: "set (map ?f rel) \<inter> ?A \<noteq> {} \<longleftrightarrow> list_ex (\<lambda>t. ?f t \<in> ?A) rel"
    unfolding list_ex_iff by (simp only: set_map) blast
  show ?thesis
    unfolding rollup_def rollup_status_def a b by simp
qed

lemma statuses_eq:
  "list_all is_dict rel \<Longrightarrow>
   map (\<lambda>task. case task of JObj t \<Rightarrow> dict_get t ''status'' | _ \<Rightarrow> JNull) rel
     = map (\<lambda>t. json_field t ''status'') rel"
  by (induction rel) (auto simp: is_dict_def json_field_def split: json.splits)

lemma json_field_dict_set:
  "json_field (JObj (dict_set d k v)) k' = (if k' = k then v else json_field (JObj d) k')"
  by (simp add: json_field_def dict_get_dict_set)

lemma refresh_objective_spec:
  assumes tasks: "list_all is_dict tasks"
    and obj: "dict_get d ''id'' = JStr s"
    and r: "refresh_objective tasks (JObj d) = Inr obj'"
  shows "objective_rolled_up tasks (JObj d) obj'"
proof -
  let ?rel = "filter (\<lambda>t. json_field t ''objective'' = JStr s) tasks"
  have g: "py_get (JObj d) ''id'' = Inr (JStr s)"
    using obj by (simp add: py_get_def py_get_default_def dict_get_def)
  have rel: "related_tasks tasks s = ?rel" by (rule related_tasks_eq[OF tasks])
  have reld: "list_all is_dict ?rel" using tasks by (auto simp: list_all_iff)
  have id: "json_field (JObj d) ''id'' = JStr s" using obj by (simp add: json_field_def)
  show ?thesis
  proof (cases "?rel = []")
    case True
    have "obj' = JObj d"
      using r by (simp add: refresh_objective_def g rel True)
    then show ?thesis using True id by (simp add: objective_rolled_up_def related_def)
  next
    case False
    have o': "obj' = JObj (dict_set d ''status'' (JStr (rollup (map (\<lambda>t. json_field t ''status'') ?rel))))"
      using r
      by (simp add: refresh_objective_def g rel False Let_def statuses_eq[OF reld] split: if_splits)
    have id': "json_field obj' ''id'' = JStr s"
      unfolding o' using id by (simp add: json_field_dict_set)
    have "json_field obj' ''status'' = rollup_status ?rel"
      unfolding o' by (simp add: json_field_dict_set rollup_eq)
    then show ?thesis using False id id' by (simp add: objective_rolled_up_def related_def)
  qed
qed

lemma refresh_loop_spec:
  assumes tasks: "list_all is_dict tasks"
  shows "list_all has_string_id objectives \<Longrightarrow> refresh_loop tasks objectives = Inr objectives' \<Longrightarrow>
     list_all2 (objective_rolled_up tasks) objectives objectives'"
proof (induction objectives arbitrary: objectives')
  case Nil
  then show ?case by simp
next
  case (Cons obj objectives)
  from Cons.prems(2) obtain obj' rest' where
    r: "refresh_objective tasks obj = Inr obj'" "refresh_loop tasks objectives = Inr rest'"
       "objectives' = obj' # rest'"
    by (auto simp: thenE_def split: sum.splits)
  from Cons.prems(1) obtain d s where o: "obj = JObj d" "dict_get d ''id'' = JStr s"
    by (auto simp: has_string_id_def)
  have h: "objective_rolled_up tasks obj obj'"
    using refresh_objective_spec[OF tasks o(2)] r(1) unfolding o(1) by simp
  have "list_all has_string_id objectives" using Cons.prems(1) by simp
  from Cons.IH[OF this r(2)] h show ?case unfolding r(3) by simp
qed

lemma refresh_objective_statuses_spec:
  assumes tasks: "dict_get_default plan ''tasks'' (JList []) = JList (plan_tasks plan)"
                 "list_all is_dict (plan_tasks plan)"
    and objs: "list_all has_string_id (plan_objectives plan)"
              "dict_get_default plan ''objectives'' (JList []) = JList (plan_objectives plan)"
    and r: "refresh_objective_statuses plan = Inr plan'"
  shows "objectives_rolled_up plan plan'" and "plan_tasks plan' = plan_tasks plan"
proof -
  let ?ts = "plan_tasks plan" and ?os = "plan_objectives plan"
  have it: "py_iter (dict_get_default plan ''tasks'' (JList [])) = Inr ?ts"
    using tasks(1) by (simp add: py_iter_def)
  have io: "py_iter (dict_get_default plan ''objectives'' (JList [])) = Inr ?os"
    using objs(2) by (simp add: py_iter_def)
  have ck: "checks (map (\<lambda>task. thenE (py_get task ''objective'') (\<lambda>v. Inr ())) ?ts) = Inr ()"
    unfolding checks_Inr_iff using tasks(2) by (auto simp: list_all_iff is_dict_py_get)
  have r': "thenE (refresh_loop ?ts ?os)
              (\<lambda>objectives'. if ?os = [] then Inr plan
                              else Inr (dict_set plan ''objectives'' (JList objectives'))) = Inr plan'"
    using r by (simp add: refresh_objective_statuses_def it io ck)
  then obtain os' where
    l: "refresh_loop ?ts ?os = Inr os'"
    and p: "plan' = (if ?os = [] then plan else dict_set plan ''objectives'' (JList os'))"
    by (cases "refresh_loop ?ts ?os") (auto split: if_splits)
  have os': "?os = [] \<Longrightarrow> os' = []" using l by auto
  have po: "plan_objectives plan' = os'"
    using p os' by (auto simp: plan_objectives_def dict_get_dict_set)
  show pt: "plan_tasks plan' = ?ts"
    using p by (auto simp: plan_tasks_def dict_get_dict_set)
  show "objectives_rolled_up plan plan'"
    unfolding objectives_rolled_up_def po pt
    by (rule refresh_loop_spec[OF tasks(2) objs(1) l])
qed

lemma schema_plan_objectives:
  assumes "schema_plan (JObj plan)"
  shows "dict_get_default plan ''objectives'' dflt = JList (plan_objectives plan)"
    and "list_all has_string_id (plan_objectives plan)"
proof -
  from assms obtain os where os: "dict_get plan ''objectives'' = JList os" "list_all schema_objective os"
    and k: "has_keys plan [''version'', ''objectives'', ''tasks''] []"
    by (auto simp: schema_plan_def split: json.splits)
  from k have "map_of plan ''objectives'' \<noteq> None"
    by (auto simp: has_keys_def map_of_eq_None_iff)
  then have "dict_get_default plan ''objectives'' dflt = dict_get plan ''objectives''"
    by (auto simp: dict_get_def dict_get_default_def)
  then show "dict_get_default plan ''objectives'' dflt = JList (plan_objectives plan)"
    using os by (simp add: plan_objectives_def)
  have "schema_objective x \<Longrightarrow> has_string_id x" for x
    by (auto simp: schema_objective_def has_string_id_def is_string_def split: json.splits)
  then show "list_all has_string_id (plan_objectives plan)"
    using os by (auto simp: plan_objectives_def list_all_iff)
qed

lemma schema_task_is_dict: "schema_task t \<Longrightarrow> is_dict t"
  by (auto simp: schema_task_def is_dict_def split: json.splits)

lemma assign_then_refresh:
  assumes sp: "schema_plan (JObj plan)"
    and f: "find_task plan task_id = Inr i"
    and r: "refresh_objective_statuses (assign_status plan i st) = Inr plan'"
  shows "objectives_rolled_up plan plan'"
    and "plan_tasks plan' = (plan_tasks plan)[i := JObj (dict_set (task_at plan i) ''status'' (JStr st))]"
proof -
  let ?p1 = "assign_status plan i st"
  note a = assign_status_tasks[OF f]
  have d: "list_all is_dict (plan_tasks ?p1)"
    unfolding a(1) using schema_plan_tasks(2)[OF sp] schema_task_is_dict
    by (auto simp: list_all_iff is_dict_def dest!: set_update_subset_insert[THEN subsetD])
  have t: "dict_get_default ?p1 ''tasks'' (JList []) = JList (plan_tasks ?p1)"
    using a(1,2) by simp
  have o: "list_all has_string_id (plan_objectives ?p1)"
          "dict_get_default ?p1 ''objectives'' (JList []) = JList (plan_objectives ?p1)"
    using schema_plan_objectives[OF sp] a(3,4) by simp_all
  from refresh_objective_statuses_spec[OF t d o r]
  have "objectives_rolled_up ?p1 plan'" "plan_tasks plan' = plan_tasks ?p1" by auto
  then show "objectives_rolled_up plan plan'"
    and "plan_tasks plan' = (plan_tasks plan)[i := JObj (dict_set (task_at plan i) ''status'' (JStr st))]"
    using a(1,4) by (simp_all add: objectives_rolled_up_def)
qed

text \<open>
  Claim C4. On a plan of the data model, after \<open>activate_task\<close>, \<open>finalize_task\<close> or
  \<open>reset_task_for_retry\<close> has returned, the objectives are the same objectives in the
  same order; each objective to which a task is related (the task's \<^verbatim>\<open>objective\<close> is
  the objective's \<^verbatim>\<open>id\<close>) has the status \<^verbatim>\<open>complete\<close> if all its related tasks are
  done, else \<^verbatim>\<open>in_progress\<close> if one of them is active, done, failed or blocked, else
  \<^verbatim>\<open>pending\<close>; an objective without related tasks is unchanged.
\<close>

theorem planner_mutations_roll_up:
  assumes "schema_plan (JObj plan)"
  shows "(activate_task plan task_id timeout_seconds = Inr (active_task, plan') \<longrightarrow>
            objectives_rolled_up plan plan') \<and>
         (finalize_task plan task_id status = Inr plan' \<longrightarrow> objectives_rolled_up plan plan') \<and>
         (reset_task_for_retry plan task_id = Inr plan' \<longrightarrow> objectives_rolled_up plan plan')"
  using assign_then_refresh(1)[OF assms]
  by (auto simp: activate_task_def finalize_task_def reset_task_for_retry_def thenE_def Let_def
      split: sum.splits)

subsection \<open>Selecting again after an activation\<close>

lemma refresh_keeps_tasks:
  assumes "refresh_objective_statuses p = Inr p'"
  shows "dict_get_default p' ''tasks'' dflt = dict_get_default p ''tasks'' dflt"
    and "plan_tasks p' = plan_tasks p"
proof -
  from assms have "p' = p \<or> (\<exists>os. p' = dict_set p ''objectives'' (JList os))"
    by (auto simp: refresh_objective_statuses_def thenE_def split: sum.splits if_splits)
  then show "dict_get_default p' ''tasks'' dflt = dict_get_default p ''tasks'' dflt"
    and "plan_tasks p' = plan_tasks p"
    by (auto simp: dict_get_default_dict_set plan_tasks_def dict_get_dict_set)
qed

lemma activate_task_tasks:
  assumes "activate_task plan task_id tmo = Inr (active, plan')"
  shows "\<exists>i d. find_task plan task_id = Inr i \<and> i < length (plan_tasks plan)
           \<and> plan_tasks plan ! i = JObj d \<and> dict_get d ''id'' = JStr task_id
           \<and> (\<forall>j < i. json_field (plan_tasks plan ! j) ''id'' \<noteq> JStr task_id)
           \<and> plan_tasks plan' = (plan_tasks plan)[i := JObj (dict_set d ''status'' (JStr ''active''))]
           \<and> dict_get_default plan' ''tasks'' (JList []) = JList (plan_tasks plan')"
proof -
  from assms obtain i where f: "find_task plan task_id = Inr i"
    and r: "refresh_objective_statuses (assign_status plan i ''active'') = Inr plan'"
    by (auto simp: activate_task_def thenE_def Let_def split: sum.splits)
  note a = assign_status_tasks[OF f]
  from find_task_Inr[OF f] have j: "\<forall>j < i. json_field (plan_tasks plan ! j) ''id'' \<noteq> JStr task_id"
    by auto
  have "plan_tasks plan' = (plan_tasks plan)[i := JObj (dict_set (task_at plan i) ''status'' (JStr ''active''))]"
    using refresh_keeps_tasks(2)[OF r] a(1) by simp
  moreover have "dict_get_default plan' ''tasks'' (JList []) = JList (plan_tasks plan')"
    using refresh_keeps_tasks[OF r] a(1,2) by simp
  ultimately show ?thesis using f a(5,6,7) j by blast
qed


lemma select_loop_Some:
  "select_loop tasks tm = Inr (Some task) \<Longrightarrow>
     \<exists>pre post. tasks = pre @ task # post
       \<and> (\<forall>u \<in> set pre. \<forall>rest. select_loop (u # rest) tm = select_loop rest tm)
       \<and> (\<forall>u \<in> set pre. py_get u ''status'' \<noteq> Inr (JStr ''active''))
       \<and> py_get task ''status'' = Inr (JStr ''pending'')"
proof (induction tasks)
  case Nil
  then show ?case by simp
next
  case (Cons u tasks)
  from Cons.prems obtain st where st: "py_get u ''status'' = Inr st" "st \<noteq> JStr ''active''"
    by (cases "py_get u ''status''") (auto split: if_splits)
  have step: ?case if skip: "\<forall>rest. select_loop (u # rest) tm = select_loop rest tm"
  proof -
    have r: "select_loop tasks tm = Inr (Some task)" using Cons.prems skip by simp
    from Cons.IH[OF r] obtain pre post where pp: "tasks = pre @ task # post"
       "\<forall>u \<in> set pre. \<forall>rest. select_loop (u # rest) tm = select_loop rest tm"
       "\<forall>u \<in> set pre. py_get u ''status'' \<noteq> Inr (JStr ''active'')"
       "py_get task ''status'' = Inr (JStr ''pending'')" by auto
    have "u # tasks = (u # pre) @ task # post" using pp(1) by simp
    moreover have "\<forall>v \<in> set (u # pre). \<forall>rest. select_loop (v # rest) tm = select_loop rest tm"
      using skip pp(2) by simp
    moreover have "\<forall>v \<in> set (u # pre). py_get v ''status'' \<noteq> Inr (JStr ''active'')"
      using st pp(3) by simp
    ultimately show ?thesis using pp(4) by blast
  qed
  show ?case
  proof (cases "st = JStr ''pending''")
    case False
    then have "\<forall>rest. select_loop (u # rest) tm = select_loop rest tm" using st by simp
    then show ?thesis by (rule step)
  next
    case p: True
    from st p obtain deps where d: "py_get_default u ''depends_on'' (JList []) = Inr deps"
      using Cons.prems by (cases "py_get_default u ''depends_on'' (JList [])") auto
    from st p d obtain ok where ok: "dependencies_satisfied deps tm = Inr ok"
      using Cons.prems by (cases "dependencies_satisfied deps tm") auto
    show ?thesis
    proof (cases ok)
      case False
      then have "\<forall>rest. select_loop (u # rest) tm = select_loop rest tm" using st p d ok by simp
      then show ?thesis by (rule step)
    next
      case True
      then have "u = task" using Cons.prems st p d ok by simp
      then have "u # tasks = [] @ task # tasks" "py_get task ''status'' = Inr (JStr ''pending'')"
        using st p by simp_all
      then show ?thesis by force
    qed
  qed
qed

lemma dependencies_loop_cong:
  assumes has: "\<forall>s. dict_has tm' s = dict_has tm s"
    and st: "\<forall>s. dict_has tm s \<longrightarrow>
               (\<exists>a b. py_get (dict_get tm s) ''status'' = Inr a \<and> py_get (dict_get tm' s) ''status'' = Inr b
                      \<and> (a = JStr ''done'' \<longleftrightarrow> b = JStr ''done''))"
  shows "dependencies_loop deps tm' = dependencies_loop deps tm"
proof (induction deps)
  case Nil
  then show ?case by simp
next
  case (Cons dep deps)
  show ?case
  proof (cases dep)
    case (JStr s)
    show ?thesis
    proof (cases "dict_has tm s")
      case True
      from st True obtain a b where ab: "py_get (dict_get tm s) ''status'' = Inr a"
        "py_get (dict_get tm' s) ''status'' = Inr b" "a = JStr ''done'' \<longleftrightarrow> b = JStr ''done''" by blast
      show ?thesis using JStr True has ab Cons by auto
    next
      case False
      then show ?thesis using JStr has by simp
    qed
  qed simp_all
qed

lemma select_loop_skip_cong:
  assumes "\<forall>deps. dependencies_loop deps tm' = dependencies_loop deps tm"
    and "\<forall>rest. select_loop (u # rest) tm = select_loop rest tm"
    and "py_get u ''status'' \<noteq> Inr (JStr ''active'')"
  shows "select_loop (u # rest) tm' = select_loop rest tm'"
proof (cases "py_get u ''status''")
  case (Inl e)
  then show ?thesis using assms(2)[rule_format, of "[]"] by simp
next
  case (Inr st)
  show ?thesis
  proof (cases "st = JStr ''pending''")
    case False
    then show ?thesis using Inr assms(3) by simp
  next
    case True
    show ?thesis
    proof (cases "py_get_default u ''depends_on'' (JList [])")
      case (Inl e)
      then show ?thesis using assms(2)[rule_format, of "[]"] Inr True by simp
    next
      case d: (Inr deps)
      have eq: "dependencies_satisfied deps tm' = dependencies_satisfied deps tm"
        using assms(1) by (simp add: dependencies_satisfied_def split: json.splits)
      show ?thesis
      proof (cases "dependencies_satisfied deps tm")
        case (Inl e)
        then show ?thesis using assms(2)[rule_format, of "[]"] Inr True d by simp
      next
        case ok: (Inr ok)
        have "\<not> ok" using assms(2)[rule_format, of "[]"] Inr True d ok by auto
        then show ?thesis using Inr True d ok eq by simp
      qed
    qed
  qed
qed


lemma find_append_case:
  "find P (xs @ ys) = (case find P xs of None \<Rightarrow> find P ys | Some x \<Rightarrow> Some x)"
  by (induction xs) auto

lemma select_loop_skip_all:
  assumes "\<forall>deps. dependencies_loop deps tm' = dependencies_loop deps tm"
  shows "\<forall>u \<in> set pre. \<forall>rest. select_loop (u # rest) tm = select_loop rest tm \<Longrightarrow>
         \<forall>u \<in> set pre. py_get u ''status'' \<noteq> Inr (JStr ''active'') \<Longrightarrow>
         select_loop (pre @ rest) tm' = select_loop rest tm'"
proof (induction pre)
  case Nil
  then show ?case by simp
next
  case (Cons u pre)
  have "select_loop (u # (pre @ rest)) tm' = select_loop (pre @ rest) tm'"
    by (rule select_loop_skip_cong[OF assms]) (use Cons.prems in simp_all)
  then show ?case using Cons by simp
qed

lemma well_keyed_is_dict: "well_keyed t \<Longrightarrow> is_dict t"
  by (auto simp: well_keyed_def is_dict_def)

lemma reselect_after_activate:
  assumes sel: "select_next_task plan = Inr (Some task)"
      and act: "activate_task plan (task_id_of task) tmo = Inr (active, plan')"
  shows "select_next_task plan' = Inl (PlannerError ''Plan contains an active task without execution context.'')"
    and "status_in_plan plan' (task_id_of task) = Some (JStr ''active'')"
proof -
  let ?tid = "task_id_of task"
  from sel obtain tasks tm where it: "py_iter (dict_get_default plan ''tasks'' (JList [])) = Inr tasks"
    and tmap: "task_map tasks = Inr tm" and sl: "select_loop tasks tm = Inr (Some task)"
    by (auto simp: select_next_task_def thenE_def split: sum.splits)
  from select_loop_Some[OF sl] obtain pre post where pp: "tasks = pre @ task # post"
    and skips: "\<forall>u \<in> set pre. \<forall>rest. select_loop (u # rest) tm = select_loop rest tm"
    and nact: "\<forall>u \<in> set pre. py_get u ''status'' \<noteq> Inr (JStr ''active'')"
    and pend: "py_get task ''status'' = Inr (JStr ''pending'')" by blast
  from task_map_loop_Inr[OF tmap[unfolded task_map_def]]
  have wk: "list_all well_keyed tasks" and dist: "distinct (map task_id_of tasks)" by auto
  have wkt: "well_keyed task" using wk pp by simp
  then obtain d where d: "task = JObj d" "dict_get d ''id'' = JStr ?tid" "?tid \<noteq> []"
    using well_keyed_id[OF wkt] by (auto simp: well_keyed_def json_field_def)
  have "task \<in> set tasks" using pp by simp
  from py_iter_dicts[OF it this d(1)] have jl: "dict_get_default plan ''tasks'' (JList []) = JList tasks" .
  have pt: "plan_tasks plan = tasks"
    using jl pp by (auto simp: plan_tasks_def dict_get_def dict_get_default_def split: option.splits)
  from activate_task_tasks[OF act] obtain i d' where
    i: "i < length tasks" "tasks ! i = JObj d'" "dict_get d' ''id'' = JStr ?tid"
       "plan_tasks plan' = tasks[i := JObj (dict_set d' ''status'' (JStr ''active''))]"
       "dict_get_default plan' ''tasks'' (JList []) = JList (plan_tasks plan')"
    unfolding pt by blast
  have "task_id_of (tasks ! i) = ?tid" using i(2,3) by (simp add: task_id_of_def)
  moreover have "task_id_of (tasks ! length pre) = ?tid" using pp by simp
  moreover have "length pre < length tasks" using pp by simp
  ultimately have ieq: "i = length pre"
    using dist i(1) by (metis length_map nth_eq_iff_index_eq nth_map)
  then have dd: "d' = d" using i(2) pp d(1) by simp
  let ?task' = "JObj (dict_set d ''status'' (JStr ''active''))"
  let ?tasks1 = "pre @ ?task' # post"
  have t1: "plan_tasks plan' = ?tasks1" using i(4) ieq dd pp by simp
  have id': "task_id_of ?task' = ?tid" "json_field ?task' ''id'' = JStr ?tid"
    using d(2) by (simp_all add: task_id_of_def json_field_def dict_get_dict_set)
  have wk1: "list_all well_keyed ?tasks1"
    using wk pp d(2,3) by (auto simp: well_keyed_def dict_get_dict_set)
  have ids1: "map task_id_of ?tasks1 = map task_id_of tasks" using pp id' by simp
  have d1: "distinct (map task_id_of ?tasks1)" unfolding ids1 by (rule dist)
  have "\<forall>t \<in> set ?tasks1. map_of [] (task_id_of t) = None" by simp
  from task_map_loop_ok[OF wk1 d1 this] obtain tm1 where "task_map_loop ?tasks1 [] = Inr tm1" by blast
  then have tmap1: "task_map ?tasks1 = Inr tm1" by (simp add: task_map_def)
  have npre: "find (\<lambda>t. json_field t ''id'' = JStr ?tid) pre = None"
  proof -
    have "?tid \<notin> set (map task_id_of pre)" using dist pp by auto
    then have "find (\<lambda>t. task_id_of t = ?tid) pre = None" by (rule find_None_ids)
    moreover have "list_all well_keyed pre" using wk pp by simp
    ultimately show ?thesis using find_cong_ids[of pre ?tid] by simp
  qed
  have lk: "map_of tm s = find (\<lambda>t. json_field t ''id'' = JStr s) (pre @ task # post)" for s
    using task_map_lookup[OF tmap] pp by simp
  have lk1: "map_of tm1 s = find (\<lambda>t. json_field t ''id'' = JStr s) ?tasks1" for s
    using task_map_lookup[OF tmap1] by simp
  have idt: "json_field task ''id'' = JStr ?tid" using d by (simp add: json_field_def)
  have other: "map_of tm1 s = map_of tm s" if "s \<noteq> ?tid" for s
    using that lk[of s] lk1[of s] idt id'(2) by (simp add: find_append_case split: option.splits)
  have self: "map_of tm ?tid = Some task" "map_of tm1 ?tid = Some ?task'"
    using lk[of ?tid] lk1[of ?tid] idt id'(2) npre by (simp_all add: find_append_case)
  have has: "\<forall>s. dict_has tm1 s = dict_has tm s"
  proof
    fix s show "dict_has tm1 s = dict_has tm s"
      by (cases "s = ?tid") (simp_all add: dict_has_def other self)
  qed
  have st: "\<forall>s. dict_has tm s \<longrightarrow>
               (\<exists>a b. py_get (dict_get tm s) ''status'' = Inr a \<and> py_get (dict_get tm1 s) ''status'' = Inr b
                      \<and> (a = JStr ''done'' \<longleftrightarrow> b = JStr ''done''))"
  proof (intro allI impI)
    fix s assume h: "dict_has tm s"
    show "\<exists>a b. py_get (dict_get tm s) ''status'' = Inr a \<and> py_get (dict_get tm1 s) ''status'' = Inr b
                      \<and> (a = JStr ''done'' \<longleftrightarrow> b = JStr ''done'')"
    proof (cases "s = ?tid")
      case True
      have "dict_get tm s = task" "dict_get tm1 s = ?task'"
        using self True by (simp_all add: dict_get_def dict_get_default_def)
      moreover have "py_get ?task' ''status'' = Inr (JStr ''active'')"
        by (simp add: py_get_def py_get_default_def dict_get_default_def map_of_dict_set)
      ultimately show ?thesis using pend by simp
    next
      case False
      from h obtain u where u: "map_of tm s = Some u" by (auto simp: dict_has_def)
      then have "u \<in> set tasks" using task_map_lookup[OF tmap, of s] by (auto simp: find_Some_iff)
      then have "is_dict u" using wk well_keyed_is_dict by (auto simp: list_all_iff)
      then have "py_get u ''status'' = Inr (json_field u ''status'')" by (rule is_dict_py_get)
      moreover have "dict_get tm s = u" "dict_get tm1 s = u"
        using u other[OF False] by (simp_all add: dict_get_def dict_get_default_def)
      ultimately show ?thesis by simp
    qed
  qed
  have dl: "\<forall>deps. dependencies_loop deps tm1 = dependencies_loop deps tm"
    using dependencies_loop_cong[OF has st] by simp
  have "select_loop ?tasks1 tm1 = select_loop (?task' # post) tm1"
    by (rule select_loop_skip_all[OF dl skips nact])
  also have "\<dots> = Inl (PlannerError ''Plan contains an active task without execution context.'')"
    by (simp add: py_get_def py_get_default_def dict_get_default_def map_of_dict_set)
  finally have "select_loop ?tasks1 tm1 = Inl (PlannerError ''Plan contains an active task without execution context.'')" .
  then show "select_next_task plan' = Inl (PlannerError ''Plan contains an active task without execution context.'')"
    using i(5) t1 tmap1 by (simp add: select_next_task_def py_iter_def)
  have "find (\<lambda>t. json_field t ''id'' = JStr ?tid) ?tasks1 = Some ?task'"
    using npre id'(2) by (simp add: find_append_case)
  then show "status_in_plan plan' ?tid = Some (JStr ''active'')"
    unfolding status_in_plan_def t1 by (simp add: json_field_def dict_get_dict_set)
qed

subsection \<open>What the operations of the store change\<close>

lemma frameD:
  "frame P m \<Longrightarrow> m w = (r, w') \<Longrightarrow> retry_tracker w' = retry_tracker w \<and> (\<forall>q. q \<notin> P \<longrightarrow> fs w' q = fs w q)"
  by (auto simp: frame_def dest: spec[of _ w])

lemma frame_mono: "frame P m \<Longrightarrow> P \<subseteq> Q \<Longrightarrow> frame Q m"
  by (auto simp: frame_def)

lemma frame_return [intro!, simp]: "frame P (io_return x)" by (simp add: frame_def)
lemma frame_raise [intro!, simp]: "frame P (io_raise e)" by (simp add: frame_def)
lemma frame_lift [intro!, simp]: "frame P (io_lift r)" by (simp add: frame_def)

lemma frame_bind [intro!]:
  assumes "frame P m" "\<And>x. frame P (f x)"
  shows "frame P (io_bind m f)"
  unfolding frame_def
proof (intro allI)
  fix w
  obtain r w1 where m: "m w = (r, w1)" by (cases "m w")
  note f1 = frameD[OF assms(1) m]
  show "retry_tracker (snd (io_bind m f w)) = retry_tracker w
          \<and> (\<forall>q. q \<notin> P \<longrightarrow> fs (snd (io_bind m f w)) q = fs w q)"
  proof (cases r)
    case (Inl e)
    then show ?thesis using m f1 by (simp add: io_bind_def)
  next
    case (Inr x)
    obtain r2 w2 where f: "f x w1 = (r2, w2)" by (cases "f x w1")
    from frameD[OF assms(2) f] f1 Inr m f show ?thesis by (simp add: io_bind_def)
  qed
qed

lemma frame_then [intro!]: "frame P m \<Longrightarrow> frame P k \<Longrightarrow> frame P (io_then m k)"
  unfolding io_then_def by (rule frame_bind)

lemma frame_if_world:
  "frame P m \<Longrightarrow> frame P n \<Longrightarrow> frame P (\<lambda>w. if c w then m w else n w)"
  by (simp add: frame_def)

lemma frame_if [intro!]: "frame P m \<Longrightarrow> frame P n \<Longrightarrow> frame P (if c then m else n)"
  by simp

lemma frame_case_option [intro!]:
  "frame P m \<Longrightarrow> (\<And>x. frame P (f x)) \<Longrightarrow> frame P (case v of None \<Rightarrow> m | Some x \<Rightarrow> f x)"
  by (cases v) simp_all

lemma frame_case_prod [intro!]:
  "(\<And>a b. frame P (f a b)) \<Longrightarrow> frame P (case v of (a, b) \<Rightarrow> f a b)"
  by (cases v) simp

lemma frame_read_text [intro!, simp]: "frame P (read_text p)"
  by (auto simp: frame_def read_text_def split: option.splits entry.splits)

lemma frame_ensure_parent_dir [intro!, simp]: "frame P (ensure_parent_dir p)"
  by (simp add: frame_def ensure_parent_dir_def)

lemma frame_atomic_write_bytes: "frame {p} (atomic_write_bytes p c)"
  by (simp add: frame_def atomic_write_bytes_def)

lemma frame_atomic_write_text: "frame {p} (atomic_write_text E S p c)"
  unfolding atomic_write_text_def by (intro frame_then frame_lift frame_ensure_parent_dir frame_atomic_write_bytes)

lemma frame_atomic_write_json: "frame {p} (atomic_write_json E S p j)"
  unfolding atomic_write_json_def
  by (cases j) (auto intro!: frame_then frame_atomic_write_bytes)

lemma frame_read_json_object [intro!, simp]: "frame P (read_json_object E p)"
  unfolding read_json_object_def
  by (intro frame_bind frame_read_text) (auto split: option.splits json.splits)

lemma frame_write_plan: "frame {plan_path S} (write_plan E S j)"
  unfolding write_plan_def by (intro frame_then frame_if frame_lift frame_return frame_atomic_write_json)

lemma frame_write_active_task: "frame {active_task_path S} (write_active_task E S j)"
  unfolding write_active_task_def by (intro frame_then frame_if frame_lift frame_return frame_atomic_write_json)

lemma frame_write_last_result: "frame {last_result_path S} (write_last_result E S j)"
  unfolding write_last_result_def by (intro frame_then frame_if frame_lift frame_return frame_atomic_write_json)

lemma frame_write_progress: "frame {progress_path S} (planner_write_progress E S plan)"
  unfolding planner_write_progress_def write_progress_def
  by (intro frame_bind frame_lift frame_atomic_write_text)

lemma frame_write_summary: "frame {summary_path S} (write_summary E S c)"
  unfolding write_summary_def by (rule frame_atomic_write_text)

lemma frame_load_summary [intro!, simp]: "frame P (load_summary S)"
  by (auto simp: frame_def load_summary_def read_text_def split: option.splits entry.splits)

lemma frame_append_summary: "frame {summary_path S} (append_summary E S entry)"
  unfolding append_summary_def Let_def
  by (intro frame_if_world frame_bind frame_if frame_write_summary frame_load_summary)

lemma frame_daemon_append_summary: "frame {summary_path S} (daemon_append_summary E S tid st payload)"
  unfolding daemon_append_summary_def by (intro frame_bind frame_lift frame_append_summary)

lemma frame_clear_active_task: "frame {active_task_path S} (clear_active_task E S)"
  by (auto simp: frame_def clear_active_task_def io_then_def io_bind_def io_lift_def split: sum.splits)

lemma frame_load_plan [intro!, simp]: "frame P (load_plan E S)"
  unfolding load_plan_def by (intro frame_bind frame_then frame_if) auto

lemma frame_ensure_plan: "frame {plan_path S} (ensure_plan E S)"
  unfolding ensure_plan_def Let_def
  by (intro frame_if_world frame_then frame_write_plan frame_return frame_load_plan)

lemma Path_of_names:
  "Path_of PLAN_FILENAME = Path [] [''PLAN.yaml'']"
  "Path_of ACTIVE_TASK_FILENAME = Path [] [''ACTIVE_TASK.yaml'']"
  "Path_of SUMMARY_FILENAME = Path [] [''SUMMARY.md'']"
  "Path_of LAST_RESULT_FILENAME = Path [] [''LAST_RESULT.json'']"
  "Path_of PROGRESS_FILENAME = Path [] [''PROGRESS.yaml'']"
  by code_simp+

lemma state_paths:
  "plan_path S = Path (root (ai_dir S)) (parts (ai_dir S) @ [''PLAN.yaml''])"
  "active_task_path S = Path (root (ai_dir S)) (parts (ai_dir S) @ [''ACTIVE_TASK.yaml''])"
  "summary_path S = Path (root (ai_dir S)) (parts (ai_dir S) @ [''SUMMARY.md''])"
  "last_result_path S = Path (root (ai_dir S)) (parts (ai_dir S) @ [''LAST_RESULT.json''])"
  "progress_path S = Path (root (ai_dir S)) (parts (ai_dir S) @ [''PROGRESS.yaml''])"
  by (simp_all add: plan_path_def active_task_path_def summary_path_def last_result_path_def
        progress_path_def Path_of_names joinpath_def is_absolute_def)

lemma state_paths_distinct:
  "plan_path S \<noteq> active_task_path S" "plan_path S \<noteq> progress_path S"
  "plan_path S \<noteq> last_result_path S" "plan_path S \<noteq> summary_path S"
  "active_task_path S \<noteq> progress_path S" "active_task_path S \<noteq> last_result_path S"
  "active_task_path S \<noteq> summary_path S" "active_task_path S \<noteq> plan_path S"
  by (simp_all add: state_paths)

lemma io_bind_InrD:
  "io_bind m f w = (Inr y, w') \<Longrightarrow> \<exists>x w1. m w = (Inr x, w1) \<and> f x w1 = (Inr y, w')"
  by (auto simp: io_bind_def split: prod.splits sum.splits)

lemma io_then_InrD:
  "io_then m k w = (Inr y, w') \<Longrightarrow> \<exists>w1. m w = (Inr (), w1) \<and> k w1 = (Inr y, w')"
  by (auto simp: io_then_def io_bind_def split: prod.splits sum.splits)

lemma io_lift_D: "io_lift r w = (x, w') \<Longrightarrow> r = x \<and> w' = w"
  by (simp add: io_lift_def)

lemma atomic_write_json_Inr:
  assumes "atomic_write_json E S p j w = (Inr (), w')"
  shows "w' = w\<lparr>fs := (fs w)(p \<mapsto> File (Json_Dump j))\<rparr>" and "ensure_writable_path E S p = Inr ()"
    and "fs w p \<noteq> Some Dir"
  using assms
  by (cases j; auto simp: atomic_write_json_def io_then_def io_bind_def io_lift_def
        ensure_parent_dir_def atomic_write_bytes_def split: sum.splits if_splits)+

lemma write_plan_Inr:
  assumes "write_plan E S j w = (Inr (), w')"
  shows "w' = w\<lparr>fs := (fs w)(plan_path S \<mapsto> File (Json_Dump j))\<rparr>"
    and "StateStore.strict_schema_validation S \<longrightarrow> validate_plan j = Inr ()"
proof -
  from io_then_InrD[OF assms[unfolded write_plan_def]] obtain w1 where
    v: "(if StateStore.strict_schema_validation S then io_lift (validate_plan j) else io_return ()) w = (Inr (), w1)"
    and a: "atomic_write_json E S (plan_path S) j w1 = (Inr (), w')" by blast
  from v have w1: "w1 = w" by (auto split: if_splits)
  show "w' = w\<lparr>fs := (fs w)(plan_path S \<mapsto> File (Json_Dump j))\<rparr>"
    using atomic_write_json_Inr(1)[OF a] w1 by simp
  show "StateStore.strict_schema_validation S \<longrightarrow> validate_plan j = Inr ()"
    using v by (auto split: if_splits)
qed

lemma write_active_task_Inr:
  assumes "write_active_task E S j w = (Inr (), w')"
  shows "w' = w\<lparr>fs := (fs w)(active_task_path S \<mapsto> File (Json_Dump j))\<rparr>"
    and "ensure_writable_path E S (active_task_path S) = Inr ()"
proof -
  from io_then_InrD[OF assms[unfolded write_active_task_def]] obtain w1 where
    v: "(if StateStore.strict_schema_validation S then io_lift (validate_active_task j) else io_return ()) w = (Inr (), w1)"
    and a: "atomic_write_json E S (active_task_path S) j w1 = (Inr (), w')" by blast
  from v have w1: "w1 = w" by (auto split: if_splits)
  show "w' = w\<lparr>fs := (fs w)(active_task_path S \<mapsto> File (Json_Dump j))\<rparr>"
    using atomic_write_json_Inr(1)[OF a] w1 by simp
  show "ensure_writable_path E S (active_task_path S) = Inr ()"
    by (rule atomic_write_json_Inr(2)[OF a])
qed

lemma clear_active_task_present:
  assumes "fs w (active_task_path S) = Some (File c)" "ensure_writable_path E S (active_task_path S) = Inr ()"
  shows "clear_active_task E S w = (Inr (), w\<lparr>fs := (fs w)(active_task_path S := None)\<rparr>)"
  using assms by (simp add: clear_active_task_def path_exists_def io_then_def io_bind_def)

lemma begin_iteration_Some:
  assumes "begin_iteration E S config w = (Inr (Some (plan', task_id, active_task)), w1)"
  shows "\<exists>plan task. select_next_task plan = Inr (Some task) \<and> task_id = task_id_of task
            \<and> activate_task plan task_id (task_timeout_seconds config) = Inr (active_task, plan')"
    and "fs w1 (plan_path S) = Some (File (Json_Dump (JObj plan')))"
    and "fs w1 (active_task_path S) = Some (File (Json_Dump (JObj active_task)))"
    and "ensure_writable_path E S (active_task_path S) = Inr ()"
    and "StateStore.strict_schema_validation S \<longrightarrow> validate_plan (JObj plan') = Inr ()"
    and "retry_tracker w1 = retry_tracker w"
    and "fs w (active_task_path S) = None"
proof -
  from assms have ne: "\<not> path_exists w (active_task_path S)"
    by (auto simp: begin_iteration_def split: if_splits)
  then show "fs w (active_task_path S) = None" by (simp add: path_exists_def)
  from assms ne have b: "io_bind (ensure_plan E S) (\<lambda>plan.
            io_bind (io_lift (select_next_task plan)) (\<lambda>selected.
              case selected of
                None \<Rightarrow> io_return None
              | Some task \<Rightarrow>
                  io_bind (io_lift (activate_task plan (task_id_of task) (task_timeout_seconds config)))
                    (\<lambda>(active_task, plan').
                  io_then (write_plan E S (JObj plan'))
                 (io_then (planner_write_progress E S plan')
                 (io_then (write_active_task E S (JObj active_task))
                          (io_return (Some (plan', task_id_of task, active_task)))))))) w
         = (Inr (Some (plan', task_id, active_task)), w1)"
    by (simp add: begin_iteration_def)
  from io_bind_InrD[OF b] obtain plan w0 where ep: "ensure_plan E S w = (Inr plan, w0)"
    and b1: "io_bind (io_lift (select_next_task plan)) (\<lambda>selected.
              case selected of
                None \<Rightarrow> io_return None
              | Some task \<Rightarrow>
                  io_bind (io_lift (activate_task plan (task_id_of task) (task_timeout_seconds config)))
                    (\<lambda>(active_task, plan').
                  io_then (write_plan E S (JObj plan'))
                 (io_then (planner_write_progress E S plan')
                 (io_then (write_active_task E S (JObj active_task))
                          (io_return (Some (plan', task_id_of task, active_task))))))) w0
         = (Inr (Some (plan', task_id, active_task)), w1)" by blast
  from io_bind_InrD[OF b1] obtain selected w0' where
    s: "io_lift (select_next_task plan) w0 = (Inr selected, w0')"
    and b2: "(case selected of
                None \<Rightarrow> io_return None
              | Some task \<Rightarrow>
                  io_bind (io_lift (activate_task plan (task_id_of task) (task_timeout_seconds config)))
                    (\<lambda>(active_task, plan').
                  io_then (write_plan E S (JObj plan'))
                 (io_then (planner_write_progress E S plan')
                 (io_then (write_active_task E S (JObj active_task))
                          (io_return (Some (plan', task_id_of task, active_task))))))) w0'
         = (Inr (Some (plan', task_id, active_task)), w1)" by blast
  from io_lift_D[OF s] have sel: "select_next_task plan = Inr selected" and w0': "w0' = w0" by auto
  from b2 obtain task where task: "selected = Some task" by (cases selected) auto
  from b2 task w0' have b3: "io_bind (io_lift (activate_task plan (task_id_of task) (task_timeout_seconds config)))
                    (\<lambda>(active_task, plan').
                  io_then (write_plan E S (JObj plan'))
                 (io_then (planner_write_progress E S plan')
                 (io_then (write_active_task E S (JObj active_task))
                          (io_return (Some (plan', task_id_of task, active_task)))))) w0
         = (Inr (Some (plan', task_id, active_task)), w1)" by simp
  from io_bind_InrD[OF b3] obtain ap w0'' where
    a: "io_lift (activate_task plan (task_id_of task) (task_timeout_seconds config)) w0 = (Inr ap, w0'')"
    and b4: "(case ap of (active_task, plan') \<Rightarrow>
                  io_then (write_plan E S (JObj plan'))
                 (io_then (planner_write_progress E S plan')
                 (io_then (write_active_task E S (JObj active_task))
                          (io_return (Some (plan', task_id_of task, active_task)))))) w0''
         = (Inr (Some (plan', task_id, active_task)), w1)" by blast
  obtain act p2 where ap: "ap = (act, p2)" by (cases ap)
  from io_lift_D[OF a] ap have act: "activate_task plan (task_id_of task) (task_timeout_seconds config) = Inr (act, p2)"
    and w0'': "w0'' = w0" by auto
  from b4 ap w0'' have b5: "io_then (write_plan E S (JObj p2))
                 (io_then (planner_write_progress E S p2)
                 (io_then (write_active_task E S (JObj act))
                          (io_return (Some (p2, task_id_of task, act))))) w0
         = (Inr (Some (plan', task_id, active_task)), w1)" by simp
  from io_then_InrD[OF b5] obtain wa where wp: "write_plan E S (JObj p2) w0 = (Inr (), wa)"
    and b6: "io_then (planner_write_progress E S p2)
                 (io_then (write_active_task E S (JObj act))
                          (io_return (Some (p2, task_id_of task, act)))) wa
         = (Inr (Some (plan', task_id, active_task)), w1)" by blast
  from io_then_InrD[OF b6] obtain wb where wpr: "planner_write_progress E S p2 wa = (Inr (), wb)"
    and b7: "io_then (write_active_task E S (JObj act))
                          (io_return (Some (p2, task_id_of task, act))) wb
         = (Inr (Some (plan', task_id, active_task)), w1)" by blast
  from io_then_InrD[OF b7] obtain wc where wat: "write_active_task E S (JObj act) wb = (Inr (), wc)"
    and b8: "io_return (Some (p2, task_id_of task, act)) wc = (Inr (Some (plan', task_id, active_task)), w1)"
    by blast
  from b8 have eqs: "p2 = plan'" "task_id = task_id_of task" "act = active_task" "wc = w1"
    by (simp_all add: io_return_def)
  show "\<exists>plan task. select_next_task plan = Inr (Some task) \<and> task_id = task_id_of task
            \<and> activate_task plan task_id (task_timeout_seconds config) = Inr (active_task, plan')"
    using sel task act eqs by blast
  note fp = frameD[OF frame_write_progress wpr]
  note wa_eq = write_plan_Inr[OF wp]
  note wc_eq = write_active_task_Inr[OF wat]
  show "fs w1 (plan_path S) = Some (File (Json_Dump (JObj plan')))"
    using wa_eq(1) wc_eq(1) fp eqs state_paths_distinct by simp
  show "fs w1 (active_task_path S) = Some (File (Json_Dump (JObj active_task)))"
    using wc_eq(1) eqs by simp
  show "ensure_writable_path E S (active_task_path S) = Inr ()" by (rule wc_eq(2))
  show "StateStore.strict_schema_validation S \<longrightarrow> validate_plan (JObj plan') = Inr ()"
    using wa_eq(2) eqs by simp
  show "retry_tracker w1 = retry_tracker w"
    using frameD[OF frame_ensure_plan ep] wa_eq(1) fp wc_eq(1) eqs by simp
qed

subsection \<open>The second part of an iteration\<close>

lemma ensure_writable_path_errors:
  "ensure_writable_path E S p = Inl e \<Longrightarrow>
   e \<in> {ReadOnlyStateError, StateError, ValueError, UnicodeEncodeError, RuntimeError, OSError}"
  using Path_resolve_errors[of E p e]
  by (cases "Path_resolve E p") (auto simp: ensure_writable_path_def split: if_splits)

lemma atomic_write_json_Inl:
  assumes "atomic_write_json E S p (JObj d) w = (Inl e, w')"
  shows "e \<in> {ReadOnlyStateError, StateError, MissingStateError, OSError,
             ValueError, UnicodeEncodeError, RuntimeError}" and "w' = w"
proof -
  show "w' = w" using assms
    by (auto simp: atomic_write_json_def io_then_def io_bind_def io_lift_def
          ensure_parent_dir_def atomic_write_bytes_def split: sum.splits if_splits)
  show "e \<in> {ReadOnlyStateError, StateError, MissingStateError, OSError,
             ValueError, UnicodeEncodeError, RuntimeError}"
  proof (cases "ensure_writable_path E S p")
    case (Inl e')
    then have "e = e'" using assms by (simp add: atomic_write_json_def io_then_def io_bind_def)
    then show ?thesis using ensure_writable_path_errors[OF Inl] by auto
  next
    case (Inr u)
    then show ?thesis using assms
      by (auto simp: atomic_write_json_def io_then_def io_bind_def io_lift_def
          ensure_parent_dir_def atomic_write_bytes_def split: sum.splits if_splits)
  qed
qed

lemma write_last_result_cases:
  "write_last_result E S (JObj payload) w =
     (if StateStore.strict_schema_validation S \<and> \<not> schema_agent_result (JObj payload)
      then (Inl StateValidationError, w)
      else atomic_write_json E S (last_result_path S) (JObj payload) w)"
  by (simp add: write_last_result_def io_then_def io_bind_def validate_codex_result_eq)

lemma write_last_result_Inl:
  assumes "write_last_result E S (JObj payload) w = (Inl e, w')"
  shows "e \<in> {StateValidationError, ReadOnlyStateError, StateError, MissingStateError, OSError,
             ValueError, UnicodeEncodeError, RuntimeError}" and "w' = w"
  using assms atomic_write_json_Inl[of E S "last_result_path S" payload w e w']
  by (auto simp: write_last_result_cases split: if_splits)

lemma write_last_result_Inr:
  assumes "write_last_result E S (JObj payload) w = (Inr (), w')"
  shows "w' = w\<lparr>fs := (fs w)(last_result_path S \<mapsto> File (Json_Dump (JObj payload)))\<rparr>"
    and "StateStore.strict_schema_validation S \<longrightarrow> schema_agent_result (JObj payload)"
  using assms atomic_write_json_Inr(1)[of E S "last_result_path S" "JObj payload" w w']
  by (auto simp: write_last_result_cases split: if_splits)

lemma run_task_cases:
  "run_task config reply = Inl e \<Longrightarrow> e \<in> {MCPProcessError, MCPProtocolError, ValueError, OSError}"
  by (auto simp: run_task_def split: if_splits agent_reply.splits)

lemma run_task_Some:
  "run_task config reply = Inr (Some (payload, stderr)) \<Longrightarrow> reply = Agent_result payload stderr"
  by (auto simp: run_task_def split: if_splits agent_reply.splits)

lemma receive_result_cases:
  assumes a: "fs w1 (active_task_path S) = Some (File c)"
    and e: "ensure_writable_path E S (active_task_path S) = Inr ()"
    and r: "receive_result E S config prj reply w1 = (res, w2)"
  shows "(\<exists>er. res = Inl er \<and> w2 = w1 \<and> er \<in> {MCPProcessError, MCPProtocolError, ValueError, OSError,
                                              StopExecution ''Timed out waiting for MCP response.''})
       \<or> (\<exists>er. res = Inl er \<and> w2 = w1\<lparr>fs := (fs w1)(active_task_path S := None)\<rparr>
               \<and> er \<in> {StateValidationError, ReadOnlyStateError, StateError, MissingStateError, OSError,
             ValueError, UnicodeEncodeError, RuntimeError})
       \<or> (\<exists>payload stderr. reply = Agent_result payload stderr
               \<and> w2 = w1\<lparr>fs := (fs w1)(active_task_path S := None,
                                         last_result_path S \<mapsto> File (Json_Dump (JObj payload)))\<rparr>
               \<and> (StateStore.strict_schema_validation S \<longrightarrow> schema_agent_result (JObj payload))
               \<and> res = thenE (policy_check E S prj payload) (\<lambda>u. Inr payload))"
proof (cases "run_task config reply")
  case (Inl er)
  then have "res = Inl er" "w2 = w1" using r by (simp_all add: receive_result_def io_bind_def)
  then show ?thesis using run_task_cases[OF Inl] by auto
next
  case (Inr x)
  show ?thesis
  proof (cases x)
    case None
    then have "res = Inl (StopExecution ''Timed out waiting for MCP response.'')" "w2 = w1"
      using r Inr by (simp_all add: receive_result_def io_bind_def)
    then show ?thesis by simp
  next
    case (Some ps)
    obtain payload stderr where ps: "ps = (payload, stderr)" by (cases ps)
    let ?wc = "w1\<lparr>fs := (fs w1)(active_task_path S := None)\<rparr>"
    have cl: "clear_active_task E S w1 = (Inr (), ?wc)" by (rule clear_active_task_present[OF a e])
    have rr: "(res, w2) = (case write_last_result E S (JObj payload) ?wc of
                 (Inl er, w') \<Rightarrow> (Inl er, w')
               | (Inr u, w') \<Rightarrow> (case policy_check E S prj payload of Inl er \<Rightarrow> (Inl er, w')
                                                                 | Inr u \<Rightarrow> (Inr payload, w')))"
      using r Inr Some ps cl
      by (simp add: receive_result_def io_bind_def io_then_def
            split: sum.splits prod.splits)
    obtain rl wl where wl: "write_last_result E S (JObj payload) ?wc = (rl, wl)"
      by (cases "write_last_result E S (JObj payload) ?wc")
    show ?thesis
    proof (cases rl)
      case (Inl er)
      then have "res = Inl er" "w2 = ?wc" "er \<in> {StateValidationError, ReadOnlyStateError, StateError, MissingStateError, OSError,
             ValueError, UnicodeEncodeError, RuntimeError}"
        using rr wl write_last_result_Inl[of E S payload ?wc er wl] by auto
      then show ?thesis by blast
    next
      case (Inr u)
      then have w: "wl = ?wc\<lparr>fs := (fs ?wc)(last_result_path S \<mapsto> File (Json_Dump (JObj payload)))\<rparr>"
        and v: "StateStore.strict_schema_validation S \<longrightarrow> schema_agent_result (JObj payload)"
        using wl write_last_result_Inr[of E S payload ?wc wl] by auto
      have "w2 = wl" using rr wl Inr by (auto split: sum.splits)
      moreover have "res = thenE (policy_check E S prj payload) (\<lambda>u. Inr payload)"
        using rr wl Inr by (auto split: sum.splits)
      moreover have "reply = Agent_result payload stderr"
        using \<open>run_task config reply = Inr x\<close> Some ps run_task_Some by simp
      ultimately show ?thesis using w v by simp
    qed
  qed
qed

subsection \<open>After a policy violation\<close>

lemma load_plan_dump:
  assumes "fs w (plan_path S) = Some (File (Json_Dump (JObj plan)))"
    and "StateStore.strict_schema_validation S \<longrightarrow> validate_plan (JObj plan) = Inr ()"
  shows "ensure_plan E S w = (Inr plan, w)"
  using assms
  by (simp add: ensure_plan_def path_exists_def load_plan_def read_json_object_def read_text_def
        loads_def io_bind_def io_then_def)

lemma begin_iteration_active_plan:
  assumes "fs w (active_task_path S) = None"
    and "fs w (plan_path S) = Some (File (Json_Dump (JObj plan)))"
    and "StateStore.strict_schema_validation S \<longrightarrow> validate_plan (JObj plan) = Inr ()"
    and "select_next_task plan = Inl e"
  shows "begin_iteration E S config w = (Inl e, w)"
  using assms load_plan_dump[OF assms(2,3), of E]
  by (simp add: begin_iteration_def path_exists_def io_bind_def)

text \<open>
  Claim C2. Take an iteration that reaches the agent and in which the policy check raises
  \<open>PolicyViolation\<close>. The loop halts with that violation; the Active Task file is gone
  (it was cleared before the check); PLAN.yaml holds the plan written at activation, in
  which the task has status \<^verbatim>\<open>active\<close>. So on the next run, whatever its configuration,
  replies and watchdog, the test for the Active Task file passes and \<open>select_next_task\<close>
  raises \<open>PlannerError\<close> on the active task: the run halts there, leaving the world as it is.
\<close>

theorem policy_violation_leaves_active_task:
  assumes "begin_iteration E S config w = (Inr (Some (plan, task_id, active_task)), w1)"
      and "receive_result E S config prj reply w1 = (Inl (PolicyViolation msg), w2)"
  shows "run_loop E S config prj (reply # rest) w = Some (Inl (PolicyViolation msg), w2) \<and>
         fs w2 (active_task_path S) = None \<and>
         persisted_plan S w2 = Some plan \<and>
         status_in_plan plan task_id = Some (JStr ''active'') \<and>
         select_next_task plan =
           Inl (PlannerError ''Plan contains an active task without execution context.'') \<and>
         (\<forall>config' prj' replies' tracker.
            run_loop E S config' prj' replies' (w2\<lparr>retry_tracker := tracker\<rparr>) =
              Some (Inl (PlannerError ''Plan contains an active task without execution context.''),
                    w2\<lparr>retry_tracker := tracker\<rparr>))"
proof -
  note b = begin_iteration_Some[OF assms(1)]
  from b(1) obtain plan0 task where sel: "select_next_task plan0 = Inr (Some task)"
    and tid: "task_id = task_id_of task"
    and act: "activate_task plan0 (task_id_of task) (task_timeout_seconds config) = Inr (active_task, plan)"
    by blast
  note re = reselect_after_activate[OF sel act]
  from receive_result_cases[OF b(3,4) assms(2)]
  obtain payload where w2: "w2 = w1\<lparr>fs := (fs w1)(active_task_path S := None,
                                         last_result_path S \<mapsto> File (Json_Dump (JObj payload)))\<rparr>"
    by auto
  have a: "fs w2 (active_task_path S) = None"
    unfolding w2 using state_paths_distinct by simp
  have p: "fs w2 (plan_path S) = Some (File (Json_Dump (JObj plan)))"
    unfolding w2 using b(2) state_paths_distinct by simp
  have run: "run_loop E S config prj (reply # rest) w = Some (Inl (PolicyViolation msg), w2)"
    using assms by (simp add: run_loop.simps io_bind_def)
  have nxt: "run_loop E S config' prj' replies' (w2\<lparr>retry_tracker := tracker\<rparr>) =
              Some (Inl (PlannerError ''Plan contains an active task without execution context.''),
                    w2\<lparr>retry_tracker := tracker\<rparr>)" for config' prj' replies' tracker
  proof -
    have "begin_iteration E S config' (w2\<lparr>retry_tracker := tracker\<rparr>) =
            (Inl (PlannerError ''Plan contains an active task without execution context.''),
             w2\<lparr>retry_tracker := tracker\<rparr>)"
      by (rule begin_iteration_active_plan) (use a p b(5) re(1) in simp_all)
    then show ?thesis by (simp add: run_loop.simps)
  qed
  show ?thesis
    using run a p re tid nxt by (simp add: persisted_plan_def)
qed

subsection \<open>A status outside the three\<close>

lemma run_task_result:
  "strip (mcp_command config) \<noteq> [] \<Longrightarrow> 0 \<le> startup_timeout_seconds config \<Longrightarrow>
   run_task config (Agent_result payload stderr) = Inr (Some (payload, stderr))"
  by (simp add: run_task_def)

lemma handle_status_unexpected:
  "dict_get payload ''status'' \<notin> {JStr ''success'', JStr ''failed'', JStr ''blocked''} \<Longrightarrow>
   handle_status E S plan task_id payload w =
     (Inl (StopExecution_unexpected_status (dict_get payload ''status'')), w)"
  by (simp add: handle_status_def Let_def)

lemma schema_agent_result_status:
  "schema_agent_result (JObj payload) \<Longrightarrow>
   dict_get payload ''status'' \<in> {JStr ''success'', JStr ''failed'', JStr ''blocked''}"
  by (auto simp: schema_agent_result_def is_one_of_def split: json.splits)

lemma unexpected_status_iteration:
  assumes strict: "StateStore.strict_schema_validation S"
    and bad: "dict_get payload ''status'' \<notin> {JStr ''success'', JStr ''failed'', JStr ''blocked''}"
    and b: "begin_iteration E S config w = (Inr (Some (plan, task_id, active_task)), w1)"
    and cmd: "strip (mcp_command config) \<noteq> []" "0 \<le> startup_timeout_seconds config"
  shows "run_loop E S config prj (Agent_result payload stderr # rest) w =
           Some (Inl StateValidationError, w1\<lparr>fs := (fs w1)(active_task_path S := None)\<rparr>)"
proof -
  note bi = begin_iteration_Some[OF b]
  let ?wc = "w1\<lparr>fs := (fs w1)(active_task_path S := None)\<rparr>"
  have cl: "clear_active_task E S w1 = (Inr (), ?wc)" by (rule clear_active_task_present[OF bi(3,4)])
  have ns: "\<not> schema_agent_result (JObj payload)" using bad schema_agent_result_status by blast
  have wl: "write_last_result E S (JObj payload) ?wc = (Inl StateValidationError, ?wc)"
    using strict ns by (simp add: write_last_result_cases)
  have "receive_result E S config prj (Agent_result payload stderr) w1 = (Inl StateValidationError, ?wc)"
    using run_task_result[OF cmd] cl wl by (simp add: receive_result_def io_bind_def io_then_def)
  then show ?thesis using b by (simp add: run_loop.simps io_bind_def)
qed

text \<open>
  Claim C9, amended. Under strict schema validation, when the agent's result has a
  \<^verbatim>\<open>status\<close> other than \<^verbatim>\<open>success\<close>, \<^verbatim>\<open>failed\<close> or \<^verbatim>\<open>blocked\<close>, the iteration fails
  before the branch on the status: \<open>write_last_result\<close> refuses the payload, and the loop
  halts with \<open>StateValidationError\<close>, the Active Task file cleared and nothing else
  changed. The halt with the unexpected status is what \<open>handle_status\<close> would do with
  that payload; under strict validation the loop does not get there.
\<close>

theorem unexpected_status_halts_in_validation:
  assumes "StateStore.strict_schema_validation S"
    and "dict_get payload ''status'' \<notin> {JStr ''success'', JStr ''failed'', JStr ''blocked''}"
    and "begin_iteration E S config w = (Inr (Some (plan, task_id, active_task)), w1)"
    and "strip (mcp_command config) \<noteq> []" and "0 \<le> startup_timeout_seconds config"
  shows "run_loop E S config prj (Agent_result payload stderr # rest) w =
           Some (Inl StateValidationError, w1\<lparr>fs := (fs w1)(active_task_path S := None)\<rparr>) \<and>
         write_last_result E S (JObj payload) w' = (Inl StateValidationError, w') \<and>
         handle_status E S plan task_id payload w' =
           (Inl (StopExecution_unexpected_status (dict_get payload ''status'')), w')"
  using unexpected_status_iteration[OF assms] assms(1,2) schema_agent_result_status[of payload]
    handle_status_unexpected[OF assms(2)]
  by (auto simp: write_last_result_cases)


subsection \<open>The retry tracker and failed tasks\<close>

lemma fails_with_Inr [simp, intro!]: "fails_with Q (Inr x)" by (simp add: fails_with_def)
lemma fails_with_Inl [simp]: "fails_with Q (Inl e) \<longleftrightarrow> Q e" by (simp add: fails_with_def)

lemma fails_with_thenE [intro!]:
  "fails_with Q r \<Longrightarrow> (\<And>x. fails_with Q (f x)) \<Longrightarrow> fails_with Q (thenE r f)"
  by (cases r) simp_all

lemma fails_with_if [intro!]: "fails_with Q a \<Longrightarrow> fails_with Q b \<Longrightarrow> fails_with Q (if c then a else b)"
  by simp

lemma fails_withD: "fails_with Q r \<Longrightarrow> r = Inl e \<Longrightarrow> Q e" by (simp add: fails_with_def)

lemma internal_simps [simp]:
  "internal_error StateError" "internal_error ReadOnlyStateError" "internal_error StateValidationError"
  "internal_error MissingStateError" "internal_error (PlannerError m)" "internal_error TypeError"
  "internal_error AttributeError" "internal_error KeyError" "internal_error OSError"
  "internal_error ValueError" "internal_error UnicodeEncodeError" "internal_error RuntimeError"
  "\<not> internal_error (StopExecution m)" "\<not> internal_error (StopExecution_unexpected_status s)"
  "\<not> internal_error (PolicyViolation m)" "\<not> internal_error MCPProcessError"
  "\<not> internal_error MCPProtocolError"
  by (simp_all add: internal_error_def)

lemma py_get_default_internal [intro!, simp]: "fails_with internal_error (py_get_default x k d)"
  by (cases x) (simp_all add: py_get_default_def)
lemma py_get_internal [intro!, simp]: "fails_with internal_error (py_get x k)"
  by (simp add: py_get_def)
lemma py_index_internal [intro!, simp]: "fails_with internal_error (py_index x k)"
  by (cases x) (simp_all add: py_index_def split: option.splits)
lemma py_iter_internal [intro!, simp]: "fails_with internal_error (py_iter x)"
  by (cases x) (simp_all add: py_iter_def)
lemma py_len_internal [intro!, simp]: "fails_with internal_error (py_len x)"
  by (cases x) (simp_all add: py_len_def)

lemma checks_internal: "(\<And>c. c \<in> set cs \<Longrightarrow> fails_with Q c) \<Longrightarrow> fails_with Q (checks cs)"
  by (induction cs) (auto split: sum.splits simp: fails_with_def)

lemma task_map_loop_internal [intro!, simp]: "fails_with internal_error (task_map_loop tasks tm)"
proof (induction tasks arbitrary: tm)
  case (Cons t tasks)
  show ?case
    unfolding task_map_loop.simps
    by (intro fails_with_thenE py_get_internal) (auto split: json.splits intro: Cons)
qed simp

lemma dependencies_loop_internal [intro!, simp]: "fails_with internal_error (dependencies_loop deps tm)"
proof (induction deps)
  case (Cons d deps)
  show ?case
    by (cases d) (auto intro!: fails_with_thenE fails_with_if Cons)
qed simp

lemma dependencies_satisfied_internal [intro!, simp]:
  "fails_with internal_error (dependencies_satisfied d tm)"
  by (cases d) (simp_all add: dependencies_satisfied_def)

lemma select_loop_internal [intro!, simp]: "fails_with internal_error (select_loop tasks tm)"
proof (induction tasks)
  case (Cons t tasks)
  show ?case
    unfolding select_loop.simps
    by (intro fails_with_thenE fails_with_if py_get_internal py_get_default_internal
          dependencies_satisfied_internal Cons) simp_all
qed simp

lemma select_next_task_internal [intro!, simp]: "fails_with internal_error (select_next_task plan)"
  unfolding select_next_task_def task_map_def
  by (intro fails_with_thenE) simp_all

lemma find_task_loop_internal [intro!, simp]: "fails_with internal_error (find_task_loop tasks tid i)"
proof (induction tasks arbitrary: i)
  case (Cons t tasks)
  show ?case
    unfolding find_task_loop.simps
    by (intro fails_with_thenE fails_with_if py_get_internal Cons) simp
qed simp

lemma find_task_internal [intro!, simp]: "fails_with internal_error (find_task plan tid)"
  unfolding find_task_def by (intro fails_with_thenE) simp_all

lemma refresh_objective_internal [intro!, simp]: "fails_with internal_error (refresh_objective tasks obj)"
  unfolding refresh_objective_def Let_def
  by (intro fails_with_thenE py_get_internal) (auto split: json.splits)

lemma refresh_loop_internal [intro!, simp]: "fails_with internal_error (refresh_loop tasks objs)"
proof (induction objs)
  case (Cons obj objs)
  show ?case
    unfolding refresh_loop.simps
    by (intro fails_with_thenE refresh_objective_internal Cons) simp
qed simp

lemma refresh_objective_statuses_internal [intro!, simp]:
  "fails_with internal_error (refresh_objective_statuses plan)"
  unfolding refresh_objective_statuses_def
  by (intro fails_with_thenE py_iter_internal refresh_loop_internal checks_internal fails_with_if)
     (auto intro!: fails_with_thenE)

lemma activate_task_internal [intro!, simp]: "fails_with internal_error (activate_task plan tid tmo)"
  unfolding activate_task_def Let_def by (intro fails_with_thenE) simp_all

lemma finalize_task_internal [intro!, simp]: "fails_with internal_error (finalize_task plan tid st)"
  unfolding finalize_task_def by (intro fails_with_thenE) simp_all

lemma reset_task_for_retry_internal [intro!, simp]: "fails_with internal_error (reset_task_for_retry plan tid)"
  unfolding reset_task_for_retry_def by (intro fails_with_thenE) simp_all

lemma status_pairs_internal [intro!, simp]: "fails_with internal_error (status_pairs xs)"
proof (induction xs)
  case (Cons x xs)
  show ?case
    unfolding status_pairs.simps
    by (intro fails_with_thenE fails_with_if py_index_internal Cons) simp_all
qed simp

lemma summary_entry_internal [intro!, simp]: "fails_with internal_error (summary_entry E tid st payload)"
  unfolding summary_entry_def by (intro fails_with_thenE) simp_all

lemma raisesD: "raises Q m \<Longrightarrow> m w = (Inl e, w') \<Longrightarrow> Q e"
  by (auto simp: raises_def)

lemma raises_return [intro!, simp]: "raises Q (io_return x)" by (simp add: raises_def)
lemma raises_raise [simp]: "raises Q (io_raise e) \<longleftrightarrow> Q e" by (simp add: raises_def)
lemma raises_lift [simp]: "raises Q (io_lift r) \<longleftrightarrow> fails_with Q r"
  by (auto simp: raises_def fails_with_def)

lemma raises_bind [intro!]:
  assumes "raises Q m" "\<And>x. raises Q (f x)"
  shows "raises Q (io_bind m f)"
  unfolding raises_def
proof (intro allI impI)
  fix w e w' assume a: "io_bind m f w = (Inl e, w')"
  obtain r w1 where m: "m w = (r, w1)" by (cases "m w")
  show "Q e"
  proof (cases r)
    case (Inl e1)
    then show ?thesis using a m raisesD[OF assms(1)] by (simp add: io_bind_def)
  next
    case (Inr x)
    then show ?thesis using a m raisesD[OF assms(2)] by (simp add: io_bind_def)
  qed
qed

lemma raises_then [intro!]: "raises Q m \<Longrightarrow> raises Q k \<Longrightarrow> raises Q (io_then m k)"
  unfolding io_then_def by (rule raises_bind)

lemma raises_if [intro!]: "raises Q m \<Longrightarrow> raises Q n \<Longrightarrow> raises Q (if c then m else n)"
  by simp

lemma raises_if_world:
  "raises Q m \<Longrightarrow> raises Q n \<Longrightarrow> raises Q (\<lambda>w. if c w then m w else n w)"
  by (auto simp: raises_def split: if_splits)

lemma raises_read_text [intro!, simp]: "raises internal_error (read_text p)"
  by (auto simp: raises_def read_text_def split: option.splits entry.splits)

lemma raises_ensure_parent_dir [intro!, simp]: "raises internal_error (ensure_parent_dir p)"
  by (auto simp: raises_def ensure_parent_dir_def split: if_splits)

lemma raises_atomic_write_bytes [intro!, simp]: "raises internal_error (atomic_write_bytes p c)"
  by (auto simp: raises_def atomic_write_bytes_def split: if_splits)

lemma ensure_writable_path_internal [intro!, simp]: "fails_with internal_error (ensure_writable_path E S p)"
  by (auto simp: fails_with_def dest: ensure_writable_path_errors)

lemma raises_atomic_write_text [intro!, simp]: "raises internal_error (atomic_write_text E S p c)"
  unfolding atomic_write_text_def by (intro raises_then) simp_all

lemma raises_atomic_write_json [intro!, simp]: "raises internal_error (atomic_write_json E S p j)"
  unfolding atomic_write_json_def by (cases j) (auto intro!: raises_then)

lemma validate_internal [intro!, simp]:
  "fails_with internal_error (validate_plan j)"
  "fails_with internal_error (validate_active_task j)"
  "fails_with internal_error (validate_codex_result j)"
  by (simp_all add: validate_plan_eq validate_active_task_eq validate_codex_result_eq)

lemma raises_read_json_object [intro!, simp]: "raises internal_error (read_json_object E p)"
  unfolding read_json_object_def
  by (intro raises_bind raises_read_text) (auto split: option.splits json.splits)

lemma raises_write_plan [intro!, simp]: "raises internal_error (write_plan E S j)"
  unfolding write_plan_def by (intro raises_then raises_if) simp_all

lemma raises_write_active_task [intro!, simp]: "raises internal_error (write_active_task E S j)"
  unfolding write_active_task_def by (intro raises_then raises_if) simp_all

lemma raises_write_last_result [intro!, simp]: "raises internal_error (write_last_result E S j)"
  unfolding write_last_result_def by (intro raises_then raises_if) simp_all

lemma raises_planner_write_progress [intro!, simp]: "raises internal_error (planner_write_progress E S plan)"
  unfolding planner_write_progress_def write_progress_def
  by (intro raises_bind) (auto intro!: fails_with_thenE)

lemma raises_load_summary [intro!, simp]: "raises internal_error (load_summary S)"
  by (auto simp: raises_def load_summary_def read_text_def split: option.splits entry.splits if_splits)

lemma raises_write_summary [intro!, simp]: "raises internal_error (write_summary E S c)"
  unfolding write_summary_def by simp

lemma raises_append_summary [intro!, simp]: "raises internal_error (append_summary E S entry)"
  unfolding append_summary_def Let_def
  by (intro raises_if_world raises_bind raises_if raises_write_summary raises_load_summary)

lemma raises_daemon_append_summary [intro!, simp]:
  "raises internal_error (daemon_append_summary E S tid st payload)"
  unfolding daemon_append_summary_def by (intro raises_bind) simp_all

lemma raises_load_plan [intro!, simp]: "raises internal_error (load_plan E S)"
  unfolding load_plan_def by (intro raises_bind raises_then raises_if) simp_all

lemma raises_ensure_plan [intro!, simp]: "raises internal_error (ensure_plan E S)"
  unfolding ensure_plan_def Let_def
  by (intro raises_if_world raises_then) simp_all

lemma raises_clear_active_task [intro!, simp]: "raises internal_error (clear_active_task E S)"
  by (auto simp: raises_def clear_active_task_def io_then_def io_bind_def io_lift_def
        split: sum.splits if_splits dest: ensure_writable_path_errors)

lemma raises_mono: "raises Q m \<Longrightarrow> (\<And>e. Q e \<Longrightarrow> R e) \<Longrightarrow> raises R m"
  by (auto simp: raises_def)

lemma raises_case_option [intro!]:
  "raises Q m \<Longrightarrow> (\<And>x. raises Q (f x)) \<Longrightarrow> raises Q (case v of None \<Rightarrow> m | Some x \<Rightarrow> f x)"
  by (cases v) simp_all

lemma raises_case_prod [intro!]:
  "(\<And>a b. raises Q (f a b)) \<Longrightarrow> raises Q (case v of (a, b) \<Rightarrow> f a b)"
  by (cases v) simp

text \<open>The first part of an iteration raises the loop's own halt or an internal error\<close>

lemma raises_begin_iteration:
  "raises (\<lambda>e. internal_error e \<or> e = StopExecution ''ACTIVE_TASK.yaml exists; manual intervention required.'')
     (begin_iteration E S config)"
  unfolding begin_iteration_def
  apply (rule raises_if_world)
   apply (simp add: raises_def)
  apply (rule raises_mono[where Q = internal_error])
   apply (intro raises_bind raises_ensure_plan raises_case_option raises_case_prod raises_then
            raises_return raises_write_plan raises_planner_write_progress raises_write_active_task)
    apply simp_all
  done

lemma io_bind_InlD:
  assumes "io_bind m f w = (Inl e, w')" "raises Q m" "\<not> Q e"
  shows "\<exists>x w1. m w = (Inr x, w1) \<and> f x w1 = (Inl e, w')"
proof -
  obtain r w1 where m: "m w = (r, w1)" by (cases "m w")
  show ?thesis
  proof (cases r)
    case (Inl e1)
    then have "e1 = e" using assms(1) m by (simp add: io_bind_def)
    then show ?thesis using raisesD[OF assms(2)] m Inl assms(3) by auto
  next
    case (Inr x)
    then show ?thesis using assms(1) m by (auto simp: io_bind_def)
  qed
qed

lemma io_then_InlD:
  assumes "io_then m k w = (Inl e, w')" "raises Q m" "\<not> Q e"
  shows "\<exists>w1. m w = (Inr (), w1) \<and> k w1 = (Inl e, w')"
  using io_bind_InlD[OF assms(1)[unfolded io_then_def] assms(2,3)] by auto

lemma find_first:
  "i < length xs \<Longrightarrow> P (xs ! i) \<Longrightarrow> \<forall>j < i. \<not> P (xs ! j) \<Longrightarrow> find P xs = Some (xs ! i)"
proof (induction xs arbitrary: i)
  case Nil
  then show ?case by simp
next
  case (Cons x xs)
  show ?case
  proof (cases i)
    case 0
    then show ?thesis using Cons.prems by simp
  next
    case (Suc k)
    have "\<not> P x" using Cons.prems(3) Suc by auto
    moreover have "find P xs = Some (xs ! k)"
      using Cons.prems Suc by (intro Cons.IH) auto
    ultimately show ?thesis using Suc by simp
  qed
qed

lemma status_after_assign:
  assumes f: "find_task plan task_id = Inr i"
    and r: "refresh_objective_statuses (assign_status plan i st) = Inr plan'"
  shows "status_in_plan plan' task_id = Some (JStr st)"
proof -
  note a = assign_status_tasks[OF f]
  from find_task_Inr[OF f] have before: "\<forall>j < i. json_field (plan_tasks plan ! j) ''id'' \<noteq> JStr task_id"
    by auto
  let ?t' = "JObj (dict_set (task_at plan i) ''status'' (JStr st))"
  let ?ts = "(plan_tasks plan)[i := ?t']"
  have pt: "plan_tasks plan' = ?ts" using refresh_keeps_tasks(2)[OF r] a(1) by simp
  have id: "json_field ?t' ''id'' = JStr task_id"
    using a(7) by (simp add: json_field_def dict_get_dict_set)
  have "find (\<lambda>t. json_field t ''id'' = JStr task_id) ?ts = Some (?ts ! i)"
    by (rule find_first) (use a(6) id before in simp_all)
  then show ?thesis
    unfolding status_in_plan_def pt using a(6) by (simp add: json_field_def dict_get_dict_set)
qed

lemma finalize_task_status:
  "finalize_task plan task_id st = Inr plan' \<Longrightarrow> status_in_plan plan' task_id = Some (JStr st)"
  by (auto simp: finalize_task_def thenE_def split: sum.splits intro: status_after_assign)

lemma reset_task_status:
  "reset_task_for_retry plan task_id = Inr plan' \<Longrightarrow> status_in_plan plan' task_id = Some (JStr ''pending'')"
  by (auto simp: reset_task_for_retry_def thenE_def split: sum.splits intro: status_after_assign)

text \<open>Writing the plan, the progress and the summary, in either order of the last two\<close>

lemma persist_then_summary:
  assumes "io_then (write_plan E S (JObj plan'))
             (io_then (planner_write_progress E S plan') k) w = (r, w')"
    and k: "frame {summary_path S} k"
    and ok: "r = Inr u \<or> (\<exists>e. r = Inl e \<and> \<not> internal_error e)"
  shows "persisted_plan S w' = Some plan'" and "retry_tracker w' = retry_tracker w"
proof -
  obtain r1 wa where wp: "write_plan E S (JObj plan') w = (r1, wa)" by (cases "write_plan E S (JObj plan') w")
  have r1: "r1 = Inr ()"
  proof (cases r1)
    case (Inl e)
    then have "r = Inl e" using assms(1) wp by (simp add: io_then_def io_bind_def)
    moreover have "internal_error e" using raisesD[OF raises_write_plan] wp Inl by blast
    ultimately show ?thesis using ok by auto
  qed simp
  obtain r2 wb where wq: "planner_write_progress E S plan' wa = (r2, wb)"
    by (cases "planner_write_progress E S plan' wa")
  have r2: "r2 = Inr ()"
  proof (cases r2)
    case (Inl e)
    then have "r = Inl e" using assms(1) wp r1 wq by (simp add: io_then_def io_bind_def)
    moreover have "internal_error e" using raisesD[OF raises_planner_write_progress] wq Inl by blast
    ultimately show ?thesis using ok by auto
  qed simp
  have kk: "k wb = (r, w')" using assms(1) wp r1 wq r2 by (simp add: io_then_def io_bind_def)
  note e1 = write_plan_Inr(1)[OF wp[unfolded r1]]
  note f2 = frameD[OF frame_write_progress wq]
  note f3 = frameD[OF k kk]
  have "fs w' (plan_path S) = Some (File (Json_Dump (JObj plan')))"
    using e1 f2 f3 state_paths_distinct by simp
  then show "persisted_plan S w' = Some plan'" by (simp add: persisted_plan_def)
  show "retry_tracker w' = retry_tracker w" using e1 f2 f3 by simp
qed

lemma io_then_update_tracker:
  "io_then (update_tracker f) k w = k (w\<lparr>retry_tracker := f (retry_tracker w)\<rparr>)"
  by (simp add: io_then_def io_bind_def update_tracker_def)

lemma handle_status_failed:
  assumes "dict_get payload ''status'' = JStr ''failed''"
  shows "handle_status E S plan task_id payload w =
     (let w1 = w\<lparr>retry_tracker := record_failure (retry_tracker w) task_id\<rparr> in
      if too_many_consecutive_failures (retry_tracker w1)
      then (Inl (StopExecution ''Max consecutive failures reached.''), w1)
      else if can_retry (retry_tracker w1) task_id
      then io_bind (io_lift (reset_task_for_retry plan task_id)) (\<lambda>plan'.
             io_then (write_plan E S (JObj plan'))
            (io_then (planner_write_progress E S plan')
                     (daemon_append_summary E S task_id ''failed'' payload))) w1
      else io_bind (io_lift (finalize_task plan task_id ''failed'')) (\<lambda>plan'.
             io_then (write_plan E S (JObj plan'))
            (io_then (planner_write_progress E S plan')
            (io_then (daemon_append_summary E S task_id ''failed'' payload)
                     (io_raise (StopExecution ''Task failed more than once.''))))) w1)"
  using assms by (simp add: handle_status_def Let_def io_then_update_tracker)

lemma retry_branch:
  assumes "io_bind (io_lift (reset_task_for_retry plan task_id)) (\<lambda>plan'.
             io_then (write_plan E S (JObj plan'))
            (io_then (planner_write_progress E S plan')
                     (daemon_append_summary E S task_id ''failed'' payload))) w = (r, w')"
  shows "\<forall>e. r = Inl e \<longrightarrow> internal_error e"
    and "r = Inr () \<longrightarrow> persisted_status S w' task_id = Some (JStr ''pending'')
                         \<and> retry_tracker w' = retry_tracker w"
proof -
  have "raises internal_error (io_bind (io_lift (reset_task_for_retry plan task_id)) (\<lambda>plan'.
             io_then (write_plan E S (JObj plan'))
            (io_then (planner_write_progress E S plan')
                     (daemon_append_summary E S task_id ''failed'' payload))))"
    by (intro raises_bind raises_then) simp_all
  then show "\<forall>e. r = Inl e \<longrightarrow> internal_error e" using assms by (auto dest: raisesD)
  show "r = Inr () \<longrightarrow> persisted_status S w' task_id = Some (JStr ''pending'')
                         \<and> retry_tracker w' = retry_tracker w"
  proof
    assume r: "r = Inr ()"
    from io_bind_InrD[OF assms[unfolded r]] obtain plan' w1 where
      l: "io_lift (reset_task_for_retry plan task_id) w = (Inr plan', w1)"
      and k: "io_then (write_plan E S (JObj plan'))
            (io_then (planner_write_progress E S plan')
                     (daemon_append_summary E S task_id ''failed'' payload)) w1 = (Inr (), w')" by blast
    from io_lift_D[OF l] have rs: "reset_task_for_retry plan task_id = Inr plan'" and w1: "w1 = w" by auto
    from persist_then_summary[OF k frame_daemon_append_summary] reset_task_status[OF rs] w1
    show "persisted_status S w' task_id = Some (JStr ''pending'') \<and> retry_tracker w' = retry_tracker w"
      by (simp add: persisted_status_def)
  qed
qed

lemma give_up_branch:
  assumes "io_bind (io_lift (finalize_task plan task_id ''failed'')) (\<lambda>plan'.
             io_then (write_plan E S (JObj plan'))
            (io_then (planner_write_progress E S plan')
            (io_then (daemon_append_summary E S task_id ''failed'' payload)
                     (io_raise (StopExecution ''Task failed more than once.''))))) w = (r, w')"
  shows "r \<noteq> Inr ()"
    and "r = Inl (StopExecution ''Task failed more than once.'') \<longrightarrow>
           persisted_status S w' task_id = Some (JStr ''failed'')"
proof -
  let ?k = "io_then (daemon_append_summary E S task_id ''failed'' payload)
                     (io_raise (StopExecution ''Task failed more than once.'') :: unit io)"
  show "r \<noteq> Inr ()"
  proof
    assume r: "r = Inr ()"
    from io_bind_InrD[OF assms[unfolded r]] obtain plan' w1 where
      k: "io_then (write_plan E S (JObj plan'))
            (io_then (planner_write_progress E S plan') ?k) w1 = (Inr (), w')" by blast
    from io_then_InrD[OF k] obtain w2 where
      k2: "io_then (planner_write_progress E S plan') ?k w2 = (Inr (), w')" by blast
    from io_then_InrD[OF k2] obtain w3 where k3: "?k w3 = (Inr (), w')" by blast
    from io_then_InrD[OF k3] obtain w4 where
      "io_raise (StopExecution ''Task failed more than once.'') w4 = (Inr (), w')" by blast
    then show False by (simp add: io_raise_def)
  qed
  show "r = Inl (StopExecution ''Task failed more than once.'') \<longrightarrow>
           persisted_status S w' task_id = Some (JStr ''failed'')"
  proof
    assume r: "r = Inl (StopExecution ''Task failed more than once.'')"
    have ni: "\<not> internal_error (StopExecution ''Task failed more than once.'')" by simp
    have ri: "raises internal_error (io_lift (finalize_task plan task_id ''failed''))" by simp
    from io_bind_InlD[OF assms[unfolded r] ri ni] obtain plan' w1 where
      l: "io_lift (finalize_task plan task_id ''failed'') w = (Inr plan', w1)"
      and k: "io_then (write_plan E S (JObj plan'))
            (io_then (planner_write_progress E S plan') ?k) w1
              = (Inl (StopExecution ''Task failed more than once.''), w')" by blast
    from io_lift_D[OF l] have fin: "finalize_task plan task_id ''failed'' = Inr plan'" by simp
    have fk: "frame {summary_path S} ?k"
      by (intro frame_then frame_daemon_append_summary frame_raise)
    from persist_then_summary(1)[OF k fk] finalize_task_status[OF fin]
    show "persisted_status S w' task_id = Some (JStr ''failed'')"
      by (simp add: persisted_status_def)
  qed
qed

text \<open>
  Claim C3, amended. The watchdog built by \<open>main\<close> has the limit \<open>min k 1\<close>, and
  \<open>can_retry\<close> holds exactly when the failures recorded for the task, this one counted,
  are at most the limit. On a failure that does not reach the ceiling of consecutive
  failures: if it is the first failure recorded for the task and \<open>k\<close> is at least 1, the
  task is not finalized, and when the loop continues PLAN.yaml holds the task as
  \<^verbatim>\<open>pending\<close> and one failure is recorded for it; if a failure is already recorded for
  the task, or \<open>k\<close> is 0 or less, the loop does not continue, and when it halts with
  \<^verbatim>\<open>Task failed more than once.\<close> PLAN.yaml holds the task as \<^verbatim>\<open>failed\<close>.
\<close>

theorem retry_limit_and_failed_task:
  assumes "dict_get payload ''status'' = JStr ''failed''"
      and "RetryTracker.max_retries_per_task (retry_tracker w) = min k 1"
      and "consecutive_failures (retry_tracker w) + 1 < RetryTracker.max_consecutive_failures (retry_tracker w)"
      and "attempts (retry_tracker w) task_id = None \<or> (\<exists>n\<ge>1. attempts (retry_tracker w) task_id = Some n)"
      and "handle_status E S plan task_id payload w = (r, w')"
  shows "RetryTracker.max_retries_per_task (main_retry_tracker config)
           = min (Config.max_retries_per_task config) 1 \<and>
         (can_retry t tid \<longleftrightarrow>
            (case attempts t tid of None \<Rightarrow> 0 | Some n \<Rightarrow> n) \<le> RetryTracker.max_retries_per_task t) \<and>
         (attempts (retry_tracker w) task_id = None \<and> 1 \<le> k \<longrightarrow>
            r \<noteq> Inl (StopExecution ''Task failed more than once.'') \<and>
            (r = Inr () \<longrightarrow> persisted_status S w' task_id = Some (JStr ''pending'')
                              \<and> attempts (retry_tracker w') task_id = Some 1)) \<and>
         ((\<exists>n\<ge>1. attempts (retry_tracker w) task_id = Some n) \<or> k \<le> 0 \<longrightarrow>
            r \<noteq> Inr () \<and>
            (r = Inl (StopExecution ''Task failed more than once.'') \<longrightarrow>
               persisted_status S w' task_id = Some (JStr ''failed'')))"
proof -
  let ?w1 = "w\<lparr>retry_tracker := record_failure (retry_tracker w) task_id\<rparr>"
  have ntm: "\<not> too_many_consecutive_failures (retry_tracker ?w1)"
    using assms(3) by (simp add: too_many_consecutive_failures_def record_failure_def)
  have cr: "can_retry (retry_tracker ?w1) task_id \<longleftrightarrow> attempts (retry_tracker w) task_id = None \<and> 1 \<le> k"
    using assms(2,4) by (auto simp: can_retry_def record_failure_def)
  have at: "attempts (retry_tracker ?w1) task_id = Some 1" if "attempts (retry_tracker w) task_id = None"
    using that by (simp add: record_failure_def)
  note hs = assms(5)[unfolded handle_status_failed[OF assms(1)] Let_def]
  have a: "r \<noteq> Inl (StopExecution ''Task failed more than once.'') \<and>
            (r = Inr () \<longrightarrow> persisted_status S w' task_id = Some (JStr ''pending'')
                              \<and> attempts (retry_tracker w') task_id = Some 1)"
    if h: "attempts (retry_tracker w) task_id = None \<and> 1 \<le> k"
  proof -
    from hs ntm cr h have b: "io_bind (io_lift (reset_task_for_retry plan task_id)) (\<lambda>plan'.
             io_then (write_plan E S (JObj plan'))
            (io_then (planner_write_progress E S plan')
                     (daemon_append_summary E S task_id ''failed'' payload))) ?w1 = (r, w')" by simp
    from retry_branch[OF b] at h show ?thesis by auto
  qed
  have b: "r \<noteq> Inr () \<and>
            (r = Inl (StopExecution ''Task failed more than once.'') \<longrightarrow>
               persisted_status S w' task_id = Some (JStr ''failed''))"
    if h: "(\<exists>n\<ge>1. attempts (retry_tracker w) task_id = Some n) \<or> k \<le> 0"
  proof -
    have "\<not> can_retry (retry_tracker ?w1) task_id" using cr h by auto
    with hs ntm have g: "io_bind (io_lift (finalize_task plan task_id ''failed'')) (\<lambda>plan'.
             io_then (write_plan E S (JObj plan'))
            (io_then (planner_write_progress E S plan')
            (io_then (daemon_append_summary E S task_id ''failed'' payload)
                     (io_raise (StopExecution ''Task failed more than once.''))))) ?w1 = (r, w')" by simp
    from give_up_branch[OF g] show ?thesis by simp
  qed
  show ?thesis
    using a b by (simp add: main_retry_tracker_def can_retry_def Let_def)
qed

lemma receive_result_Inr:
  assumes b: "begin_iteration E S config w = (Inr (Some (plan, task_id, active_task)), w1)"
    and r: "receive_result E S config prj reply w1 = (Inr payload, w2)"
  shows "fs w2 (active_task_path S) = None"
    and "persisted_plan S w2 = Some plan"
    and "retry_tracker w2 = retry_tracker w"
    and "status_in_plan plan task_id = Some (JStr ''active'')"
    and "StateStore.strict_schema_validation S \<longrightarrow> schema_agent_result (JObj payload)"
proof -
  note bi = begin_iteration_Some[OF b]
  from receive_result_cases[OF bi(3,4) r]
  obtain p stderr where "reply = Agent_result p stderr"
    and w2': "w2 = w1\<lparr>fs := (fs w1)(active_task_path S := None,
                                         last_result_path S \<mapsto> File (Json_Dump (JObj p)))\<rparr>"
    and v': "StateStore.strict_schema_validation S \<longrightarrow> schema_agent_result (JObj p)"
    and pc: "Inr payload = thenE (policy_check E S prj p) (\<lambda>u. Inr p)"
    by (elim disjE exE conjE) simp_all
  have pp: "p = payload" using pc by (cases "policy_check E S prj p") auto
  note w2 = w2'[unfolded pp] and v = v'[unfolded pp]
  show "fs w2 (active_task_path S) = None" unfolding w2 using state_paths_distinct by simp
  show "persisted_plan S w2 = Some plan"
    unfolding w2 persisted_plan_def using bi(2) state_paths_distinct by simp
  show "retry_tracker w2 = retry_tracker w" unfolding w2 using bi(6) by simp
  from bi(1) obtain plan0 task where "select_next_task plan0 = Inr (Some task)"
    "task_id = task_id_of task"
    "activate_task plan0 (task_id_of task) (task_timeout_seconds config) = Inr (active_task, plan)"
    by blast
  then show "status_in_plan plan task_id = Some (JStr ''active'')"
    using reselect_after_activate(2) by simp
  show "StateStore.strict_schema_validation S \<longrightarrow> schema_agent_result (JObj payload)"
    using v pp by simp
qed

lemma handle_status_failed_continues:
  assumes f: "dict_get payload ''status'' = JStr ''failed''"
    and h: "handle_status E S plan task_id payload w = (Inr (), w')"
  shows "retry_tracker w' = record_failure (retry_tracker w) task_id"
    and "persisted_status S w' task_id = Some (JStr ''pending'')"
proof -
  let ?w1 = "w\<lparr>retry_tracker := record_failure (retry_tracker w) task_id\<rparr>"
  note hs = h[unfolded handle_status_failed[OF f] Let_def]
  have ntm: "\<not> too_many_consecutive_failures (retry_tracker ?w1)"
    using hs by (auto split: if_splits)
  have cr: "can_retry (retry_tracker ?w1) task_id"
  proof (rule ccontr)
    assume "\<not> can_retry (retry_tracker ?w1) task_id"
    with hs ntm have "io_bind (io_lift (finalize_task plan task_id ''failed'')) (\<lambda>plan'.
             io_then (write_plan E S (JObj plan'))
            (io_then (planner_write_progress E S plan')
            (io_then (daemon_append_summary E S task_id ''failed'' payload)
                     (io_raise (StopExecution ''Task failed more than once.''))))) ?w1 = (Inr (), w')"
      by simp
    from give_up_branch(1)[OF this] show False by simp
  qed
  from hs ntm cr have "io_bind (io_lift (reset_task_for_retry plan task_id)) (\<lambda>plan'.
             io_then (write_plan E S (JObj plan'))
            (io_then (planner_write_progress E S plan')
                     (daemon_append_summary E S task_id ''failed'' payload))) ?w1 = (Inr (), w')" by simp
  from retry_branch(2)[OF this]
  show "retry_tracker w' = record_failure (retry_tracker w) task_id"
    and "persisted_status S w' task_id = Some (JStr ''pending'')" by simp_all
qed

lemma failure_at_ceiling:
  assumes b: "begin_iteration E S config w = (Inr (Some (plan, task_id, active_task)), w1)"
    and r: "receive_result E S config prj reply w1 = (Inr payload, w2)"
    and f: "dict_get payload ''status'' = JStr ''failed''"
    and c: "RetryTracker.max_consecutive_failures (retry_tracker w) \<le> consecutive_failures (retry_tracker w) + 1"
  shows "run_loop E S config prj (reply # rest) w =
           Some (Inl (StopExecution ''Max consecutive failures reached.''),
                 w2\<lparr>retry_tracker := record_failure (retry_tracker w2) task_id\<rparr>)"
proof -
  note rr = receive_result_Inr[OF b r]
  have "too_many_consecutive_failures (record_failure (retry_tracker w2) task_id)"
    using c rr(3) by (simp add: too_many_consecutive_failures_def record_failure_def)
  then have "handle_status E S plan task_id payload w2 =
               (Inl (StopExecution ''Max consecutive failures reached.''),
                w2\<lparr>retry_tracker := record_failure (retry_tracker w2) task_id\<rparr>)"
    by (simp add: handle_status_failed[OF f] Let_def)
  then show ?thesis using b r by (simp add: run_loop.simps io_bind_def)
qed

text \<open>
  Claim C1, amended. With a ceiling of 2 consecutive failures, take two consecutive
  iterations in which the agent returns \<^verbatim>\<open>failed\<close>, the loop continuing after the first.
  At the second the loop halts with \<^verbatim>\<open>Max consecutive failures reached.\<close>, before any
  reset: the Active Task file is cleared, and PLAN.yaml still holds the plan written at
  activation, in which the task that just failed has status \<^verbatim>\<open>active\<close>.
\<close>

theorem second_consecutive_failure_halts:
  assumes "RetryTracker.max_consecutive_failures (retry_tracker w) = 2"
      and "0 \<le> consecutive_failures (retry_tracker w)"
      and "begin_iteration E S config w = (Inr (Some (plan1, task1, active1)), w1)"
      and "receive_result E S config prj reply1 w1 = (Inr payload1, w2)"
      and "dict_get payload1 ''status'' = JStr ''failed''"
      and "handle_status E S plan1 task1 payload1 w2 = (Inr (), w3)"
      and "begin_iteration E S config w3 = (Inr (Some (plan2, task2, active2)), w4)"
      and "receive_result E S config prj reply2 w4 = (Inr payload2, w5)"
      and "dict_get payload2 ''status'' = JStr ''failed''"
  shows "run_loop E S config prj (reply1 # reply2 # rest) w =
           Some (Inl (StopExecution ''Max consecutive failures reached.''),
                 w5\<lparr>retry_tracker := record_failure (retry_tracker w5) task2\<rparr>) \<and>
         persisted_status S (w5\<lparr>retry_tracker := record_failure (retry_tracker w5) task2\<rparr>) task2
           = Some (JStr ''active'') \<and>
         fs (w5\<lparr>retry_tracker := record_failure (retry_tracker w5) task2\<rparr>) (active_task_path S) = None"
proof -
  note r1 = receive_result_Inr[OF assms(3,4)]
  note h1 = handle_status_failed_continues[OF assms(5,6)]
  note r2 = receive_result_Inr[OF assms(7,8)]
  have t3: "retry_tracker w3 = record_failure (retry_tracker w) task1" using h1(1) r1(3) by simp
  have c: "RetryTracker.max_consecutive_failures (retry_tracker w3) \<le> consecutive_failures (retry_tracker w3) + 1"
    unfolding t3 using assms(1,2) by (simp add: record_failure_def)
  have "run_loop E S config prj (reply2 # rest) w3 =
           Some (Inl (StopExecution ''Max consecutive failures reached.''),
                 w5\<lparr>retry_tracker := record_failure (retry_tracker w5) task2\<rparr>)"
    by (rule failure_at_ceiling[OF assms(7,8,9) c])
  then have "run_loop E S config prj (reply1 # reply2 # rest) w =
           Some (Inl (StopExecution ''Max consecutive failures reached.''),
                 w5\<lparr>retry_tracker := record_failure (retry_tracker w5) task2\<rparr>)"
    using assms(3,4,6) by (simp add: run_loop.simps[of E S config prj "reply1 # reply2 # rest"] io_bind_def)
  then show ?thesis
    using r2(1,2,4) by (simp add: persisted_status_def persisted_plan_def)
qed

section \<open>The examples, evaluated\<close>

lemma ex_paths:
  "plan_path ex_store = Path ''/'' [''proj'', ''ai'', ''PLAN.yaml'']"
  "active_task_path ex_store = Path ''/'' [''proj'', ''ai'', ''ACTIVE_TASK.yaml'']"
  "summary_path ex_store = Path ''/'' [''proj'', ''ai'', ''SUMMARY.md'']"
  "last_result_path ex_store = Path ''/'' [''proj'', ''ai'', ''LAST_RESULT.json'']"
  "progress_path ex_store = Path ''/'' [''proj'', ''ai'', ''PROGRESS.yaml'']"
  "goals_path ex_store = Path ''/'' [''proj'', ''ai'', ''GOALS.md'']"
  "sources_path ex_store = Path ''/'' [''proj'', ''ai'', ''SOURCES.yaml'']"
  "config_path ex_store = Path ''/'' [''proj'', ''ai'', ''config.json'']"
  by code_simp+

text \<open>The store of the examples is the one \<open>StateStore_init\<close> builds for the example project.\<close>

lemma ex_store_init:
  "StateStore_init ex_env (ex_world config plan) ex_root ''ai'' ''design'' None True True = Inr ex_store"
  unfolding ex_world_def by code_simp

theorem refused_write_leaves_world_witness:
  "is_read_only_path ex_env ex_store (config_path ex_store) = Inr True \<and>
   atomic_write_text ex_env ex_store (config_path ex_store) (Text ''x'') (ex_world (ex_config 1 2) [])
     = (Inl ReadOnlyStateError, ex_world (ex_config 1 2) []) \<and>
   is_read_only_path ex_env ex_store (Path ''/'' [''proj'', ''design'', ''spec.md'']) = Inr True \<and>
   atomic_write_json ex_env ex_store (Path ''/'' [''proj'', ''design'', ''spec.md'']) (JObj []) (ex_world (ex_config 1 2) [])
     = (Inl ReadOnlyStateError, ex_world (ex_config 1 2) []) \<and>
   is_read_only_path ex_env ex_store (Path ''/'' [''proj'', ''src'', ''a.txt'']) = Inr False \<and>
   is_writable_path ex_env ex_store (Path ''/'' [''proj'', ''src'', ''a.txt'']) = Inr False \<and>
   atomic_write_text ex_env ex_store (Path ''/'' [''proj'', ''src'', ''a.txt'']) (Text ''x'') (ex_world (ex_config 1 2) [])
     = (Inl StateError, ex_world (ex_config 1 2) []) \<and>
   Path_resolve ex_env (Path ''/'' [''proj'', ''ai'', [CHR 0x00]]) = Inl ValueError \<and>
   atomic_write_text ex_env ex_store (Path ''/'' [''proj'', ''ai'', [CHR 0x00]]) (Text ''x'') (ex_world (ex_config 1 2) [])
     = (Inl ValueError, ex_world (ex_config 1 2) [])"
proof -
  have a: "is_read_only_path ex_env ex_store (config_path ex_store) = Inr True" by code_simp
  have b: "is_read_only_path ex_env ex_store (Path ''/'' [''proj'', ''design'', ''spec.md'']) = Inr True" by code_simp
  have c: "is_read_only_path ex_env ex_store (Path ''/'' [''proj'', ''src'', ''a.txt'']) = Inr False" by code_simp
  have d: "is_writable_path ex_env ex_store (Path ''/'' [''proj'', ''src'', ''a.txt'']) = Inr False" by code_simp
  have e: "Path_resolve ex_env (Path ''/'' [''proj'', ''ai'', [CHR 0x00]]) = Inl ValueError" by code_simp
  show ?thesis
    using a b c d e
      refused_write_leaves_world[of ex_env ex_store "config_path ex_store" "Text ''x''" "ex_world (ex_config 1 2) []" "[]"]
      refused_write_leaves_world[of ex_env ex_store "Path ''/'' [''proj'', ''design'', ''spec.md'']" "Text ''x''" "ex_world (ex_config 1 2) []" "[]"]
      refused_write_leaves_world[of ex_env ex_store "Path ''/'' [''proj'', ''src'', ''a.txt'']" "Text ''x''" "ex_world (ex_config 1 2) []" "[]"]
      refused_write_leaves_world[of ex_env ex_store "Path ''/'' [''proj'', ''ai'', [CHR 0x00]]" "Text ''x''" "ex_world (ex_config 1 2) []" "[]" ValueError]
    by blast
qed

theorem strict_write_rejects_invalid_payload_witness:
  "StateStore.strict_schema_validation ex_store \<and>
   \<not> schema_plan (JObj [(''version'', JBool True), (''objectives'', JList []), (''tasks'', JList [])]) \<and>
   write_plan ex_env ex_store (JObj [(''version'', JBool True), (''objectives'', JList []), (''tasks'', JList [])])
       (ex_world (ex_config 1 2) [])
     = (Inl StateValidationError, ex_world (ex_config 1 2) []) \<and>
   \<not> schema_active_task (ex_task ''t1'' ''active'' []) \<and>
   write_active_task ex_env ex_store (ex_task ''t1'' ''active'' []) (ex_world (ex_config 1 2) [])
     = (Inl StateValidationError, ex_world (ex_config 1 2) []) \<and>
   \<not> schema_agent_result (JObj [(''status'', JStr ''success'')]) \<and>
   write_last_result ex_env ex_store (JObj [(''status'', JStr ''success'')]) (ex_world (ex_config 1 2) [])
     = (Inl StateValidationError, ex_world (ex_config 1 2) [])"
proof -
  have s: "StateStore.strict_schema_validation ex_store" by (simp add: ex_store_def)
  have a: "\<not> schema_plan (JObj [(''version'', JBool True), (''objectives'', JList []), (''tasks'', JList [])])"
    by code_simp
  have b: "\<not> schema_active_task (ex_task ''t1'' ''active'' [])" by code_simp
  have c: "\<not> schema_agent_result (JObj [(''status'', JStr ''success'')])" by code_simp
  show ?thesis
    using s a b c
      strict_write_rejects_invalid_payload[OF s, of "JObj [(''version'', JBool True), (''objectives'', JList []), (''tasks'', JList [])]" ex_env "ex_world (ex_config 1 2) []"]
      strict_write_rejects_invalid_payload[OF s, of "ex_task ''t1'' ''active'' []" ex_env "ex_world (ex_config 1 2) []"]
      strict_write_rejects_invalid_payload[OF s, of "JObj [(''status'', JStr ''success'')]" ex_env "ex_world (ex_config 1 2) []"]
    by blast
qed

theorem assert_no_forbidden_changes_null_counterexample:
  "assert_no_forbidden_changes ex_env [JStr [CHR 0x00], JInt 1] ex_root
       (StateStore.design_dir ex_store) (ai_dir ex_store) = Inl ValueError \<and>
   assert_no_forbidden_changes ex_env [JStr [CHR 0x00], JInt 1] ex_root
       (StateStore.design_dir ex_store) (ai_dir ex_store)
     \<noteq> Inl (PolicyViolation ''files_changed entries must be strings.'') \<and>
   assert_no_forbidden_changes ex_env [JStr [CHR 0x00]] ex_root
       (StateStore.design_dir ex_store) (ai_dir ex_store) = Inl ValueError \<and>
   assert_no_forbidden_changes ex_env [JStr [CHR 0x00]] ex_root
       (StateStore.design_dir ex_store) (ai_dir ex_store) \<noteq> Inr () \<and>
   assert_no_forbidden_changes ex_env [JStr [CHR 0x00]] ex_root
       (StateStore.design_dir ex_store) (ai_dir ex_store)
     \<noteq> Inl (PolicyViolation (''Forbidden files modified: '' @ [CHR 0x00]))"
  by code_simp

theorem assert_no_forbidden_changes_spec_witness:
  "assert_no_forbidden_changes ex_env [JStr ''design/spec.md'', JInt 1, JStr [CHR 0x00]] ex_root
       (StateStore.design_dir ex_store) (ai_dir ex_store)
     = Inl (PolicyViolation ''files_changed entries must be strings.'') \<and>
   assert_no_forbidden_changes ex_env [JStr ''design/spec.md'', JStr [CHR 0x00], JInt 1] ex_root
       (StateStore.design_dir ex_store) (ai_dir ex_store)
     = Inl ValueError \<and>
   assert_no_forbidden_changes ex_env
       (map JStr [''src/b.txt'', ''design/spec.md'', ''ai/PLAN.yaml'', ''/etc/passwd'', ''./README''])
       ex_root (StateStore.design_dir ex_store) (ai_dir ex_store)
     = Inl (PolicyViolation ''Forbidden files modified: /etc/passwd, ai/PLAN.yaml, design/spec.md'') \<and>
   assert_no_forbidden_changes ex_env (map JStr [''src/b.txt'', ''./README''])
       ex_root (StateStore.design_dir ex_store) (ai_dir ex_store)
     = Inr () \<and>
   assert_no_forbidden_changes ex_env [] ex_root (Path ''/'' [[CHR 0x00]]) (ai_dir ex_store)
     = Inl ValueError \<and>
   assert_no_forbidden_changes ex_env [] ex_root (StateStore.design_dir ex_store) (Path ''/'' [[CHR 0x00]])
     = Inl ValueError \<and>
   assert_no_forbidden_changes ex_env [] (Path ''/'' [[CHR 0x00]]) (StateStore.design_dir ex_store)
       (ai_dir ex_store)
     = Inl ValueError"
proof -
  have d: "Path_resolve ex_env (StateStore.design_dir ex_store) = Inr (Path ''/'' [''proj'', ''design''])"
    by code_simp
  have s: "Path_resolve ex_env (ai_dir ex_store) = Inr (Path ''/'' [''proj'', ''ai''])" by code_simp
  have p: "Path_resolve ex_env ex_root = Inr ex_root" by code_simp
  have n1: "\<forall>s \<in> set [''design/spec.md''].
              Path_resolve ex_env (if is_absolute (Path_of s) then Path_of s
                                  else joinpath ex_root (Path_of s)) = Inr (ex_candidate s)"
    unfolding ex_candidate_def by code_simp
  have n2: "\<forall>s \<in> set [''src/b.txt'', ''design/spec.md'', ''ai/PLAN.yaml'', ''/etc/passwd'', ''./README''].
              Path_resolve ex_env (if is_absolute (Path_of s) then Path_of s
                                  else joinpath ex_root (Path_of s)) = Inr (ex_candidate s)"
    unfolding ex_candidate_def by code_simp
  have n3: "\<forall>s \<in> set [''src/b.txt'', ''./README''].
              Path_resolve ex_env (if is_absolute (Path_of s) then Path_of s
                                  else joinpath ex_root (Path_of s)) = Inr (ex_candidate s)"
    unfolding ex_candidate_def by code_simp
  have x: "\<forall>s. JInt 1 \<noteq> JStr s" by simp
  have bad: "Path_resolve ex_env (if is_absolute (Path_of [CHR 0x00]) then Path_of [CHR 0x00]
                                 else joinpath ex_root (Path_of [CHR 0x00])) = Inl ValueError"
    by code_simp
  note t = assert_no_forbidden_changes_spec[of ex_env "StateStore.design_dir ex_store" _ _ ex_root
             "ai_dir ex_store" "Path ''/'' [''proj'', ''design'']" "Path ''/'' [''proj'', ''ai'']" ex_root]
  have 1: "assert_no_forbidden_changes ex_env ([JStr ''design/spec.md''] @ JInt 1 # [JStr [CHR 0x00]]) ex_root
       (StateStore.design_dir ex_store) (ai_dir ex_store)
     = Inl (PolicyViolation ''files_changed entries must be strings.'')"
    using t[of _ _ "[''design/spec.md'']" ex_candidate "JInt 1" "[JStr [CHR 0x00]]"] d s p n1 x
    by simp
  have 2: "assert_no_forbidden_changes ex_env ([JStr ''design/spec.md''] @ JStr [CHR 0x00] # [JInt 1]) ex_root
       (StateStore.design_dir ex_store) (ai_dir ex_store)
     = Inl ValueError"
    using t[of ValueError _ "[''design/spec.md'']" ex_candidate _ "[JInt 1]" "[CHR 0x00]"] d s p n1 bad
    by simp
  have r3: "(let forbidden = filter (\<lambda>s. is_within (ex_candidate s) (Path ''/'' [''proj'', ''design''])
                                     \<or> is_within (ex_candidate s) (Path ''/'' [''proj'', ''ai''])
                                     \<or> \<not> is_within (ex_candidate s) ex_root)
                        [''src/b.txt'', ''design/spec.md'', ''ai/PLAN.yaml'', ''/etc/passwd'', ''./README'']
      in if forbidden \<noteq> []
         then Inl (PolicyViolation (''Forbidden files modified: '' @ join '', '' (sort forbidden)))
         else Inr ()) = Inl (PolicyViolation ''Forbidden files modified: /etc/passwd, ai/PLAN.yaml, design/spec.md'')"
    by code_simp
  have r4: "(let forbidden = filter (\<lambda>s. is_within (ex_candidate s) (Path ''/'' [''proj'', ''design''])
                                     \<or> is_within (ex_candidate s) (Path ''/'' [''proj'', ''ai''])
                                     \<or> \<not> is_within (ex_candidate s) ex_root)
                        [''src/b.txt'', ''./README'']
      in if forbidden \<noteq> []
         then Inl (PolicyViolation (''Forbidden files modified: '' @ join '', '' (sort forbidden)))
         else Inr ()) = Inr ()"
    by code_simp
  have 3: "assert_no_forbidden_changes ex_env
       (map JStr [''src/b.txt'', ''design/spec.md'', ''ai/PLAN.yaml'', ''/etc/passwd'', ''./README''])
       ex_root (StateStore.design_dir ex_store) (ai_dir ex_store)
     = Inl (PolicyViolation ''Forbidden files modified: /etc/passwd, ai/PLAN.yaml, design/spec.md'')"
    using t[of _ _ "[''src/b.txt'', ''design/spec.md'', ''ai/PLAN.yaml'', ''/etc/passwd'', ''./README'']"
            ex_candidate] d s p n2 r3
    by (simp only:)
  have 4: "assert_no_forbidden_changes ex_env (map JStr [''src/b.txt'', ''./README''])
       ex_root (StateStore.design_dir ex_store) (ai_dir ex_store) = Inr ()"
    using t[of _ _ "[''src/b.txt'', ''./README'']" ex_candidate] d s p n3 r4
    by (simp only:)
  have z: "Path_resolve ex_env (Path ''/'' [[CHR 0x00]]) = Inl ValueError" by code_simp
  have 5: "assert_no_forbidden_changes ex_env [] ex_root (Path ''/'' [[CHR 0x00]]) (ai_dir ex_store)
     = Inl ValueError \<and>
   assert_no_forbidden_changes ex_env [] ex_root (StateStore.design_dir ex_store) (Path ''/'' [[CHR 0x00]])
     = Inl ValueError \<and>
   assert_no_forbidden_changes ex_env [] (Path ''/'' [[CHR 0x00]]) (StateStore.design_dir ex_store)
       (ai_dir ex_store)
     = Inl ValueError"
    using assert_no_forbidden_changes_spec[where E = ex_env and design = "Path ''/'' [[CHR 0x00]]"
            and e = ValueError and files_changed = "[]" and project_dir = ex_root and sdir = "ai_dir ex_store"
            and names = "[]"]
          assert_no_forbidden_changes_spec[where E = ex_env and design = "StateStore.design_dir ex_store"
            and e = ValueError and files_changed = "[]" and project_dir = ex_root
            and sdir = "Path ''/'' [[CHR 0x00]]" and dr = "Path ''/'' [''proj'', ''design'']"
            and names = "[]"]
          assert_no_forbidden_changes_spec[where E = ex_env and design = "StateStore.design_dir ex_store"
            and e = ValueError and files_changed = "[]" and project_dir = "Path ''/'' [[CHR 0x00]]"
            and sdir = "ai_dir ex_store" and dr = "Path ''/'' [''proj'', ''design'']"
            and sr = "Path ''/'' [''proj'', ''ai'']" and names = "[]"]
          d s z
    by simp
  show ?thesis using 1 2 3 4 5 by simp
qed

lemmas io_eval = io_bind_apply io_then_apply thenE_def
lemmas store_eval = atomic_write_text_def atomic_write_json_def ensure_writable_path_def
  ensure_parent_dir_def atomic_write_bytes_def path_exists_def read_text_def read_json_object_def
  write_plan_def write_progress_def write_active_task_def write_last_result_def write_summary_def
  clear_active_task_def load_plan_def load_progress_def load_summary_def loads_def
lemmas py_eval = py_iter_def py_index_def py_get_def py_get_default_def py_len_def hashable_def
  dict_get_default_def dict_get_def dict_has_def dict_set_def
lemmas ex_eval = ex_paths ex_world_def ex_plan_def ex_task_def ex_reply_def ex_payload_def ex_config_def
  parent_def is_within_def ex_root_def

lemma ex_store_fields:
  "read_only_paths ex_store = [Path ''/'' [''proj'', ''ai'', ''config.json''],
                         Path ''/'' [''proj'', ''ai'', ''GOALS.md''],
                         Path ''/'' [''proj'', ''ai'', ''SOURCES.yaml'']]"
  "writable_paths ex_store = [Path ''/'' [''proj'', ''ai'', ''PLAN.yaml''],
                        Path ''/'' [''proj'', ''ai'', ''ACTIVE_TASK.yaml''],
                        Path ''/'' [''proj'', ''ai'', ''SUMMARY.md''],
                        Path ''/'' [''proj'', ''ai'', ''LAST_RESULT.json''],
                        Path ''/'' [''proj'', ''ai'', ''PROGRESS.yaml'']]"
  "design_resolved ex_store = Path ''/'' [''proj'', ''design'']"
  "StateStore.strict_schema_validation ex_store = True"
  "project_root ex_store = Path ''/'' [''proj'']"
  "ai_dir ex_store = Path ''/'' [''proj'', ''ai'']"
  "StateStore.design_dir ex_store = Path ''/'' [''proj'', ''design'']"
  by (simp_all add: ex_store_def ex_root_def)

lemma ex_resolved:
  "Path_resolve ex_env (Path ''/'' [''proj'', ''ai'', ''PLAN.yaml'']) = Inr (Path ''/'' [''proj'', ''ai'', ''PLAN.yaml''])"
  "Path_resolve ex_env (Path ''/'' [''proj'', ''ai'', ''ACTIVE_TASK.yaml'']) = Inr (Path ''/'' [''proj'', ''ai'', ''ACTIVE_TASK.yaml''])"
  "Path_resolve ex_env (Path ''/'' [''proj'', ''ai'', ''SUMMARY.md'']) = Inr (Path ''/'' [''proj'', ''ai'', ''SUMMARY.md''])"
  "Path_resolve ex_env (Path ''/'' [''proj'', ''ai'', ''LAST_RESULT.json'']) = Inr (Path ''/'' [''proj'', ''ai'', ''LAST_RESULT.json''])"
  "Path_resolve ex_env (Path ''/'' [''proj'', ''ai'', ''PROGRESS.yaml'']) = Inr (Path ''/'' [''proj'', ''ai'', ''PROGRESS.yaml''])"
  by code_simp+

theorem load_progress_default_witness:
  "fs (ex_world (ex_config 1 2) (ex_plan ''pending'' [ex_task ''t1'' ''pending'' []])) (progress_path ex_store) = None \<and>
   load_progress ex_store (ex_world (ex_config 1 2) (ex_plan ''pending'' [ex_task ''t1'' ''pending'' []]))
     = (Inr (Text (''objectives: {}'' @ [CHR 0x0A])),
        ex_world (ex_config 1 2) (ex_plan ''pending'' [ex_task ''t1'' ''pending'' []])) \<and>
   planner_write_progress ex_env ex_store (ex_plan ''pending'' [ex_task ''t1'' ''pending'' []])
       (ex_world (ex_config 1 2) (ex_plan ''pending'' [ex_task ''t1'' ''pending'' []]))
     = (Inr (), (ex_world (ex_config 1 2) (ex_plan ''pending'' [ex_task ''t1'' ''pending'' []]))
                 \<lparr>fs := (fs (ex_world (ex_config 1 2) (ex_plan ''pending'' [ex_task ''t1'' ''pending'' []])))
                    (progress_path ex_store \<mapsto>
                       File (Progress_Dump [(JStr ''o1'', JStr ''pending'')] [(JStr ''t1'', JStr ''pending'')]))\<rparr>) \<and>
   (\<exists>objectives tasks.
      load_progress ex_store
        ((ex_world (ex_config 1 2) (ex_plan ''pending'' [ex_task ''t1'' ''pending'' []]))
                 \<lparr>fs := (fs (ex_world (ex_config 1 2) (ex_plan ''pending'' [ex_task ''t1'' ''pending'' []])))
                    (progress_path ex_store \<mapsto>
                       File (Progress_Dump [(JStr ''o1'', JStr ''pending'')] [(JStr ''t1'', JStr ''pending'')]))\<rparr>)
      = (Inr (Progress_Dump objectives tasks),
         (ex_world (ex_config 1 2) (ex_plan ''pending'' [ex_task ''t1'' ''pending'' []]))
                 \<lparr>fs := (fs (ex_world (ex_config 1 2) (ex_plan ''pending'' [ex_task ''t1'' ''pending'' []])))
                    (progress_path ex_store \<mapsto>
                       File (Progress_Dump [(JStr ''o1'', JStr ''pending'')] [(JStr ''t1'', JStr ''pending'')]))\<rparr>))"
proof -
  let ?w = "ex_world (ex_config 1 2) (ex_plan ''pending'' [ex_task ''t1'' ''pending'' []])"
  let ?w' = "?w\<lparr>fs := (fs ?w)(progress_path ex_store \<mapsto>
                       File (Progress_Dump [(JStr ''o1'', JStr ''pending'')] [(JStr ''t1'', JStr ''pending'')]))\<rparr>"
  have a: "fs ?w (progress_path ex_store) = None"
    by (simp add: ex_eval)
  have b: "planner_write_progress ex_env ex_store (ex_plan ''pending'' [ex_task ''t1'' ''pending'' []]) ?w
             = (Inr (), ?w')"
    by (simp add: planner_write_progress_def io_eval store_eval py_eval ex_eval ex_store_fields ex_resolved)
  show ?thesis
    using a b load_progress_default[of ?w ex_store ex_env "ex_plan ''pending'' [ex_task ''t1'' ''pending'' []]" ?w']
    by blast
qed

theorem select_next_task_dangling_counterexample:
  "select_next_task (ex_plan ''pending'' [ex_task ''t1'' ''pending'' [JStr ''t2'', JStr ''zz''],
                                         ex_task ''t2'' ''pending'' []])
     = Inr (Some (ex_task ''t2'' ''pending'' [])) \<and>
   json_field (ex_task ''t1'' ''pending'' [JStr ''t2'', JStr ''zz'']) ''status'' = JStr ''pending'' \<and>
   JStr ''zz'' \<in> set (task_deps (ex_task ''t1'' ''pending'' [JStr ''t2'', JStr ''zz''])) \<and>
   \<not> names_task [ex_task ''t1'' ''pending'' [JStr ''t2'', JStr ''zz''], ex_task ''t2'' ''pending'' []]
         (JStr ''zz'')"
  by code_simp

theorem select_next_task_order_witness:
  "schema_plan (JObj (ex_plan ''pending'' [ex_task ''t1'' ''pending'' [JStr ''t2'', JStr ''zz''],
                                          ex_task ''t2'' ''pending'' []])) \<and>
   unique_task_ids (ex_plan ''pending'' [ex_task ''t1'' ''pending'' [JStr ''t2'', JStr ''zz''],
                                        ex_task ''t2'' ''pending'' []]) \<and>
   skipped [ex_task ''t1'' ''pending'' [JStr ''t2'', JStr ''zz''], ex_task ''t2'' ''pending'' []]
           (ex_task ''t1'' ''pending'' [JStr ''t2'', JStr ''zz'']) \<and>
   eligible [ex_task ''t1'' ''pending'' [JStr ''t2'', JStr ''zz''], ex_task ''t2'' ''pending'' []]
            (ex_task ''t2'' ''pending'' []) \<and>
   select_next_task (ex_plan ''pending'' [ex_task ''t1'' ''pending'' [JStr ''t2'', JStr ''zz''],
                                         ex_task ''t2'' ''pending'' []])
     = Inr (Some (ex_task ''t2'' ''pending'' [])) \<and>
   dangling [ex_task ''t0'' ''done'' [], ex_task ''t1'' ''pending'' [JStr ''t0'', JStr ''zz'']]
            (ex_task ''t1'' ''pending'' [JStr ''t0'', JStr ''zz'']) ''zz'' \<and>
   select_next_task (ex_plan ''pending'' [ex_task ''t0'' ''done'' [],
                                         ex_task ''t1'' ''pending'' [JStr ''t0'', JStr ''zz'']])
     = Inl (PlannerError ''Dependency not found: zz'') \<and>
   select_next_task (ex_plan ''pending'' [ex_task ''t0'' ''done'' [], ex_task ''t1'' ''active'' []])
     = Inl (PlannerError ''Plan contains an active task without execution context.'') \<and>
   select_next_task (ex_plan ''pending'' [ex_task ''t0'' ''done'' [], ex_task ''t1'' ''failed'' []])
     = Inr None"
proof -
  let ?a1 = "ex_task ''t1'' ''pending'' [JStr ''t2'', JStr ''zz'']" and ?a2 = "ex_task ''t2'' ''pending'' []"
  let ?t0 = "ex_task ''t0'' ''done'' []"
  let ?b1 = "ex_task ''t1'' ''pending'' [JStr ''t0'', JStr ''zz'']"
  let ?c1 = "ex_task ''t1'' ''active'' []" and ?d1 = "ex_task ''t1'' ''failed'' []"
  have tasks: "plan_tasks (ex_plan s ts) = ts" for s ts
    by (simp add: plan_tasks_def ex_plan_def dict_get_def dict_get_default_def)
  have sa: "schema_plan (JObj (ex_plan ''pending'' [?a1, ?a2]))" by code_simp
  have ua: "unique_task_ids (ex_plan ''pending'' [?a1, ?a2])" by code_simp
  have sk: "skipped [?a1, ?a2] ?a1" by code_simp
  have el: "eligible [?a1, ?a2] ?a2" by code_simp
  have 1: "select_next_task (ex_plan ''pending'' [?a1, ?a2]) = Inr (Some ?a2)"
    using select_next_task_order[OF sa ua, THEN conjunct1, rule_format, of "[?a1]" ?a2 "[]"] sk el
    by (simp add: tasks)
  have sb: "schema_plan (JObj (ex_plan ''pending'' [?t0, ?b1]))" by code_simp
  have ub: "unique_task_ids (ex_plan ''pending'' [?t0, ?b1])" by code_simp
  have skb: "skipped [?t0, ?b1] ?t0" by code_simp
  have da: "dangling [?t0, ?b1] ?b1 ''zz''" by code_simp
  have 2: "select_next_task (ex_plan ''pending'' [?t0, ?b1]) = Inl (PlannerError ''Dependency not found: zz'')"
    using select_next_task_order[OF sb ub, THEN conjunct1, rule_format, of "[?t0]" ?b1 "[]"] skb da
    by (simp add: tasks)
  have sc: "schema_plan (JObj (ex_plan ''pending'' [?t0, ?c1]))" by code_simp
  have uc: "unique_task_ids (ex_plan ''pending'' [?t0, ?c1])" by code_simp
  have skc: "skipped [?t0, ?c1] ?t0" by code_simp
  have ac: "json_field ?c1 ''status'' = JStr ''active''" by code_simp
  have 3: "select_next_task (ex_plan ''pending'' [?t0, ?c1])
             = Inl (PlannerError ''Plan contains an active task without execution context.'')"
    using select_next_task_order[OF sc uc, THEN conjunct1, rule_format, of "[?t0]" ?c1 "[]"] skc ac
    by (simp add: tasks)
  have sd: "schema_plan (JObj (ex_plan ''pending'' [?t0, ?d1]))" by code_simp
  have ud: "unique_task_ids (ex_plan ''pending'' [?t0, ?d1])" by code_simp
  have skd: "list_all (skipped [?t0, ?d1]) [?t0, ?d1]" by code_simp
  have 4: "select_next_task (ex_plan ''pending'' [?t0, ?d1]) = Inr None"
    using select_next_task_order[OF sd ud, THEN conjunct2] skd by (simp add: tasks)
  show ?thesis using sa ua sk el 1 da 2 3 4 by blast
qed

theorem planner_mutations_roll_up_witness:
  "schema_plan (JObj (ex_plan ''pending'' [ex_task ''t1'' ''pending'' [], ex_task ''t2'' ''pending'' []])) \<and>
   activate_task (ex_plan ''pending'' [ex_task ''t1'' ''pending'' [], ex_task ''t2'' ''pending'' []]) ''t1'' 60
     = Inr (case ex_task ''t1'' ''active'' [] of JObj t \<Rightarrow> dict_set t ''timeout_seconds'' (JInt 60) | _ \<Rightarrow> [],
            ex_plan ''in_progress'' [ex_task ''t1'' ''active'' [], ex_task ''t2'' ''pending'' []]) \<and>
   objectives_rolled_up (ex_plan ''pending'' [ex_task ''t1'' ''pending'' [], ex_task ''t2'' ''pending'' []])
                        (ex_plan ''in_progress'' [ex_task ''t1'' ''active'' [], ex_task ''t2'' ''pending'' []]) \<and>
   schema_plan (JObj (ex_plan ''in_progress'' [ex_task ''t1'' ''active'' [], ex_task ''t2'' ''done'' []])) \<and>
   finalize_task (ex_plan ''in_progress'' [ex_task ''t1'' ''active'' [], ex_task ''t2'' ''done'' []]) ''t1'' ''done''
     = Inr (ex_plan ''complete'' [ex_task ''t1'' ''done'' [], ex_task ''t2'' ''done'' []]) \<and>
   objectives_rolled_up (ex_plan ''in_progress'' [ex_task ''t1'' ''active'' [], ex_task ''t2'' ''done'' []])
                        (ex_plan ''complete'' [ex_task ''t1'' ''done'' [], ex_task ''t2'' ''done'' []]) \<and>
   schema_plan (JObj (ex_plan ''in_progress'' [ex_task ''t1'' ''active'' [], ex_task ''t2'' ''pending'' []])) \<and>
   reset_task_for_retry (ex_plan ''in_progress'' [ex_task ''t1'' ''active'' [], ex_task ''t2'' ''pending'' []]) ''t1''
     = Inr (ex_plan ''pending'' [ex_task ''t1'' ''pending'' [], ex_task ''t2'' ''pending'' []]) \<and>
   objectives_rolled_up (ex_plan ''in_progress'' [ex_task ''t1'' ''active'' [], ex_task ''t2'' ''pending'' []])
                        (ex_plan ''pending'' [ex_task ''t1'' ''pending'' [], ex_task ''t2'' ''pending'' []])"
proof -
  let ?pp = "ex_plan ''pending'' [ex_task ''t1'' ''pending'' [], ex_task ''t2'' ''pending'' []]"
  let ?ap = "ex_plan ''in_progress'' [ex_task ''t1'' ''active'' [], ex_task ''t2'' ''pending'' []]"
  let ?ad = "ex_plan ''in_progress'' [ex_task ''t1'' ''active'' [], ex_task ''t2'' ''done'' []]"
  let ?dd = "ex_plan ''complete'' [ex_task ''t1'' ''done'' [], ex_task ''t2'' ''done'' []]"
  let ?act = "case ex_task ''t1'' ''active'' [] of JObj t \<Rightarrow> dict_set t ''timeout_seconds'' (JInt 60) | _ \<Rightarrow> []"
  have s1: "schema_plan (JObj ?pp)" by code_simp
  have s2: "schema_plan (JObj ?ad)" by code_simp
  have s3: "schema_plan (JObj ?ap)" by code_simp
  have a: "activate_task ?pp ''t1'' 60 = Inr (?act, ?ap)" by code_simp
  have f: "finalize_task ?ad ''t1'' ''done'' = Inr ?dd" by code_simp
  have r: "reset_task_for_retry ?ap ''t1'' = Inr ?pp" by code_simp
  show ?thesis
    using s1 s2 s3 a f r
      planner_mutations_roll_up[OF s1, of "''t1''" 60 ?act ?ap]
      planner_mutations_roll_up[OF s2, of "''t1''" _ _ ?dd "''done''"]
      planner_mutations_roll_up[OF s3, of "''t1''" _ _ ?pp]
    by blast
qed

lemma pair_of_fst: "fst p = a \<Longrightarrow> p = (a, snd p)"
  by auto

theorem policy_violation_leaves_active_task_witness:
  "run_loop ex_env ex_store (ex_config 1 2) ex_root [ex_reply ''success'' [''design/spec.md'']]
       (ex_world (ex_config 1 2) (ex_plan ''pending'' [ex_task ''t1'' ''pending'' []]))
     = Some (Inl (PolicyViolation ''Forbidden files modified: design/spec.md''),
             ex_received (ex_config 1 2) (ex_reply ''success'' [''design/spec.md''])
               (ex_world (ex_config 1 2) (ex_plan ''pending'' [ex_task ''t1'' ''pending'' []]))) \<and>
   fs (ex_received (ex_config 1 2) (ex_reply ''success'' [''design/spec.md''])
        (ex_world (ex_config 1 2) (ex_plan ''pending'' [ex_task ''t1'' ''pending'' []])))
      (active_task_path ex_store) = None \<and>
   persisted_plan ex_store
      (ex_received (ex_config 1 2) (ex_reply ''success'' [''design/spec.md''])
        (ex_world (ex_config 1 2) (ex_plan ''pending'' [ex_task ''t1'' ''pending'' []])))
     = Some (ex_plan ''in_progress'' [ex_task ''t1'' ''active'' []]) \<and>
   status_in_plan (ex_plan ''in_progress'' [ex_task ''t1'' ''active'' []]) ''t1''
     = Some (JStr ''active'') \<and>
   run_loop ex_env ex_store (ex_config 1 2) ex_root [ex_reply ''success'' []]
       ((ex_received (ex_config 1 2) (ex_reply ''success'' [''design/spec.md''])
          (ex_world (ex_config 1 2) (ex_plan ''pending'' [ex_task ''t1'' ''pending'' []])))
        \<lparr>retry_tracker := main_retry_tracker (ex_config 1 2)\<rparr>)
     = Some (Inl (PlannerError ''Plan contains an active task without execution context.''),
             (ex_received (ex_config 1 2) (ex_reply ''success'' [''design/spec.md''])
               (ex_world (ex_config 1 2) (ex_plan ''pending'' [ex_task ''t1'' ''pending'' []])))
             \<lparr>retry_tracker := main_retry_tracker (ex_config 1 2)\<rparr>)"
proof -
  let ?w = "ex_world (ex_config 1 2) (ex_plan ''pending'' [ex_task ''t1'' ''pending'' []])"
  let ?reply = "ex_reply ''success'' [''design/spec.md'']"
  have "fst (begin_iteration ex_env ex_store (ex_config 1 2) ?w)
          = Inr (Some (ex_plan ''in_progress'' [ex_task ''t1'' ''active'' []], ''t1'', ex_active ''t1''))"
    by code_simp
  then have b: "begin_iteration ex_env ex_store (ex_config 1 2) ?w
          = (Inr (Some (ex_plan ''in_progress'' [ex_task ''t1'' ''active'' []], ''t1'', ex_active ''t1'')),
             ex_begun (ex_config 1 2) ?w)"
    unfolding ex_begun_def by (rule pair_of_fst)
  have "fst (receive_result ex_env ex_store (ex_config 1 2) ex_root ?reply (ex_begun (ex_config 1 2) ?w))
          = Inl (PolicyViolation ''Forbidden files modified: design/spec.md'')"
    by code_simp
  then have r: "receive_result ex_env ex_store (ex_config 1 2) ex_root ?reply (ex_begun (ex_config 1 2) ?w)
          = (Inl (PolicyViolation ''Forbidden files modified: design/spec.md''),
             ex_received (ex_config 1 2) ?reply ?w)"
    unfolding ex_received_def by (rule pair_of_fst)
  show ?thesis
    using policy_violation_leaves_active_task[OF b r, of "[]"] by simp
qed


theorem unexpected_status_counterexample:
  "StateStore.strict_schema_validation ex_store \<and>
   dict_get (ex_payload ''weird'' []) ''status'' = JStr ''weird'' \<and>
   run_outcome (run_loop ex_env ex_store (ex_config 1 2) ex_root [Agent_result (ex_payload ''weird'' []) []]
       (ex_world (ex_config 1 2) (ex_plan ''pending'' [ex_task ''t1'' ''pending'' []])))
     = Some (Inl StateValidationError) \<and>
   run_outcome (run_loop ex_env ex_store (ex_config 1 2) ex_root [Agent_result (ex_payload ''weird'' []) []]
       (ex_world (ex_config 1 2) (ex_plan ''pending'' [ex_task ''t1'' ''pending'' []])))
     \<noteq> Some (Inl (StopExecution_unexpected_status (JStr ''weird'')))"
  by code_simp

theorem unexpected_status_halts_in_validation_witness:
  "run_loop ex_env ex_store (ex_config 1 2) ex_root [Agent_result (ex_payload ''weird'' []) []]
       (ex_world (ex_config 1 2) (ex_plan ''pending'' [ex_task ''t1'' ''pending'' []]))
     = Some (Inl StateValidationError,
             (ex_begun (ex_config 1 2)
                (ex_world (ex_config 1 2) (ex_plan ''pending'' [ex_task ''t1'' ''pending'' []])))
             \<lparr>fs := (fs (ex_begun (ex_config 1 2)
                (ex_world (ex_config 1 2) (ex_plan ''pending'' [ex_task ''t1'' ''pending'' []]))))
                     (active_task_path ex_store := None)\<rparr>) \<and>
   write_last_result ex_env ex_store (JObj (ex_payload ''weird'' []))
       (ex_world (ex_config 1 2) (ex_plan ''in_progress'' [ex_task ''t1'' ''active'' []]))
     = (Inl StateValidationError,
        ex_world (ex_config 1 2) (ex_plan ''in_progress'' [ex_task ''t1'' ''active'' []])) \<and>
   handle_status ex_env ex_store (ex_plan ''in_progress'' [ex_task ''t1'' ''active'' []]) ''t1''
       (ex_payload ''weird'' [])
       (ex_world (ex_config 1 2) (ex_plan ''in_progress'' [ex_task ''t1'' ''active'' []]))
     = (Inl (StopExecution_unexpected_status (JStr ''weird'')),
        ex_world (ex_config 1 2) (ex_plan ''in_progress'' [ex_task ''t1'' ''active'' []]))"
proof -
  let ?w = "ex_world (ex_config 1 2) (ex_plan ''pending'' [ex_task ''t1'' ''pending'' []])"
  have s: "StateStore.strict_schema_validation ex_store" by code_simp
  have st: "dict_get (ex_payload ''weird'' []) ''status'' = JStr ''weird''" by code_simp
  then have bad: "dict_get (ex_payload ''weird'' []) ''status''
                    \<notin> {JStr ''success'', JStr ''failed'', JStr ''blocked''}" by simp
  have "fst (begin_iteration ex_env ex_store (ex_config 1 2) ?w)
          = Inr (Some (ex_plan ''in_progress'' [ex_task ''t1'' ''active'' []], ''t1'', ex_active ''t1''))"
    by code_simp
  then have b: "begin_iteration ex_env ex_store (ex_config 1 2) ?w
          = (Inr (Some (ex_plan ''in_progress'' [ex_task ''t1'' ''active'' []], ''t1'', ex_active ''t1'')),
             ex_begun (ex_config 1 2) ?w)"
    unfolding ex_begun_def by (rule pair_of_fst)
  have c: "strip (mcp_command (ex_config 1 2)) \<noteq> []" by code_simp
  have t: "0 \<le> startup_timeout_seconds (ex_config 1 2)" by code_simp
  show ?thesis
    using unexpected_status_halts_in_validation[OF s bad b c t,
        where prj = ex_root and stderr = "[]" and rest = "[]"
          and w' = "ex_world (ex_config 1 2) (ex_plan ''in_progress'' [ex_task ''t1'' ''active'' []])"]
    by (simp add: st)
qed

theorem retry_limit_counterexample:
  "RetryTracker.max_retries_per_task (main_retry_tracker (ex_config 0 3)) = min 0 1 \<and>
   run_outcome (run_loop ex_env ex_store (ex_config 0 3) ex_root [ex_reply ''failed'' []]
       (ex_world (ex_config 0 3) (ex_plan ''pending'' [ex_task ''t1'' ''pending'' []])))
     = Some (Inl (StopExecution ''Task failed more than once.'')) \<and>
   final_status ex_store ''t1'' (run_loop ex_env ex_store (ex_config 0 3) ex_root [ex_reply ''failed'' []]
       (ex_world (ex_config 0 3) (ex_plan ''pending'' [ex_task ''t1'' ''pending'' []])))
     = Some (JStr ''failed'')"
  by code_simp

theorem retry_limit_and_failed_task_witness:
  "RetryTracker.max_retries_per_task (main_retry_tracker (ex_config 5 3)) = 1 \<and>
   can_retry (main_retry_tracker (ex_config 5 3)) ''t1'' \<and>
   handle_status ex_env ex_store (ex_plan ''in_progress'' [ex_task ''t1'' ''active'' []]) ''t1''
       (ex_payload ''failed'' [])
       (ex_world (ex_config 5 3) (ex_plan ''in_progress'' [ex_task ''t1'' ''active'' []]))
     = (Inr (), ex_handled (ex_plan ''in_progress'' [ex_task ''t1'' ''active'' []]) ''t1''
                  (ex_payload ''failed'' [])
                  (ex_world (ex_config 5 3) (ex_plan ''in_progress'' [ex_task ''t1'' ''active'' []]))) \<and>
   persisted_status ex_store
       (ex_handled (ex_plan ''in_progress'' [ex_task ''t1'' ''active'' []]) ''t1''
                  (ex_payload ''failed'' [])
                  (ex_world (ex_config 5 3) (ex_plan ''in_progress'' [ex_task ''t1'' ''active'' []])))
       ''t1'' = Some (JStr ''pending'') \<and>
   attempts (retry_tracker
       (ex_handled (ex_plan ''in_progress'' [ex_task ''t1'' ''active'' []]) ''t1''
                  (ex_payload ''failed'' [])
                  (ex_world (ex_config 5 3) (ex_plan ''in_progress'' [ex_task ''t1'' ''active'' []]))))
       ''t1'' = Some 1 \<and>
   handle_status ex_env ex_store (ex_plan ''in_progress'' [ex_task ''t1'' ''active'' []]) ''t1''
       (ex_payload ''failed'' [])
       (ex_world (ex_config 0 3) (ex_plan ''in_progress'' [ex_task ''t1'' ''active'' []]))
     = (Inl (StopExecution ''Task failed more than once.''),
        ex_handled (ex_plan ''in_progress'' [ex_task ''t1'' ''active'' []]) ''t1''
                  (ex_payload ''failed'' [])
                  (ex_world (ex_config 0 3) (ex_plan ''in_progress'' [ex_task ''t1'' ''active'' []]))) \<and>
   persisted_status ex_store
       (ex_handled (ex_plan ''in_progress'' [ex_task ''t1'' ''active'' []]) ''t1''
                  (ex_payload ''failed'' [])
                  (ex_world (ex_config 0 3) (ex_plan ''in_progress'' [ex_task ''t1'' ''active'' []])))
       ''t1'' = Some (JStr ''failed'') \<and>
   attempts (retry_tracker
       (ex_handled (ex_plan ''in_progress'' [ex_task ''t1'' ''active'' []]) ''t1''
                  (ex_payload ''failed'' [])
                  (ex_world (ex_config 5 3) (ex_plan ''in_progress'' [ex_task ''t1'' ''active'' []]))))
       ''t1'' = Some 1 \<and>
   handle_status ex_env ex_store (ex_plan ''in_progress'' [ex_task ''t1'' ''active'' []]) ''t1''
       (ex_payload ''failed'' [])
       (ex_handled (ex_plan ''in_progress'' [ex_task ''t1'' ''active'' []]) ''t1''
                  (ex_payload ''failed'' [])
                  (ex_world (ex_config 5 3) (ex_plan ''in_progress'' [ex_task ''t1'' ''active'' []])))
     = (Inl (StopExecution ''Task failed more than once.''),
        ex_handled (ex_plan ''in_progress'' [ex_task ''t1'' ''active'' []]) ''t1''
                  (ex_payload ''failed'' [])
          (ex_handled (ex_plan ''in_progress'' [ex_task ''t1'' ''active'' []]) ''t1''
                  (ex_payload ''failed'' [])
                  (ex_world (ex_config 5 3) (ex_plan ''in_progress'' [ex_task ''t1'' ''active'' []])))) \<and>
   persisted_status ex_store
       (ex_handled (ex_plan ''in_progress'' [ex_task ''t1'' ''active'' []]) ''t1''
                  (ex_payload ''failed'' [])
          (ex_handled (ex_plan ''in_progress'' [ex_task ''t1'' ''active'' []]) ''t1''
                  (ex_payload ''failed'' [])
                  (ex_world (ex_config 5 3) (ex_plan ''in_progress'' [ex_task ''t1'' ''active'' []]))))
       ''t1'' = Some (JStr ''failed'')"
proof -
  let ?plan = "ex_plan ''in_progress'' [ex_task ''t1'' ''active'' []]"
  let ?w5 = "ex_world (ex_config 5 3) ?plan"
  let ?w0 = "ex_world (ex_config 0 3) ?plan"
  let ?w6 = "ex_handled ?plan ''t1'' (ex_payload ''failed'' []) ?w5"
  have f: "dict_get (ex_payload ''failed'' []) ''status'' = JStr ''failed''" by code_simp
  have m5: "RetryTracker.max_retries_per_task (retry_tracker ?w5) = min 5 1" by code_simp
  have m0: "RetryTracker.max_retries_per_task (retry_tracker ?w0) = min 0 1" by code_simp
  have c5: "consecutive_failures (retry_tracker ?w5) + 1
              < RetryTracker.max_consecutive_failures (retry_tracker ?w5)" by code_simp
  have c0: "consecutive_failures (retry_tracker ?w0) + 1
              < RetryTracker.max_consecutive_failures (retry_tracker ?w0)" by code_simp
  have a5: "attempts (retry_tracker ?w5) ''t1'' = None" by code_simp
  have a0: "attempts (retry_tracker ?w0) ''t1'' = None" by code_simp
  have "fst (handle_status ex_env ex_store ?plan ''t1'' (ex_payload ''failed'' []) ?w5) = Inr ()"
    by code_simp
  then have h5: "handle_status ex_env ex_store ?plan ''t1'' (ex_payload ''failed'' []) ?w5
                   = (Inr (), ex_handled ?plan ''t1'' (ex_payload ''failed'' []) ?w5)"
    unfolding ex_handled_def by (rule pair_of_fst)
  have "fst (handle_status ex_env ex_store ?plan ''t1'' (ex_payload ''failed'' []) ?w0)
          = Inl (StopExecution ''Task failed more than once.'')"
    by code_simp
  then have h0: "handle_status ex_env ex_store ?plan ''t1'' (ex_payload ''failed'' []) ?w0
                   = (Inl (StopExecution ''Task failed more than once.''),
                      ex_handled ?plan ''t1'' (ex_payload ''failed'' []) ?w0)"
    unfolding ex_handled_def by (rule pair_of_fst)
  note t5 = retry_limit_and_failed_task[OF f m5 c5 disjI1[OF a5] h5,
              of "ex_config 5 3" "main_retry_tracker (ex_config 5 3)" "''t1''"]
  note t0 = retry_limit_and_failed_task[OF f m0 c0 disjI1[OF a0] h0,
              of "ex_config 0 3" "main_retry_tracker (ex_config 0 3)" "''t1''"]
  have k: "Config.max_retries_per_task (ex_config 5 3) = 5"
    "attempts (main_retry_tracker (ex_config 5 3)) ''t1'' = None" by code_simp+
  have m6: "RetryTracker.max_retries_per_task (retry_tracker ?w6) = min 5 1" by code_simp
  have c6: "consecutive_failures (retry_tracker ?w6) + 1
              < RetryTracker.max_consecutive_failures (retry_tracker ?w6)" by code_simp
  have s6: "attempts (retry_tracker ?w6) ''t1'' = Some 1" by code_simp
  then have a6: "\<exists>n\<ge>1. attempts (retry_tracker ?w6) ''t1'' = Some n" by simp
  have "fst (handle_status ex_env ex_store ?plan ''t1'' (ex_payload ''failed'' []) ?w6)
          = Inl (StopExecution ''Task failed more than once.'')"
    by code_simp
  then have h6: "handle_status ex_env ex_store ?plan ''t1'' (ex_payload ''failed'' []) ?w6
                   = (Inl (StopExecution ''Task failed more than once.''),
                      ex_handled ?plan ''t1'' (ex_payload ''failed'' []) ?w6)"
    unfolding ex_handled_def by (rule pair_of_fst)
  note t6 = retry_limit_and_failed_task[OF f m6 c6 disjI2[OF a6] h6,
              of "ex_config 5 3" "main_retry_tracker (ex_config 5 3)" "''t1''"]
  have first: "RetryTracker.max_retries_per_task (main_retry_tracker (ex_config 5 3)) = 1 \<and>
     can_retry (main_retry_tracker (ex_config 5 3)) ''t1'' \<and>
     persisted_status ex_store ?w6 ''t1'' = Some (JStr ''pending'')"
    using t5 a5 h5 k by simp
  have none: "persisted_status ex_store (ex_handled ?plan ''t1'' (ex_payload ''failed'' []) ?w0) ''t1''
                = Some (JStr ''failed'')"
    using t0 a0 h0 by simp
  have again: "persisted_status ex_store (ex_handled ?plan ''t1'' (ex_payload ''failed'' []) ?w6) ''t1''
                 = Some (JStr ''failed'')"
    using t6 a6 h6 by simp
  show ?thesis
    using first none again h5 h0 h6 s6 by simp
qed

theorem second_consecutive_failure_counterexample:
  "RetryTracker.max_consecutive_failures (main_retry_tracker (ex_config 1 2)) = 2 \<and>
   run_outcome (run_loop ex_env ex_store (ex_config 1 2) ex_root [ex_reply ''failed'' [], ex_reply ''failed'' []]
       (ex_world (ex_config 1 2) (ex_plan ''pending'' [ex_task ''t1'' ''pending'' []])))
     = Some (Inl (StopExecution ''Max consecutive failures reached.'')) \<and>
   final_status ex_store ''t1''
      (run_loop ex_env ex_store (ex_config 1 2) ex_root [ex_reply ''failed'' [], ex_reply ''failed'' []]
       (ex_world (ex_config 1 2) (ex_plan ''pending'' [ex_task ''t1'' ''pending'' []])))
     = Some (JStr ''active'') \<and>
   final_status ex_store ''t1''
      (run_loop ex_env ex_store (ex_config 1 2) ex_root [ex_reply ''failed'' [], ex_reply ''failed'' []]
       (ex_world (ex_config 1 2) (ex_plan ''pending'' [ex_task ''t1'' ''pending'' []])))
     \<noteq> Some (JStr ''pending'')"
  by code_simp


theorem second_consecutive_failure_halts_witness:
  "run_loop ex_env ex_store (ex_config 1 2) ex_root [ex_reply ''failed'' [], ex_reply ''failed'' []]
       (ex_world (ex_config 1 2) (ex_plan ''pending'' [ex_task ''t1'' ''pending'' []]))
     = Some (Inl (StopExecution ''Max consecutive failures reached.''),
             (ex_received (ex_config 1 2) (ex_reply ''failed'' [])
               (ex_handled (ex_plan ''in_progress'' [ex_task ''t1'' ''active'' []]) ''t1''
                 (ex_payload ''failed'' [])
                 (ex_received (ex_config 1 2) (ex_reply ''failed'' [])
                   (ex_world (ex_config 1 2) (ex_plan ''pending'' [ex_task ''t1'' ''pending'' []])))))
             \<lparr>retry_tracker := record_failure (retry_tracker
               (ex_received (ex_config 1 2) (ex_reply ''failed'' [])
               (ex_handled (ex_plan ''in_progress'' [ex_task ''t1'' ''active'' []]) ''t1''
                 (ex_payload ''failed'' [])
                 (ex_received (ex_config 1 2) (ex_reply ''failed'' [])
                   (ex_world (ex_config 1 2) (ex_plan ''pending'' [ex_task ''t1'' ''pending'' []])))))) ''t1''\<rparr>) \<and>
   persisted_status ex_store
      ((ex_received (ex_config 1 2) (ex_reply ''failed'' [])
               (ex_handled (ex_plan ''in_progress'' [ex_task ''t1'' ''active'' []]) ''t1''
                 (ex_payload ''failed'' [])
                 (ex_received (ex_config 1 2) (ex_reply ''failed'' [])
                   (ex_world (ex_config 1 2) (ex_plan ''pending'' [ex_task ''t1'' ''pending'' []])))))
             \<lparr>retry_tracker := record_failure (retry_tracker
               (ex_received (ex_config 1 2) (ex_reply ''failed'' [])
               (ex_handled (ex_plan ''in_progress'' [ex_task ''t1'' ''active'' []]) ''t1''
                 (ex_payload ''failed'' [])
                 (ex_received (ex_config 1 2) (ex_reply ''failed'' [])
                   (ex_world (ex_config 1 2) (ex_plan ''pending'' [ex_task ''t1'' ''pending'' []])))))) ''t1''\<rparr>)
      ''t1'' = Some (JStr ''active'')"
proof -
  let ?cfg = "ex_config 1 2"
  let ?w = "ex_world ?cfg (ex_plan ''pending'' [ex_task ''t1'' ''pending'' []])"
  let ?plan = "ex_plan ''in_progress'' [ex_task ''t1'' ''active'' []]"
  let ?rf = "ex_reply ''failed'' []"
  let ?w2 = "ex_received ?cfg ?rf ?w"
  let ?w3 = "ex_handled ?plan ''t1'' (ex_payload ''failed'' []) ?w2"
  let ?w5 = "ex_received ?cfg ?rf ?w3"
  have c: "RetryTracker.max_consecutive_failures (retry_tracker ?w) = 2" by code_simp
  have z: "0 \<le> consecutive_failures (retry_tracker ?w)" by code_simp
  have f: "dict_get (ex_payload ''failed'' []) ''status'' = JStr ''failed''" by code_simp
  have "fst (begin_iteration ex_env ex_store ?cfg ?w) = Inr (Some (?plan, ''t1'', ex_active ''t1''))"
    by code_simp
  then have b1: "begin_iteration ex_env ex_store ?cfg ?w
                   = (Inr (Some (?plan, ''t1'', ex_active ''t1'')), ex_begun ?cfg ?w)"
    unfolding ex_begun_def by (rule pair_of_fst)
  have "fst (receive_result ex_env ex_store ?cfg ex_root ?rf (ex_begun ?cfg ?w)) = Inr (ex_payload ''failed'' [])"
    by code_simp
  then have r1: "receive_result ex_env ex_store ?cfg ex_root ?rf (ex_begun ?cfg ?w)
                   = (Inr (ex_payload ''failed'' []), ?w2)"
    unfolding ex_received_def by (rule pair_of_fst)
  have "fst (handle_status ex_env ex_store ?plan ''t1'' (ex_payload ''failed'' []) ?w2) = Inr ()"
    by code_simp
  then have h1: "handle_status ex_env ex_store ?plan ''t1'' (ex_payload ''failed'' []) ?w2 = (Inr (), ?w3)"
    unfolding ex_handled_def by (rule pair_of_fst)
  have "fst (begin_iteration ex_env ex_store ?cfg ?w3) = Inr (Some (?plan, ''t1'', ex_active ''t1''))"
    by code_simp
  then have b2: "begin_iteration ex_env ex_store ?cfg ?w3
                   = (Inr (Some (?plan, ''t1'', ex_active ''t1'')), ex_begun ?cfg ?w3)"
    unfolding ex_begun_def by (rule pair_of_fst)
  have "fst (receive_result ex_env ex_store ?cfg ex_root ?rf (ex_begun ?cfg ?w3)) = Inr (ex_payload ''failed'' [])"
    by code_simp
  then have r2: "receive_result ex_env ex_store ?cfg ex_root ?rf (ex_begun ?cfg ?w3)
                   = (Inr (ex_payload ''failed'' []), ?w5)"
    unfolding ex_received_def by (rule pair_of_fst)
  from second_consecutive_failure_halts[OF c z b1 r1 f h1 b2 r2 f, of "[]"]
  show ?thesis by blast
qed

end
